theory Spec2Isabelle
  imports Complex_Main
begin

section \<open>Values of the upstream JSON\<close>

text \<open>
  The backend (\<^verbatim>\<open>src/backend/index.mjs\<close>) reads occupancy records out of the body of an
  upstream reply that went through \<^verbatim>\<open>JSON.parse\<close>. A parsed number is a double that is
  never NaN: a finite one is a rational (the two zeros of a double are one value here, as
  they are under \<^verbatim>\<open>===\<close>), and a literal too large for a double parses to an infinity.
\<close>

datatype jsnum = Finite rat | PosInf | NegInf

datatype jv =
    JNull
  | JBool bool
  | JNum jsnum
  | JStr string
  | JArr "jv list"
  | JObj "(string \<times> jv) list"

text \<open>
  \<^verbatim>\<open>v.k\<close> for a key \<open>k\<close> that no prototype defines (\<^verbatim>\<open>rental_id\<close>, \<^verbatim>\<open>price\<close>,
  \<^verbatim>\<open>result\<close>, \<^verbatim>\<open>error\<close>, \<^verbatim>\<open>error_message\<close>, \<^verbatim>\<open>data\<close>): the member of an object (the last
  one, when the text repeated the key), \<^verbatim>\<open>undefined\<close> (\<open>None\<close>) on anything else.
\<close>

fun getprop :: "jv \<Rightarrow> string \<Rightarrow> jv option" where
  "getprop (JObj kvs) k = map_of (rev kvs) k"
| "getprop _ k = None"

text \<open>JavaScript's truthiness of a parsed value.\<close>

fun truthy :: "jv \<Rightarrow> bool" where
  "truthy JNull = False"
| "truthy (JBool b) = b"
| "truthy (JNum n) = (n \<noteq> Finite 0)"
| "truthy (JStr s) = (s \<noteq> [])"
| "truthy (JArr _) = True"
| "truthy (JObj _) = True"

text \<open>
  A probe is what \<^verbatim>\<open>byKey.get(key)\<close> gave: \<open>None\<close> is \<^verbatim>\<open>undefined\<close> (no such key; the
  handlers pass \<^verbatim>\<open>null\<close> when there is no index at all, which every test below treats
  alike). \<open>present it\<close> is the source's \<^verbatim>\<open>it\<close> in a boolean position.
\<close>

type_synonym probe = "jv option"

fun present :: "probe \<Rightarrow> bool" where
  "present None = False"
| "present (Some v) = truthy v"

section \<open>Slot evaluator\<close>

datatype slot_status = Free | Busy | Missing

text \<open>
  \<^verbatim>\<open>
  function isFreeItem(it) {
    if (!it) return false;
    const rid = it.rental_id;
    return rid === null || rid === undefined || rid === "" || rid === 0;
  }
  \<close>
\<close>

definition isFreeItem :: "probe \<Rightarrow> bool" where
  "isFreeItem it =
     (if \<not> present it then False
      else (let rid = getprop (the it) ''rental_id''
            in rid = Some JNull \<or> rid = None \<or> rid = Some (JStr '''') \<or> rid = Some (JNum (Finite 0))))"

record slot_info =
  date_time :: string
  found :: bool
  rental_id :: jv
  status :: slot_status

text \<open>
  \<^verbatim>\<open>
  function slotInfo(it, date, time) {
    if (!it) {
      return { date_time: `${date} ${time}`, found: false, rental_id: null, status: "missing" };
    }
    return { date_time: `${date} ${time}`, found: true,
             rental_id: it?.rental_id ?? null,
             status: isFreeItem(it) ? "free" : "busy" };
  }
  \<close>
\<close>

definition slotInfo :: "probe \<Rightarrow> string \<Rightarrow> string \<Rightarrow> slot_info" where
  "slotInfo it date time =
     (if \<not> present it then
        \<lparr>date_time = date @ '' '' @ time, found = False, rental_id = JNull, status = Missing\<rparr>
      else
        \<lparr>date_time = date @ '' '' @ time, found = True,
         rental_id = (case getprop (the it) ''rental_id'' of None \<Rightarrow> JNull | Some v \<Rightarrow> v),
         status = (if isFreeItem it then Free else Busy)\<rparr>)"

text \<open>
  \<^verbatim>\<open>
  function pickPrice(it1, it2) {
    const p1 = it1 && typeof it1.price === "number" ? it1.price : null;
    if (p1 !== null) return p1;
    const p2 = it2 && typeof it2.price === "number" ? it2.price : null;
    return p2;
  }
  \<close>
  \<open>numeric_price it\<close> is the conditional expression of the first and third line.
\<close>

definition numeric_price :: "probe \<Rightarrow> jsnum option" where
  "numeric_price it =
     (if present it then
        (case getprop (the it) ''price'' of Some (JNum n) \<Rightarrow> Some n | _ \<Rightarrow> None)
      else None)"

definition pickPrice :: "probe \<Rightarrow> probe \<Rightarrow> jsnum option" where
  "pickPrice it1 it2 =
     (let p1 = numeric_price it1
      in if p1 \<noteq> None then p1
         else (let p2 = numeric_price it2 in p2))"

record room_status =
  room_status :: slot_status
  reason :: "string option"

text \<open>
  \<^verbatim>\<open>
  function evaluateRoomStatus(slot1, slot2) {
    if (slot1.status === "missing" || slot2.status === "missing")
      return { status: "missing", reason: "slot_missing" };
    if (slot1.status === "busy" || slot2.status === "busy")
      return { status: "busy", reason: "occupied" };
    return { status: "free", reason: null };
  }
  \<close>
\<close>

definition evaluateRoomStatus :: "slot_info \<Rightarrow> slot_info \<Rightarrow> room_status" where
  "evaluateRoomStatus slot1 slot2 =
     (if status slot1 = Missing \<or> status slot2 = Missing then
        \<lparr>room_status = Missing, reason = Some ''slot_missing''\<rparr>
      else if status slot1 = Busy \<or> status slot2 = Busy then
        \<lparr>room_status = Busy, reason = Some ''occupied''\<rparr>
      else \<lparr>room_status = Free, reason = None\<rparr>)"

section \<open>Strings and numbers of the runtime\<close>

text \<open>
  The strings the backend computes with are ASCII: a \<open>char\<close> is one UTF-16 code unit.
  \<^verbatim>\<open>a < b\<close> on two strings compares them code unit by code unit, a proper prefix being
  smaller; \<^verbatim>\<open>a >= b\<close> is the negation of \<^verbatim>\<open>a < b\<close>.
\<close>

fun js_str_lt :: "string \<Rightarrow> string \<Rightarrow> bool" where
  "js_str_lt [] [] = False"
| "js_str_lt [] (y # ys) = True"
| "js_str_lt (x # xs) [] = False"
| "js_str_lt (x # xs) (y # ys) =
     (if (of_char x :: nat) < of_char y then True
      else if (of_char y :: nat) < of_char x then False
      else js_str_lt xs ys)"

definition js_str_ge :: "string \<Rightarrow> string \<Rightarrow> bool" where
  "js_str_ge a b = (\<not> js_str_lt a b)"

text \<open>The order of code units, for the lexicographic order of strings that the
  specification speaks of.\<close>

definition code_unit_less :: "(char \<times> char) set" where
  "code_unit_less = {(a, b). (of_char a :: nat) < of_char b}"

text \<open>The class \<^verbatim>\<open>\d\<close> of a regular expression without the unicode flag: \<^verbatim>\<open>[0-9]\<close>.\<close>

definition is_digit :: "char \<Rightarrow> bool" where
  "is_digit c = (c \<in> set ''0123456789'')"

definition digit_val :: "char \<Rightarrow> nat" where
  "digit_val c = of_char c - 48"

definition digit_char :: "nat \<Rightarrow> char" where
  "digit_char n = ''0123456789'' ! n"

fun digits_value :: "nat \<Rightarrow> string \<Rightarrow> nat" where
  "digits_value acc [] = acc"
| "digits_value acc (c # cs) = digits_value (10 * acc + digit_val c) cs"

text \<open>
  \<^verbatim>\<open>Number(s)\<close> on a string, modelled where it is a plain decimal numeral: a string of at
  most 15 decimal digits (the double is then exact), the empty string being 0. \<open>None\<close>
  stands for every other string (signs, spaces, fractions, exponents, other radices, and
  the strings that give NaN), which this model does not follow: the handlers only pass
  parts of texts they have matched against \<^verbatim>\<open>\d\<close> patterns, and of the literals of
  \<^verbatim>\<open>STARTS\<close>.
\<close>

definition js_Number :: "string \<Rightarrow> int option" where
  "js_Number s =
     (if length s \<le> 15 \<and> list_all is_digit s then Some (int (digits_value 0 s)) else None)"

fun digits_of :: "nat \<Rightarrow> string" where
  "digits_of n =
     (if n < 10 then [digit_char n] else digits_of (n div 10) @ [digit_char (n mod 10)])"

declare digits_of.simps [simp del]

text \<open>\<^verbatim>\<open>String(i)\<close> of an integer (below \<open>10\<^sup>2\<^sup>1\<close> in size, where no exponent is printed).\<close>

definition js_String :: "int \<Rightarrow> string" where
  "js_String i = (if i < 0 then CHR ''-'' # digits_of (nat (- i)) else digits_of (nat i))"

text \<open>\<^verbatim>\<open>s.padStart(n, c)\<close> with a one-character filler.\<close>

definition padStart :: "nat \<Rightarrow> char \<Rightarrow> string \<Rightarrow> string" where
  "padStart n c s = replicate (n - length s) c @ s"

text \<open>\<^verbatim>\<open>s.split(c)\<close> with a one-character separator.\<close>

fun split_on :: "char \<Rightarrow> string \<Rightarrow> string list" where
  "split_on c [] = [[]]"
| "split_on c (x # xs) =
     (if x = c then [] # split_on c xs
      else (case split_on c xs of [] \<Rightarrow> [[x]] | p # ps \<Rightarrow> (x # p) # ps))"

text \<open>
  \<^verbatim>\<open>a % b\<close> on integers: the remainder has the sign of the dividend (a zero remainder
  of a negative dividend is the double \<open>-0\<close>, which prints and compares as \<open>0\<close>). The
  operation is exact on doubles.
\<close>

definition js_rem :: "int \<Rightarrow> int \<Rightarrow> int" where
  "js_rem a b = sgn a * (\<bar>a\<bar> mod \<bar>b\<bar>)"

text \<open>
  A Number is a double. An integer is a double when it has at most 53 significant bits;
  the sum and the product of two doubles are the exact result rounded to the nearest
  double, a tie going to the even significand. \<open>nearest_double\<close> is that rounding on
  integers; a result of more than 1024 bits, that is of size \<open>2\<^sup>1\<^sup>0\<^sup>2\<^sup>4\<close> or more, stands
  for an infinity.
\<close>

function bit_length :: "int \<Rightarrow> nat" where
  "bit_length a = (if a \<le> 0 then 0 else Suc (bit_length (a div 2)))"
  by pat_completeness auto

termination
  by (relation "measure nat") auto

declare bit_length.simps [simp del]

definition nearest_double :: "int \<Rightarrow> int" where
  "nearest_double i =
     (let a = \<bar>i\<bar>;
          e = bit_length a - 53;
          q = a div 2 ^ e;
          r = a mod 2 ^ e;
          q' = (if 2 ^ e < 2 * r \<or> (2 * r = 2 ^ e \<and> q mod 2 = 1) then q + 1 else q)
      in sgn i * (q' * 2 ^ e))"

definition finite_double :: "int \<Rightarrow> bool" where
  "finite_double i = (bit_length \<bar>i\<bar> \<le> 1024)"

text \<open>
  \<^verbatim>\<open>const SLOT_OFFSET_MINUTES = Number(process.env.SLOT_OFFSET_MINUTES || 0);\<close>

  The offset is whatever Number the environment gives. \<open>Whole i\<close> is the double nearest
  to the integer \<open>i\<close>; \<open>Half i\<close> is the Number \<open>i + 0.5\<close>; \<open>Not_finite\<close> is one of
  \<^verbatim>\<open>NaN\<close>, \<^verbatim>\<open>Infinity\<close> and \<^verbatim>\<open>-Infinity\<close>; \<open>Other\<close> is every other Number, a fraction whose
  arithmetic and printing this model does not follow.
\<close>

datatype offset = Whole int | Half int | Other | Not_finite

text \<open>
  \<^verbatim>\<open>60 + SLOT_OFFSET_MINUTES\<close>. The sum of 60 and \<open>i + 0.5\<close> is exact when twice the sum
  has at most 53 bits.
\<close>

fun sixty_plus :: "offset \<Rightarrow> offset" where
  "sixty_plus (Whole i) =
     (let s = nearest_double (60 + nearest_double i)
      in if finite_double s then Whole s else Not_finite)"
| "sixty_plus (Half i) = (if bit_length \<bar>2 * (60 + i) + 1\<bar> \<le> 53 then Half (60 + i) else Other)"
| "sixty_plus Other = Other"
| "sixty_plus Not_finite = Not_finite"

text \<open>\<^verbatim>\<open>String(x)\<close> of the Number \<open>x = k / 2\<close> for an odd \<open>k\<close>: the digits of the integral part,
  then \<^verbatim>\<open>.5\<close>.\<close>

definition js_String_half :: "int \<Rightarrow> string" where
  "js_String_half k =
     (if k < 0 then ''-'' else []) @ digits_of (nat (\<bar>k\<bar> div 2)) @ ''.5''"

section \<open>Calendar and slot model\<close>

datatype day_band = Day | Night

text \<open>
  \<^verbatim>\<open>
  function getDayBand(startHHMM) {
    return startHHMM >= "08:00" && startHHMM < "16:00" ? "day" : "night";
  }
  \<close>
\<close>

definition getDayBand :: "string \<Rightarrow> day_band" where
  "getDayBand startHHMM =
     (if js_str_ge startHHMM ''08:00'' \<and> js_str_lt startHHMM ''16:00'' then Day else Night)"

text \<open>
  \<^verbatim>\<open>
  function shiftMinutes(hhmm, delta) {
    const [h, m] = hhmm.split(":").map(Number);
    const total = (h * 60 + m + delta + 1440) % 1440;
    const hh = Math.floor(total / 60);
    const mm = total % 60;
    return `${String(hh).padStart(2, "0")}:${String(mm).padStart(2, "0")}`;
  }
  \<close>
  With a whole \<open>delta\<close> every intermediate result is a whole double: the product and the
  three sums are rounded, the remainders are exact, and \<^verbatim>\<open>Math.floor(total / 60)\<close> is
  the integer quotient, \<open>total\<close> being below 1440 in size. A sum that is not finite leaves
  \<^verbatim>\<open>NaN\<close> for \<open>total\<close>, \<open>hh\<close> and \<open>mm\<close>, printed \<^verbatim>\<open>NaN\<close>.

  With \<open>delta = d + 0.5\<close> the model computes in half minutes, as long as every intermediate
  result is exact (twice the sum of the sizes has at most 53 bits): \<open>total\<close> and \<open>mm\<close> are
  then odd numbers of half minutes.

  \<open>None\<close>: the text is outside the strings \<open>js_Number\<close> follows, or \<open>delta\<close> is a fraction
  that the model does not follow.
\<close>

definition shiftMinutes :: "string \<Rightarrow> offset \<Rightarrow> string option" where
  "shiftMinutes hhmm delta =
     (case map js_Number (split_on CHR '':'' hhmm) of
        Some h # Some m # _ \<Rightarrow>
          (case delta of
             Other \<Rightarrow> None
           | Not_finite \<Rightarrow> Some ''NaN:NaN''
           | Whole d \<Rightarrow>
               (let sum = nearest_double (nearest_double (nearest_double (nearest_double (h * 60) + m)
                            + nearest_double d) + 1440)
                in if finite_double sum
                   then
                     (let total = js_rem sum 1440;
                          hh = total div 60;
                          mm = js_rem total 60
                      in Some (padStart 2 CHR ''0'' (js_String hh) @ '':''
                               @ padStart 2 CHR ''0'' (js_String mm)))
                   else Some ''NaN:NaN'')
           | Half d \<Rightarrow>
               (if bit_length (2 * (h * 60 + m) + \<bar>2 * d + 1\<bar> + 2880) \<le> 53
                then
                  (let total = js_rem (2 * (h * 60 + m) + (2 * d + 1) + 2880) 2880;
                       hh = total div 120;
                       mm = js_rem total 120
                   in Some (padStart 2 CHR ''0'' (js_String hh) @ '':''
                            @ padStart 2 CHR ''0'' (js_String_half mm)))
                else None))
      | _ \<Rightarrow> None)"

text \<open>
  \<^verbatim>\<open>
  function slotTime1(startHHMM) { return shiftMinutes(startHHMM, SLOT_OFFSET_MINUTES); }
  function slotTime2(startHHMM) { return shiftMinutes(startHHMM, 60 + SLOT_OFFSET_MINUTES); }
  \<close>
  The global \<^verbatim>\<open>SLOT_OFFSET_MINUTES\<close> is the first argument.
\<close>

definition slotTime1 :: "offset \<Rightarrow> string \<Rightarrow> string option" where
  "slotTime1 SLOT_OFFSET_MINUTES startHHMM = shiftMinutes startHHMM SLOT_OFFSET_MINUTES"

definition slotTime2 :: "offset \<Rightarrow> string \<Rightarrow> string option" where
  "slotTime2 SLOT_OFFSET_MINUTES startHHMM =
     shiftMinutes startHHMM (sixty_plus SLOT_OFFSET_MINUTES)"

text \<open>
  The label \<^verbatim>\<open>HH:MM\<close> of hour \<open>h\<close> and minute \<open>m\<close>, both below 100: two zero-padded
  digits each. Every text of the shape \<^verbatim>\<open>\d\d:\d\d\<close> is such a label.
\<close>

definition hhmm :: "nat \<Rightarrow> nat \<Rightarrow> string" where
  "hhmm h m =
     [digit_char (h div 10), digit_char (h mod 10), CHR '':'',
      digit_char (m div 10), digit_char (m mod 10)]"

section \<open>The runtime's dates\<close>

text \<open>
  \<^verbatim>\<open>addDaysIso\<close> and \<^verbatim>\<open>getDayType\<close> compute with \<^verbatim>\<open>Date\<close>. A time value is a number of
  milliseconds since 1970-01-01T00:00Z; the functions below are those of the language
  definition under their names there (proleptic Gregorian calendar, UTC).
\<close>

definition msPerDay :: int where
  "msPerDay = 86400000"

definition DayNumber :: "int \<Rightarrow> int" where
  "DayNumber t = t div msPerDay"

definition TimeWithinDay :: "int \<Rightarrow> int" where
  "TimeWithinDay t = t mod msPerDay"

definition DaysInYear :: "int \<Rightarrow> int" where
  "DaysInYear y =
     (if y mod 4 \<noteq> 0 then 365
      else if y mod 100 \<noteq> 0 then 366
      else if y mod 400 \<noteq> 0 then 365
      else 366)"

definition DayFromYear :: "int \<Rightarrow> int" where
  "DayFromYear y =
     365 * (y - 1970) + (y - 1969) div 4 - (y - 1901) div 100 + (y - 1601) div 400"

text \<open>
  \<open>YearFromTime t\<close> is the largest year \<open>y\<close> with \<open>DayFromYear y \<le> DayNumber t\<close>. It is
  found by stepping down from a year that is not too small; a year has 365 or 366 days,
  which bounds the search on both sides.
\<close>

primrec year_search :: "nat \<Rightarrow> int \<Rightarrow> int \<Rightarrow> int" where
  "year_search 0 y dn = y"
| "year_search (Suc k) y dn = (if DayFromYear y \<le> dn then y else year_search k (y - 1) dn)"

definition YearFromDay :: "int \<Rightarrow> int" where
  "YearFromDay dn =
     (let hi = 1970 + (if 0 \<le> dn then dn div 365 else dn div 366);
          lo = 1970 + (if 0 \<le> dn then dn div 366 else dn div 365)
      in year_search (nat (hi - lo)) hi dn)"

definition YearFromTime :: "int \<Rightarrow> int" where
  "YearFromTime t = YearFromDay (DayNumber t)"

definition InLeapYear :: "int \<Rightarrow> int" where
  "InLeapYear t = (if DaysInYear (YearFromTime t) = 366 then 1 else 0)"

definition DayWithinYear :: "int \<Rightarrow> int" where
  "DayWithinYear t = DayNumber t - DayFromYear (YearFromTime t)"

definition MonthFromTime :: "int \<Rightarrow> int" where
  "MonthFromTime t =
     (let d = DayWithinYear t; l = InLeapYear t
      in if d < 31 then 0
         else if d < 59 + l then 1
         else if d < 90 + l then 2
         else if d < 120 + l then 3
         else if d < 151 + l then 4
         else if d < 181 + l then 5
         else if d < 212 + l then 6
         else if d < 243 + l then 7
         else if d < 273 + l then 8
         else if d < 304 + l then 9
         else if d < 334 + l then 10
         else 11)"

text \<open>The day of the year on which month \<open>mn\<close> (0 to 11) starts; \<open>l\<close> is 1 in a leap year.\<close>

definition month_start :: "int \<Rightarrow> int \<Rightarrow> int" where
  "month_start l mn =
     [0, 31, 59, 90, 120, 151, 181, 212, 243, 273, 304, 334] ! nat mn
       + (if 2 \<le> mn then l else 0)"

definition DateFromTime :: "int \<Rightarrow> int" where
  "DateFromTime t = DayWithinYear t - month_start (InLeapYear t) (MonthFromTime t) + 1"

definition WeekDay :: "int \<Rightarrow> int" where
  "WeekDay t = (DayNumber t + 4) mod 7"

definition MakeTime :: "int \<Rightarrow> int \<Rightarrow> int \<Rightarrow> int \<Rightarrow> int" where
  "MakeTime hour minute sec ms = hour * 3600000 + minute * 60000 + sec * 1000 + ms"

definition MakeDay :: "int \<Rightarrow> int \<Rightarrow> int \<Rightarrow> int" where
  "MakeDay year month date =
     (let ym = year + month div 12; mn = month mod 12
      in DayFromYear ym + month_start (if DaysInYear ym = 366 then 1 else 0) mn + date - 1)"

definition MakeDate :: "int \<Rightarrow> int \<Rightarrow> int" where
  "MakeDate day time = day * msPerDay + time"

text \<open>A time value beyond \<open>8.64 \<times> 10\<^sup>1\<^sup>5\<close> is no date (\<open>None\<close>).\<close>

definition TimeClip :: "int \<Rightarrow> int option" where
  "TimeClip t = (if \<bar>t\<bar> \<le> 8640000000000000 then Some t else None)"

text \<open>\<^verbatim>\<open>Date.UTC(year, month, date, hours, minutes, seconds)\<close>: a year from 0 to 99 means 1900 + year.\<close>

definition Date_UTC :: "int \<Rightarrow> int \<Rightarrow> int \<Rightarrow> int \<Rightarrow> int \<Rightarrow> int \<Rightarrow> int option" where
  "Date_UTC year month date hours minutes seconds =
     (let yr = (if 0 \<le> year \<and> year \<le> 99 then 1900 + year else year)
      in TimeClip (MakeDate (MakeDay yr month date) (MakeTime hours minutes seconds 0)))"

text \<open>\<^verbatim>\<open>dt.setUTCDate(date)\<close>, as the new time value of \<open>dt\<close>.\<close>

definition setUTCDate :: "int \<Rightarrow> int \<Rightarrow> int option" where
  "setUTCDate t date =
     TimeClip (MakeDate (MakeDay (YearFromTime t) (MonthFromTime t) date) (TimeWithinDay t))"

text \<open>
  \<^verbatim>\<open>isoDate.split("-").map(Number)\<close>, destructured into three numbers. \<open>None\<close>: fewer than
  three parts, or a part outside the strings \<open>js_Number\<close> follows.
\<close>

definition parse_ymd :: "string \<Rightarrow> (int \<times> int \<times> int) option" where
  "parse_ymd isoDate =
     (case map js_Number (split_on CHR ''-'' isoDate) of
        Some y # Some m # Some d # _ \<Rightarrow> Some (y, m, d)
      | _ \<Rightarrow> None)"

text \<open>
  \<^verbatim>\<open>
  function addDaysIso(isoDate, deltaDays) {
    const [y, m, d] = isoDate.split("-").map(Number);
    const dt = new Date(Date.UTC(y, m - 1, d, 12, 0, 0));
    dt.setUTCDate(dt.getUTCDate() + deltaDays);
    return `${dt.getUTCFullYear()}-${String(dt.getUTCMonth() + 1).padStart(2, "0")}-${
      String(dt.getUTCDate()).padStart(2, "0")}`;
  }
  \<close>
\<close>

definition addDaysIso :: "string \<Rightarrow> int \<Rightarrow> string option" where
  "addDaysIso isoDate deltaDays =
     (case parse_ymd isoDate of
        None \<Rightarrow> None
      | Some (y, m, d) \<Rightarrow>
          (case Date_UTC y (m - 1) d 12 0 0 of
             None \<Rightarrow> None
           | Some dt0 \<Rightarrow>
               (case setUTCDate dt0 (DateFromTime dt0 + deltaDays) of
                  None \<Rightarrow> None
                | Some dt \<Rightarrow>
                    Some (js_String (YearFromTime dt) @ ''-''
                          @ padStart 2 CHR ''0'' (js_String (MonthFromTime dt + 1)) @ ''-''
                          @ padStart 2 CHR ''0'' (js_String (DateFromTime dt))))))"

text \<open>
  \<^verbatim>\<open>
  function realDateForStart(uiDateIso, startHHMM) {
    const hh = Number(startHHMM.slice(0, 2));
    return hh < 6 ? addDaysIso(uiDateIso, -1) : uiDateIso;
  }
  \<close>
\<close>

definition realDateForStart :: "string \<Rightarrow> string \<Rightarrow> string option" where
  "realDateForStart uiDateIso startHHMM =
     (case js_Number (take 2 startHHMM) of
        None \<Rightarrow> None
      | Some hh \<Rightarrow> if hh < 6 then addDaysIso uiDateIso (- 1) else Some uiDateIso)"

datatype day_type = Weekend | Weekday

text \<open>
  \<^verbatim>\<open>
  function getDayType(dateIso) {
    const [y, m, d] = dateIso.split("-").map(Number);
    const dt = new Date(Date.UTC(y, m - 1, d, 12, 0, 0));
    const dow = dt.getUTCDay(); // 0=Sun..6=Sat
    const isWeekend = dow === 5 || dow === 6 || dow === 0;
    return isWeekend ? "weekend" : "weekday";
  }
  \<close>
\<close>

definition getDayType :: "string \<Rightarrow> day_type option" where
  "getDayType dateIso =
     (case parse_ymd dateIso of
        None \<Rightarrow> None
      | Some (y, m, d) \<Rightarrow>
          (case Date_UTC y (m - 1) d 12 0 0 of
             None \<Rightarrow> None
           | Some dt \<Rightarrow>
               (let dow = WeekDay dt;
                    isWeekend = (dow = 5 \<or> dow = 6 \<or> dow = 0)
                in Some (if isWeekend then Weekend else Weekday))))"

text \<open>
  The calendar as the specification speaks of it: a date is a year, a month and a day of
  the Gregorian calendar, written \<^verbatim>\<open>YYYY-MM-DD\<close>; the day before it is found without any
  day count.
\<close>

definition leap_year :: "nat \<Rightarrow> bool" where
  "leap_year y = (y mod 4 = 0 \<and> (y mod 100 \<noteq> 0 \<or> y mod 400 = 0))"

definition days_in_month :: "nat \<Rightarrow> nat \<Rightarrow> nat" where
  "days_in_month y m =
     (if m = 2 then (if leap_year y then 29 else 28)
      else if m = 4 \<or> m = 6 \<or> m = 9 \<or> m = 11 then 30
      else 31)"

definition valid_date :: "nat \<Rightarrow> nat \<Rightarrow> nat \<Rightarrow> bool" where
  "valid_date y m d = (1 \<le> m \<and> m \<le> 12 \<and> 1 \<le> d \<and> d \<le> days_in_month y m)"

definition prev_day :: "nat \<times> nat \<times> nat \<Rightarrow> nat \<times> nat \<times> nat" where
  "prev_day ymd =
     (case ymd of (y, m, d) \<Rightarrow>
        if 1 < d then (y, m, d - 1)
        else if 1 < m then (y, m - 1, days_in_month y (m - 1))
        else (y - 1, 12, 31))"

definition iso_date :: "nat \<times> nat \<times> nat \<Rightarrow> string" where
  "iso_date ymd =
     (case ymd of (y, m, d) \<Rightarrow>
        [digit_char (y div 1000), digit_char (y div 100 mod 10),
         digit_char (y div 10 mod 10), digit_char (y mod 10), CHR ''-'',
         digit_char (m div 10), digit_char (m mod 10), CHR ''-'',
         digit_char (d div 10), digit_char (d mod 10)])"

section \<open>Configuration and service resolution\<close>

text \<open>
  \<^verbatim>\<open>rooms_services.json\<close> as \<^verbatim>\<open>loadConfig\<close> returns it: the rooms, and the nested tables
  \<^verbatim>\<open>services.elite[dayType][band]\<close> and \<^verbatim>\<open>services.comfort[group][dayType][band]\<close>, a
  missing member being \<open>None\<close>. Identifiers are strings.
\<close>

record room =
  id' :: string
  title :: string
  type' :: string
  group' :: string

record config =
  rooms :: "room list"
  elite_services :: "day_type \<Rightarrow> day_band \<Rightarrow> string option"
  comfort_services :: "string \<Rightarrow> day_type \<Rightarrow> day_band \<Rightarrow> string option"

text \<open>The message of an error: a text, or the template
  \<^verbatim>\<open>Upstream result=false: ${error_message}\<close> around a value of the reply.\<close>

datatype message = Text string | Upstream_result_false jv

text \<open>A thrown \<^verbatim>\<open>Error\<close> with the members the handlers read: \<^verbatim>\<open>message\<close>, \<^verbatim>\<open>status\<close>,
  \<^verbatim>\<open>details\<close>.\<close>

record err =
  message :: message
  status' :: "nat option"
  details :: "jv option"

definition Error :: "string \<Rightarrow> err" where
  "Error msg = \<lparr>message = Text msg, status' = None, details = None\<rparr>"

text \<open>
  What a function that can throw gives: \<open>Some (Inr x)\<close> when it returns \<open>x\<close>,
  \<open>Some (Inl e)\<close> when it throws \<open>e\<close>, \<open>None\<close> when it left the strings \<open>js_Number\<close>
  follows.
\<close>

type_synonym 'a thrown = "(err + 'a) option"

text \<open>
  \<^verbatim>\<open>
  function splitRooms(rooms) {
    const comfort = rooms.filter((r) => r.type === "comfort");
    const elite = rooms.find((r) => r.type === "elite") || null;
    return { comfort, elite };
  }
  \<close>
\<close>

definition splitRooms :: "room list \<Rightarrow> room list \<times> room option" where
  "splitRooms rs =
     (filter (\<lambda>r. type' r = ''comfort'') rs, List.find (\<lambda>r. type' r = ''elite'') rs)"

definition dayType_name :: "day_type \<Rightarrow> string" where
  "dayType_name t = (case t of Weekend \<Rightarrow> ''weekend'' | Weekday \<Rightarrow> ''weekday'')"

definition band_name :: "day_band \<Rightarrow> string" where
  "band_name b = (case b of Day \<Rightarrow> ''day'' | Night \<Rightarrow> ''night'')"

text \<open>\<^verbatim>\<open>!id\<close> on an identifier of the table: it is missing or the empty string.\<close>

definition no_id :: "string option \<Rightarrow> bool" where
  "no_id i = (i = None \<or> i = Some [])"

text \<open>
  \<^verbatim>\<open>
  function pickEliteServiceId(config, realDateIso, startHHMM) {
    const dayType = getDayType(realDateIso);
    const band = getDayBand(startHHMM);
    const id = config.services?.elite?.[dayType]?.[band];
    if (!id) throw new Error(`Missing elite service_id for ${dayType}/${band}`);
    return id;
  }
  \<close>
\<close>

definition pickEliteServiceId :: "config \<Rightarrow> string \<Rightarrow> string \<Rightarrow> string thrown" where
  "pickEliteServiceId config realDateIso startHHMM =
     (case getDayType realDateIso of
        None \<Rightarrow> None
      | Some dayType \<Rightarrow>
          (let band = getDayBand startHHMM;
               i = elite_services config dayType band
           in if no_id i then
                Some (Inl (Error (''Missing elite service_id for '' @ dayType_name dayType
                                  @ ''/'' @ band_name band)))
              else Some (Inr (the i))))"

text \<open>
  \<^verbatim>\<open>
  function pickComfortServiceId(config, group, realDateIso, startHHMM) {
    const dayType = getDayType(realDateIso);
    const band = getDayBand(startHHMM);
    const id = config.services?.comfort?.[group]?.[dayType]?.[band];
    if (!id) throw new Error(`Missing comfort service_id for ${group}/${dayType}/${band}`);
    return id;
  }
  \<close>
\<close>

definition pickComfortServiceId :: "config \<Rightarrow> string \<Rightarrow> string \<Rightarrow> string \<Rightarrow> string thrown" where
  "pickComfortServiceId config grp realDateIso startHHMM =
     (case getDayType realDateIso of
        None \<Rightarrow> None
      | Some dayType \<Rightarrow>
          (let band = getDayBand startHHMM;
               i = comfort_services config grp dayType band
           in if no_id i then
                Some (Inl (Error (''Missing comfort service_id for '' @ grp @ ''/''
                                  @ dayType_name dayType @ ''/'' @ band_name band)))
              else Some (Inr (the i))))"

section \<open>Upstream fetch\<close>

text \<open>
  The \<^verbatim>\<open>Map\<close> \<^verbatim>\<open>byKey\<close> from \<^verbatim>\<open>"YYYY-MM-DD|HH:MM"\<close> to the record of that hour.
\<close>

type_synonym index = "string \<Rightarrow> jv option"

text \<open>
  What \<^verbatim>\<open>fetch\<close> gives for one query: it rejects (a network failure, with the message of
  the error), or there is a response, of which \<^verbatim>\<open>apiGet\<close> and
  \<^verbatim>\<open>fetchIndexedRentalTimes\<close> read \<^verbatim>\<open>resp.ok\<close>, \<^verbatim>\<open>resp.status\<close>, the text of the body
  and \<open>body_json\<close>, the value of \<^verbatim>\<open>text ? JSON.parse(text) : null\<close> (\<open>JNull\<close> too when the
  parser throws). \<open>records\<close> is the \<^verbatim>\<open>Map\<close> that the loop of \<^verbatim>\<open>fetchIndexedRentalTimes\<close>
  builds from \<^verbatim>\<open>body_json.data\<close>; the parsing of the \<^verbatim>\<open>date_time\<close> texts is not followed
  here, so the index is given with the response.
\<close>

record resp =
  ok :: bool
  http_status :: nat
  body_text :: string
  body_json :: jv
  records :: index

datatype fetched = Rejected string | Response resp

text \<open>
  \<^verbatim>\<open>
  function extractUpstreamError(json) {
    if (!json || typeof json !== "object") return null;
    if (json.result === false) {
      return { result: json.result, error: json.error ?? null,
               error_message: json.error_message ?? "Upstream returned result=false" };
    }
    return null;
  }
  \<close>
  Of a parsed value only an object can have the member \<^verbatim>\<open>result\<close>.
\<close>

definition nullish_or :: "jv option \<Rightarrow> jv \<Rightarrow> jv" where
  "nullish_or v d = (case v of None \<Rightarrow> d | Some JNull \<Rightarrow> d | Some x \<Rightarrow> x)"

definition extractUpstreamError :: "jv \<Rightarrow> jv option" where
  "extractUpstreamError json =
     (if \<not> truthy json then None
      else if getprop json ''result'' = Some (JBool False) then
        Some (JObj [(''result'', JBool False),
                    (''error'', nullish_or (getprop json ''error'') JNull),
                    (''error_message'',
                       nullish_or (getprop json ''error_message'')
                         (JStr ''Upstream returned result=false''))])
      else None)"

text \<open>
  \<^verbatim>\<open>
  async function apiGet(pathname, query) {
    ...
    const resp = await fetch(url, ...);
    const text = await resp.text();
    let json = null;
    try { json = text ? JSON.parse(text) : null; } catch { json = null; }
    if (!resp.ok) {
      const err = new Error(`Upstream error ${resp.status}`);
      err.status = resp.status;
      err.details = json || { raw: text };
      throw err;
    }
    const upstreamError = extractUpstreamError(json);
    if (upstreamError) {
      const err = new Error(`Upstream result=false: ${upstreamError.error_message}`);
      err.status = 502;
      err.details = upstreamError;
      throw err;
    }
    return json;
  }
  \<close>
  The environment variables of the request (\<^verbatim>\<open>API_KEY\<close>, \<^verbatim>\<open>API_BASE_URL\<close>, the
  credentials) are taken as set.
\<close>

definition apiGet :: "fetched \<Rightarrow> err + jv" where
  "apiGet f =
     (case f of
        Rejected msg \<Rightarrow> Inl (Error msg)
      | Response r \<Rightarrow>
          if \<not> ok r then
            Inl \<lparr>message = Text (''Upstream error '' @ js_String (int (http_status r))),
                 status' = Some (http_status r),
                 details = Some (if truthy (body_json r) then body_json r
                                 else JObj [(''raw'', JStr (body_text r))])\<rparr>
          else
            (case extractUpstreamError (body_json r) of
               Some upstreamError \<Rightarrow>
                 Inl \<lparr>message = Upstream_result_false
                                   (nullish_or (getprop upstreamError ''error_message'') JNull),
                      status' = Some 502,
                      details = Some upstreamError\<rparr>
             | None \<Rightarrow> Inr (body_json r)))"

text \<open>
  \<^verbatim>\<open>fetchIndexedRentalTimes\<close>: \<^verbatim>\<open>apiGet\<close>, then the index of the records (building it
  throws nothing).
\<close>

definition fetchIndexedRentalTimes :: "fetched \<Rightarrow> err + index" where
  "fetchIndexedRentalTimes f =
     (case apiGet f of
        Inl e \<Rightarrow> Inl e
      | Inr json \<Rightarrow> (case f of Response r \<Rightarrow> Inr (records r) | Rejected _ \<Rightarrow> Inr (\<lambda>k. None)))"

section \<open>The grid handlers\<close>

definition STARTS :: "string list" where
  "STARTS = [''06:00'', ''08:00'', ''10:00'', ''12:00'', ''14:00'', ''16:00'',
             ''18:00'', ''20:00'', ''22:00'', ''00:00'', ''02:00'', ''04:00'']"

text \<open>\<^verbatim>\<open>/^\d{4}-\d{2}-\d{2}$/.test(s)\<close>\<close>

definition isIsoDate :: "string \<Rightarrow> bool" where
  "isIsoDate s =
     (length s = 10 \<and> list_all is_digit (take 4 s) \<and> s ! 4 = CHR ''-''
      \<and> list_all is_digit (take 2 (drop 5 s)) \<and> s ! 7 = CHR ''-''
      \<and> list_all is_digit (drop 8 s))"

text \<open>
  A JavaScript \<^verbatim>\<open>Map\<close> (and an object with string keys that are no array indices) keeps
  its keys in the order of their first insertion; \<^verbatim>\<open>set\<close> on a key that is there replaces
  the value in place.
\<close>

fun map_set :: "('k \<times> 'v) list \<Rightarrow> 'k \<Rightarrow> 'v \<Rightarrow> ('k \<times> 'v) list" where
  "map_set [] k v = [(k, v)]"
| "map_set ((k', v') # kvs) k v =
     (if k' = k then (k, v) # kvs else (k', v') # map_set kvs k v)"

record pair =
  service_id :: string
  room_id :: string

record meta = pair +
  start :: string
  realDate :: string

record query = pair +
  club_id :: string
  start_date :: string
  end_date :: string

text \<open>The key \<^verbatim>\<open>`${service_id}|${room_id}`\<close> of the maps \<^verbatim>\<open>pairs\<close> and \<^verbatim>\<open>idxByPair\<close>.\<close>

definition pair_key :: "string \<Rightarrow> string \<Rightarrow> string" where
  "pair_key sid rid = sid @ ''|'' @ rid"

text \<open>
  The process and its surroundings during one request: the offset, what \<^verbatim>\<open>loadConfig\<close>
  gives (it throws when the file is unreadable or malformed), what the upstream answers to
  each query, and the moment each answer arrives.
\<close>

record env =
  SLOT_OFFSET_MINUTES :: offset
  loadConfig :: "err + config"
  upstream :: "query \<Rightarrow> fetched"
  arrival :: "query \<Rightarrow> nat"

text \<open>
  \<^verbatim>\<open>
  const idxByPair = new Map();
  await Promise.all(
    Array.from(pairs.values()).map(async (p) => {
      const byKey = await fetchIndexedRentalTimes({ club_id, service_id: p.service_id,
                                                    room_id: p.room_id, start_date, end_date });
      idxByPair.set(`${p.service_id}|${p.room_id}`, byKey);
    }));
  \<close>
  \<open>queries_issued\<close> are the calls of \<^verbatim>\<open>fetchIndexedRentalTimes\<close>, one for each value of
  \<^verbatim>\<open>pairs\<close>. \<^verbatim>\<open>Promise.all\<close> rejects with the rejection that comes first, so the
  \<^verbatim>\<open>await\<close> throws that error; when no fetch fails, every index is in \<^verbatim>\<open>idxByPair\<close>
  under the key of its pair.
\<close>

definition queries_issued ::
  "string \<Rightarrow> string \<Rightarrow> string \<Rightarrow> (string \<times> pair) list \<Rightarrow> query list" where
  "queries_issued club sd ed pairs =
     map (\<lambda>p. \<lparr>service_id = service_id p, room_id = room_id p,
                club_id = club, start_date = sd, end_date = ed\<rparr>) (map snd pairs)"

fun first_rejection :: "(query \<Rightarrow> nat) \<Rightarrow> (query \<times> (err + index)) list \<Rightarrow> (query \<times> err) option" where
  "first_rejection arr [] = None"
| "first_rejection arr ((q, r) # rest) =
     (case r of
        Inr _ \<Rightarrow> first_rejection arr rest
      | Inl e \<Rightarrow>
          (case first_rejection arr rest of
             None \<Rightarrow> Some (q, e)
           | Some (q', e') \<Rightarrow> if arr q \<le> arr q' then Some (q, e) else Some (q', e')))"

fun fulfilled :: "(query \<times> (err + index)) list \<Rightarrow> (string \<times> index) list \<Rightarrow> (string \<times> index) list" where
  "fulfilled [] idxByPair = idxByPair"
| "fulfilled ((q, r) # rest) idxByPair =
     (case r of
        Inr byKey \<Rightarrow> fulfilled rest (map_set idxByPair (pair_key (service_id q) (room_id q)) byKey)
      | Inl _ \<Rightarrow> fulfilled rest idxByPair)"

definition fetch_all ::
  "env \<Rightarrow> string \<Rightarrow> string \<Rightarrow> string \<Rightarrow> (string \<times> pair) list \<Rightarrow> err + (string \<times> index) list" where
  "fetch_all e club sd ed pairs =
     (let results = map (\<lambda>q. (q, fetchIndexedRentalTimes (upstream e q)))
                        (queries_issued club sd ed pairs)
      in case first_rejection (arrival e) results of
           Some (q, er) \<Rightarrow> Inl er
         | None \<Rightarrow> Inr (fulfilled results []))"

text \<open>\<^verbatim>\<open>byKey ? byKey.get(`${date}|${time}`) : null\<close>\<close>

definition probe_at :: "index option \<Rightarrow> string \<Rightarrow> string \<Rightarrow> probe" where
  "probe_at byKey date time =
     (case byKey of None \<Rightarrow> None | Some m \<Rightarrow> m (date @ ''|'' @ time))"

text \<open>The responses: \<^verbatim>\<open>res.status(code).json(body)\<close>. Of the body of a grid the constant
  members \<^verbatim>\<open>result\<close>, \<^verbatim>\<open>service_name\<close> and \<^verbatim>\<open>slot_minutes\<close> are left out.\<close>

record elite_cell = pair +
  free :: nat
  price :: "jsnum option"
  elite_total_count :: nat
  elite_reason :: "string option"

record comfort_cell =
  free_count :: nat
  busy_count :: nat
  total_count :: nat
  min_price :: "jsnum option"

record 'cell payload =
  kind :: string
  payload_club_id :: string
  date :: string
  slot_offset_minutes :: offset
  upstream_range :: "string \<times> string"
  grid :: "(string \<times> 'cell) list"

datatype body =
    Error_body message "jv option"
  | Elite_body "elite_cell payload"
  | Comfort_body "comfort_cell payload"

record response =
  code :: nat
  body :: body

record request =
  req_club_id :: string
  req_date :: string

text \<open>
  \<^verbatim>\<open>
  } catch (e) {
    const status = e.status || 500;
    return res.status(status).json({ error: e.message || "Backend error",
                                     upstream: e.details || undefined });
  }
  \<close>
\<close>

definition error_response :: "err \<Rightarrow> response" where
  "error_response e =
     \<lparr>code = (case status' e of None \<Rightarrow> 500 | Some n \<Rightarrow> if n = 0 then 500 else n),
      body = Error_body
        (if message e = Text [] then Text ''Backend error'' else message e)
        (case details e of None \<Rightarrow> None | Some v \<Rightarrow> if truthy v then Some v else None)\<rparr>"

subsection \<open>Exclusive category\<close>

text \<open>
  \<^verbatim>\<open>
  const meta = [];
  const pairs = new Map();
  for (const start of STARTS) {
    const realDate = realDateForStart(uiDate, start);
    const sid = pickEliteServiceId(config, realDate, start);
    const key = `${sid}|${elite.id}`;
    pairs.set(key, { service_id: sid, room_id: elite.id });
    meta.push({ start, realDate, service_id: sid, room_id: elite.id });
  }
  \<close>
  The last argument holds \<^verbatim>\<open>meta\<close> and \<^verbatim>\<open>pairs\<close>.
\<close>

fun elite_resolve ::
  "config \<Rightarrow> string \<Rightarrow> string \<Rightarrow> string list \<Rightarrow> meta list \<times> (string \<times> pair) list
     \<Rightarrow> (meta list \<times> (string \<times> pair) list) thrown" where
  "elite_resolve config elite_id uiDate [] acc = Some (Inr acc)"
| "elite_resolve config elite_id uiDate (st # rest) acc =
     (case realDateForStart uiDate st of
        None \<Rightarrow> None
      | Some rd \<Rightarrow>
          (case pickEliteServiceId config rd st of
             None \<Rightarrow> None
           | Some (Inl e) \<Rightarrow> Some (Inl e)
           | Some (Inr sid) \<Rightarrow>
               elite_resolve config elite_id uiDate rest
                 (fst acc @ [\<lparr>service_id = sid, room_id = elite_id, start = st, realDate = rd\<rparr>],
                  map_set (snd acc) (pair_key sid elite_id)
                    \<lparr>service_id = sid, room_id = elite_id\<rparr>)))"

text \<open>
  \<^verbatim>\<open>
  for (const m of meta) {
    const t1 = slotTime1(m.start);
    const t2 = slotTime2(m.start);
    const byKey = idxByPair.get(`${m.service_id}|${m.room_id}`);
    const it1 = byKey ? byKey.get(`${m.realDate}|${t1}`) : null;
    const it2 = byKey ? byKey.get(`${m.realDate}|${t2}`) : null;
    const slot1 = slotInfo(it1, m.realDate, t1);
    const slot2 = slotInfo(it2, m.realDate, t2);
    const status = evaluateRoomStatus(slot1, slot2);
    const free = status.status === "free" ? 1 : 0;
    const price = pickPrice(it1, it2);
    grid[m.start] = { free, price, service_id: m.service_id, room_id: m.room_id,
                      total_count: 1, reason: status.reason };
  }
  \<close>
  \<open>elite_slot\<close> is the body of the loop, \<open>elite_probes\<close> are \<open>it1\<close> and \<open>it2\<close>.
\<close>

definition elite_probes :: "(string \<times> index) list \<Rightarrow> meta \<Rightarrow> string \<Rightarrow> string \<Rightarrow> probe \<times> probe" where
  "elite_probes idxByPair m t1 t2 =
     (let byKey = map_of idxByPair (pair_key (service_id m) (room_id m))
      in (probe_at byKey (realDate m) t1, probe_at byKey (realDate m) t2))"

definition elite_slot :: "offset \<Rightarrow> (string \<times> index) list \<Rightarrow> meta \<Rightarrow> elite_cell option" where
  "elite_slot off idxByPair m =
     (case slotTime1 off (start m) of
        None \<Rightarrow> None
      | Some t1 \<Rightarrow>
          (case slotTime2 off (start m) of
             None \<Rightarrow> None
           | Some t2 \<Rightarrow>
               (let its = elite_probes idxByPair m t1 t2;
                    slot1 = slotInfo (fst its) (realDate m) t1;
                    slot2 = slotInfo (snd its) (realDate m) t2;
                    st = evaluateRoomStatus slot1 slot2
                in Some \<lparr>service_id = service_id m, room_id = room_id m,
                         free = (if room_status st = Free then 1 else 0),
                         price = pickPrice (fst its) (snd its),
                         elite_total_count = 1,
                         elite_reason = reason st\<rparr>)))"

fun elite_grid ::
  "offset \<Rightarrow> (string \<times> index) list \<Rightarrow> meta list \<Rightarrow> (string \<times> elite_cell) list
     \<Rightarrow> (string \<times> elite_cell) list option" where
  "elite_grid off idxByPair [] g = Some g"
| "elite_grid off idxByPair (m # rest) g =
     (case elite_slot off idxByPair m of
        None \<Rightarrow> None
      | Some c \<Rightarrow> elite_grid off idxByPair rest (map_set g (start m) c))"

text \<open>
  \<^verbatim>\<open>app.get("/api/availability_grid_elite", ...)\<close>. \<open>req_club_id\<close> is
  \<^verbatim>\<open>req.query.club_id || process.env.DEFAULT_CLUB_ID\<close> (empty when neither is there),
  \<open>req_date\<close> is \<^verbatim>\<open>String(req.query.date)\<close>. \<open>elite_try\<close> is the \<^verbatim>\<open>try\<close> block.
\<close>

definition elite_try :: "env \<Rightarrow> string \<Rightarrow> string \<Rightarrow> string \<Rightarrow> string \<Rightarrow> response thrown" where
  "elite_try e club uiDate sd ed =
     (case loadConfig e of
        Inl er \<Rightarrow> Some (Inl er)
      | Inr config \<Rightarrow>
          (let elite = snd (splitRooms (rooms config))
           in if elite = None \<or> id' (the elite) = [] then
                Some (Inr \<lparr>code = 500,
                           body = Error_body (Text ''Elite room not found in rooms_services.json'') None\<rparr>)
              else
                (case elite_resolve config (id' (the elite)) uiDate STARTS ([], []) of
                   None \<Rightarrow> None
                 | Some (Inl er) \<Rightarrow> Some (Inl er)
                 | Some (Inr (meta, pairs)) \<Rightarrow>
                     (case fetch_all e club sd ed pairs of
                        Inl er \<Rightarrow> Some (Inl er)
                      | Inr idxByPair \<Rightarrow>
                          (case elite_grid (SLOT_OFFSET_MINUTES e) idxByPair meta [] of
                             None \<Rightarrow> None
                           | Some g \<Rightarrow>
                               Some (Inr \<lparr>code = 200,
                                 body = Elite_body
                                   \<lparr>kind = ''elite'', payload_club_id = club, date = uiDate,
                                    slot_offset_minutes = SLOT_OFFSET_MINUTES e,
                                    upstream_range = (sd, ed), grid = g\<rparr>\<rparr>))))))"

definition availability_grid_elite :: "env \<Rightarrow> request \<Rightarrow> response option" where
  "availability_grid_elite e req =
     (if req_club_id req = [] then
        Some \<lparr>code = 400, body = Error_body (Text ''Missing club_id'') None\<rparr>
      else if \<not> isIsoDate (req_date req) then
        Some \<lparr>code = 400, body = Error_body (Text ''Missing/invalid date (YYYY-MM-DD)'') None\<rparr>
      else
        (case addDaysIso (req_date req) (- 1) of
           None \<Rightarrow> None
         | Some sd \<Rightarrow>
             (case addDaysIso (req_date req) 1 of
                None \<Rightarrow> None
              | Some ed \<Rightarrow>
                  (case elite_try e (req_club_id req) (req_date req) sd ed of
                     None \<Rightarrow> None
                   | Some (Inl er) \<Rightarrow> Some (error_response er)
                   | Some (Inr r) \<Rightarrow> Some r))))"

subsection \<open>Pooled category\<close>

text \<open>
  \<^verbatim>\<open>
  for (const start of STARTS) {
    const realDate = realDateForStart(uiDate, start);
    for (const room of comfort) {
      const sid = pickComfortServiceId(config, room.group, realDate, start);
      const key = `${sid}|${room.id}`;
      pairs.set(key, { service_id: sid, room_id: room.id });
      meta.push({ start, realDate, service_id: sid, room_id: room.id });
    }
  }
  \<close>
\<close>

fun comfort_resolve_rooms ::
  "config \<Rightarrow> string \<Rightarrow> string \<Rightarrow> room list \<Rightarrow> meta list \<times> (string \<times> pair) list
     \<Rightarrow> (meta list \<times> (string \<times> pair) list) thrown" where
  "comfort_resolve_rooms config st rd [] acc = Some (Inr acc)"
| "comfort_resolve_rooms config st rd (r # rest) acc =
     (case pickComfortServiceId config (group' r) rd st of
        None \<Rightarrow> None
      | Some (Inl e) \<Rightarrow> Some (Inl e)
      | Some (Inr sid) \<Rightarrow>
          comfort_resolve_rooms config st rd rest
            (fst acc @ [\<lparr>service_id = sid, room_id = id' r, start = st, realDate = rd\<rparr>],
             map_set (snd acc) (pair_key sid (id' r)) \<lparr>service_id = sid, room_id = id' r\<rparr>))"

fun comfort_resolve ::
  "config \<Rightarrow> room list \<Rightarrow> string \<Rightarrow> string list \<Rightarrow> meta list \<times> (string \<times> pair) list
     \<Rightarrow> (meta list \<times> (string \<times> pair) list) thrown" where
  "comfort_resolve config comfort uiDate [] acc = Some (Inr acc)"
| "comfort_resolve config comfort uiDate (st # rest) acc =
     (case realDateForStart uiDate st of
        None \<Rightarrow> None
      | Some rd \<Rightarrow>
          (case comfort_resolve_rooms config st rd comfort acc of
             None \<Rightarrow> None
           | Some (Inl e) \<Rightarrow> Some (Inl e)
           | Some (Inr acc') \<Rightarrow> comfort_resolve config comfort uiDate rest acc'))"

text \<open>\<^verbatim>\<open>Math.min\<close> on two numbers that are not NaN.\<close>

fun js_min :: "jsnum \<Rightarrow> jsnum \<Rightarrow> jsnum" where
  "js_min NegInf _ = NegInf"
| "js_min _ NegInf = NegInf"
| "js_min PosInf b = b"
| "js_min a PosInf = a"
| "js_min (Finite a) (Finite b) = Finite (min a b)"

text \<open>
  \<^verbatim>\<open>
  for (const room of comfort) {
    const sid = pickComfortServiceId(config, room.group, realDate, start);
    const byKey = idxByPair.get(`${sid}|${room.id}`);
    const it1 = byKey ? byKey.get(`${realDate}|${t1}`) : null;
    const it2 = byKey ? byKey.get(`${realDate}|${t2}`) : null;
    const slot1 = slotInfo(it1, realDate, t1);
    const slot2 = slotInfo(it2, realDate, t2);
    const status = evaluateRoomStatus(slot1, slot2);
    if (status.status === "free") {
      free_count += 1;
      const price = pickPrice(it1, it2);
      if (price !== null)
        min_price = min_price === null ? price : Math.min(min_price, price);
    } else {
      busy_count += 1;
    }
  }
  \<close>
  \<open>room_probes\<close> are \<open>it1\<close> and \<open>it2\<close> of a room whose service is \<open>sid\<close>; \<open>room_verdict\<close> is
  \<open>status\<close>. The last argument holds \<^verbatim>\<open>free_count\<close>, \<^verbatim>\<open>busy_count\<close> and \<^verbatim>\<open>min_price\<close>.
\<close>

definition room_probes ::
  "(string \<times> index) list \<Rightarrow> string \<Rightarrow> room \<Rightarrow> string \<Rightarrow> string \<Rightarrow> string \<Rightarrow> probe \<times> probe" where
  "room_probes idxByPair sid r rd t1 t2 =
     (let byKey = map_of idxByPair (pair_key sid (id' r))
      in (probe_at byKey rd t1, probe_at byKey rd t2))"

definition room_verdict ::
  "(string \<times> index) list \<Rightarrow> string \<Rightarrow> room \<Rightarrow> string \<Rightarrow> string \<Rightarrow> string \<Rightarrow> room_status" where
  "room_verdict idxByPair sid r rd t1 t2 =
     (let its = room_probes idxByPair sid r rd t1 t2
      in evaluateRoomStatus (slotInfo (fst its) rd t1) (slotInfo (snd its) rd t2))"

text \<open>The verdict of a room in a slot: the room's service is resolved, then its two probes
  are evaluated; \<open>None\<close> when the service does not resolve.\<close>

definition verdict_in_slot ::
  "config \<Rightarrow> (string \<times> index) list \<Rightarrow> string \<Rightarrow> string \<Rightarrow> string \<Rightarrow> string \<Rightarrow> room
     \<Rightarrow> slot_status option" where
  "verdict_in_slot config idxByPair st rd t1 t2 r =
     (case pickComfortServiceId config (group' r) rd st of
        Some (Inr sid) \<Rightarrow> Some (room_status (room_verdict idxByPair sid r rd t1 t2))
      | _ \<Rightarrow> None)"

fun comfort_count ::
  "config \<Rightarrow> (string \<times> index) list \<Rightarrow> string \<Rightarrow> string \<Rightarrow> string \<Rightarrow> string \<Rightarrow> room list
     \<Rightarrow> nat \<times> nat \<times> jsnum option \<Rightarrow> (nat \<times> nat \<times> jsnum option) thrown" where
  "comfort_count config idxByPair st rd t1 t2 [] acc = Some (Inr acc)"
| "comfort_count config idxByPair st rd t1 t2 (r # rest) acc =
     (case pickComfortServiceId config (group' r) rd st of
        None \<Rightarrow> None
      | Some (Inl e) \<Rightarrow> Some (Inl e)
      | Some (Inr sid) \<Rightarrow>
          (case acc of (fc, bc, mp) \<Rightarrow>
             if room_status (room_verdict idxByPair sid r rd t1 t2) = Free then
               (let its = room_probes idxByPair sid r rd t1 t2;
                    p = pickPrice (fst its) (snd its)
                in comfort_count config idxByPair st rd t1 t2 rest
                     (fc + 1, bc,
                      (case p of
                         None \<Rightarrow> mp
                       | Some pr \<Rightarrow>
                           (case mp of None \<Rightarrow> Some pr | Some m \<Rightarrow> Some (js_min m pr)))))
             else
               comfort_count config idxByPair st rd t1 t2 rest (fc, bc + 1, mp)))"

text \<open>
  \<^verbatim>\<open>
  const grid = {};
  for (const start of STARTS) {
    const realDate = realDateForStart(uiDate, start);
    const t1 = slotTime1(start);
    const t2 = slotTime2(start);
    let free_count = 0; let busy_count = 0; let min_price = null;
    for (const room of comfort) { ... }
    grid[start] = { free_count, busy_count, total_count: comfort.length, min_price };
  }
  \<close>
  \<open>comfort_slot\<close> is the body of the outer loop: the cell of one slot.
\<close>

definition comfort_slot ::
  "offset \<Rightarrow> config \<Rightarrow> room list \<Rightarrow> (string \<times> index) list \<Rightarrow> string \<Rightarrow> string
     \<Rightarrow> comfort_cell thrown" where
  "comfort_slot off config comfort idxByPair uiDate st =
     (case realDateForStart uiDate st of
        None \<Rightarrow> None
      | Some rd \<Rightarrow>
          (case slotTime1 off st of
             None \<Rightarrow> None
           | Some t1 \<Rightarrow>
               (case slotTime2 off st of
                  None \<Rightarrow> None
                | Some t2 \<Rightarrow>
                    (case comfort_count config idxByPair st rd t1 t2 comfort (0, 0, None) of
                       None \<Rightarrow> None
                     | Some (Inl e) \<Rightarrow> Some (Inl e)
                     | Some (Inr (fc, bc, mp)) \<Rightarrow>
                         Some (Inr \<lparr>free_count = fc, busy_count = bc,
                                    total_count = length comfort, min_price = mp\<rparr>)))))"

fun comfort_grid ::
  "offset \<Rightarrow> config \<Rightarrow> room list \<Rightarrow> (string \<times> index) list \<Rightarrow> string \<Rightarrow> string list
     \<Rightarrow> (string \<times> comfort_cell) list \<Rightarrow> (string \<times> comfort_cell) list thrown" where
  "comfort_grid off config comfort idxByPair uiDate [] g = Some (Inr g)"
| "comfort_grid off config comfort idxByPair uiDate (st # rest) g =
     (case comfort_slot off config comfort idxByPair uiDate st of
        None \<Rightarrow> None
      | Some (Inl e) \<Rightarrow> Some (Inl e)
      | Some (Inr c) \<Rightarrow>
          comfort_grid off config comfort idxByPair uiDate rest (map_set g st c))"

text \<open>\<^verbatim>\<open>app.get("/api/availability_grid_comfort", ...)\<close>; \<open>comfort_try\<close> is the \<^verbatim>\<open>try\<close> block.\<close>

definition comfort_try :: "env \<Rightarrow> string \<Rightarrow> string \<Rightarrow> string \<Rightarrow> string \<Rightarrow> response thrown" where
  "comfort_try e club uiDate sd ed =
     (case loadConfig e of
        Inl er \<Rightarrow> Some (Inl er)
      | Inr config \<Rightarrow>
          (let comfort = fst (splitRooms (rooms config))
           in if length comfort = 0 then
                Some (Inr \<lparr>code = 500,
                           body = Error_body (Text ''Comfort rooms not found in rooms_services.json'') None\<rparr>)
              else
                (case comfort_resolve config comfort uiDate STARTS ([], []) of
                   None \<Rightarrow> None
                 | Some (Inl er) \<Rightarrow> Some (Inl er)
                 | Some (Inr (meta, pairs)) \<Rightarrow>
                     (case fetch_all e club sd ed pairs of
                        Inl er \<Rightarrow> Some (Inl er)
                      | Inr idxByPair \<Rightarrow>
                          (case comfort_grid (SLOT_OFFSET_MINUTES e) config comfort idxByPair
                                  uiDate STARTS [] of
                             None \<Rightarrow> None
                           | Some (Inl er) \<Rightarrow> Some (Inl er)
                           | Some (Inr g) \<Rightarrow>
                               Some (Inr \<lparr>code = 200,
                                 body = Comfort_body
                                   \<lparr>kind = ''comfort'', payload_club_id = club, date = uiDate,
                                    slot_offset_minutes = SLOT_OFFSET_MINUTES e,
                                    upstream_range = (sd, ed), grid = g\<rparr>\<rparr>))))))"

definition availability_grid_comfort :: "env \<Rightarrow> request \<Rightarrow> response option" where
  "availability_grid_comfort e req =
     (if req_club_id req = [] then
        Some \<lparr>code = 400, body = Error_body (Text ''Missing club_id'') None\<rparr>
      else if \<not> isIsoDate (req_date req) then
        Some \<lparr>code = 400, body = Error_body (Text ''Missing/invalid date (YYYY-MM-DD)'') None\<rparr>
      else
        (case addDaysIso (req_date req) (- 1) of
           None \<Rightarrow> None
         | Some sd \<Rightarrow>
             (case addDaysIso (req_date req) 1 of
                None \<Rightarrow> None
              | Some ed \<Rightarrow>
                  (case comfort_try e (req_club_id req) (req_date req) sd ed of
                     None \<Rightarrow> None
                   | Some (Inl er) \<Rightarrow> Some (error_response er)
                   | Some (Inr r) \<Rightarrow> Some r))))"

subsection \<open>Pairs, keys and queries\<close>

text \<open>
  Both handlers push one \<open>meta\<close> entry per resolved slot (and room) and set, in the \<^verbatim>\<open>Map\<close>
  \<^verbatim>\<open>pairs\<close>, the entry's pair under the joined key \<^verbatim>\<open>`${sid}|${room.id}`\<close>. \<open>pair_of\<close> is the pair
  of an entry, \<open>key_of\<close> the key of a pair, and \<open>pairs_built\<close> the \<^verbatim>\<open>Map\<close> after the entries of a
  list have been pushed in order. \<open>query_of\<close> is the upstream query a pair is fetched with.
\<close>

definition pair_of :: "meta \<Rightarrow> pair" where
  "pair_of m = \<lparr>service_id = service_id m, room_id = room_id m\<rparr>"

definition key_of :: "pair \<Rightarrow> string" where
  "key_of p = pair_key (service_id p) (room_id p)"

definition pairs_built :: "meta list \<Rightarrow> (string \<times> pair) list" where
  "pairs_built ms = foldl (\<lambda>ps m. map_set ps (key_of (pair_of m)) (pair_of m)) [] ms"

definition query_of :: "string \<Rightarrow> string \<Rightarrow> string \<Rightarrow> pair \<Rightarrow> query" where
  "query_of club sd ed p =
     \<lparr>service_id = service_id p, room_id = room_id p, club_id = club, start_date = sd, end_date = ed\<rparr>"

text \<open>
  An entry of the pooled handler's \<open>meta\<close> is resolved for a room of the pool: its real
  date is that of its slot label, and its service is the one \<open>pickComfortServiceId\<close> gives
  for the room's group, that real date and the slot label.
\<close>

definition resolved_for :: "config \<Rightarrow> room list \<Rightarrow> string \<Rightarrow> meta \<Rightarrow> bool" where
  "resolved_for config comfort uiDate m =
     (realDateForStart uiDate (start m) = Some (realDate m)
      \<and> list_ex (\<lambda>r. id' r = room_id m
            \<and> pickComfortServiceId config (group' r) (realDate m) (start m)
                 = Some (Inr (service_id m))) comfort)"

text \<open>
  The error \<^verbatim>\<open>apiGet\<close> throws on a reply that is an HTTP error, and on one that is not but
  carries \<^verbatim>\<open>result: false\<close>.
\<close>

definition failure_of :: "resp \<Rightarrow> err" where
  "failure_of r =
     (if \<not> ok r then
        \<lparr>message = Text (''Upstream error '' @ js_String (int (http_status r))),
         status' = Some (http_status r),
         details = Some (if truthy (body_json r) then body_json r
                         else JObj [(''raw'', JStr (body_text r))])\<rparr>
      else
        \<lparr>message = Upstream_result_false
                     (nullish_or (getprop (body_json r) ''error_message'')
                        (JStr ''Upstream returned result=false'')),
         status' = Some 502,
         details = Some (JObj [(''result'', JBool False),
                   (''error'', nullish_or (getprop (body_json r) ''error'') JNull),
                   (''error_message'',
                      nullish_or (getprop (body_json r) ''error_message'')
                        (JStr ''Upstream returned result=false''))])\<rparr>)"

section \<open>Example data\<close>



definition band_config :: config where
  "band_config = \<lparr>rooms = [],
      elite_services = (\<lambda>t b. if b = Day then Some ''elite-day'' else Some ''elite-night''),
      comfort_services = (\<lambda>g t b. if b = Day then Some ''comfort-day'' else Some ''comfort-night'')\<rparr>"

text \<open>A pool of three rooms on the display date 2025-01-20: the upstream has no record for
  the first two rooms and two free hours, 02:00 and 03:00 of 2025-01-19, for the third.\<close>

definition pool_config :: config where
  "pool_config =
     \<lparr>rooms = [\<lparr>id' = ''r1'', title = ''A'', type' = ''comfort'', group' = ''g1''\<rparr>,
               \<lparr>id' = ''r2'', title = ''B'', type' = ''comfort'', group' = ''g1''\<rparr>,
               \<lparr>id' = ''r3'', title = ''C'', type' = ''comfort'', group' = ''g2''\<rparr>,
               \<lparr>id' = ''e1'', title = ''E'', type' = ''elite'', group' = ''''\<rparr>],
      elite_services = (\<lambda>t b. Some ''se''),
      comfort_services = (\<lambda>g t b. if g = ''g1'' then Some ''s1'' else Some ''s2'')\<rparr>"

definition pool_rooms :: "room list" where
  "pool_rooms = [\<lparr>id' = ''r1'', title = ''A'', type' = ''comfort'', group' = ''g1''\<rparr>,
                 \<lparr>id' = ''r2'', title = ''B'', type' = ''comfort'', group' = ''g1''\<rparr>,
                 \<lparr>id' = ''r3'', title = ''C'', type' = ''comfort'', group' = ''g2''\<rparr>]"

definition free_900 :: jv where
  "free_900 = JObj [(''rental_id'', JNull), (''price'', JNum (Finite 900))]"

definition third_room_index :: index where
  "third_room_index = [''2025-01-19|02:00'' \<mapsto> free_900, ''2025-01-19|03:00'' \<mapsto> free_900]"

definition pool_env :: env where
  "pool_env =
     \<lparr>SLOT_OFFSET_MINUTES = Whole 0, loadConfig = Inr pool_config,
      upstream = (\<lambda>q. Response \<lparr>ok = True, http_status = 200, body_text = ''{}'',
                                  body_json = JObj [],
                                  records = (if room_id q = ''r3'' then third_room_index
                                             else Map.empty)\<rparr>),
      arrival = (\<lambda>q. 0)\<rparr>"

definition pool_request :: request where
  "pool_request = \<lparr>req_club_id = ''club'', req_date = ''2025-01-20''\<rparr>"

definition pool_pairs :: "(string \<times> pair) list" where
  "pool_pairs = [(''s1|r1'', \<lparr>service_id = ''s1'', room_id = ''r1''\<rparr>),
                 (''s1|r2'', \<lparr>service_id = ''s1'', room_id = ''r2''\<rparr>),
                 (''s2|r3'', \<lparr>service_id = ''s2'', room_id = ''r3''\<rparr>)]"

definition pool_index :: "(string \<times> index) list" where
  "pool_index = [(''s1|r1'', Map.empty), (''s1|r2'', Map.empty), (''s2|r3'', third_room_index)]"

definition all_busy :: comfort_cell where
  "all_busy = \<lparr>free_count = 0, busy_count = 3, total_count = 3, min_price = None\<rparr>"

definition pool_grid :: "(string \<times> comfort_cell) list" where
  "pool_grid =
     [(''06:00'', all_busy), (''08:00'', all_busy), (''10:00'', all_busy), (''12:00'', all_busy),
      (''14:00'', all_busy), (''16:00'', all_busy), (''18:00'', all_busy), (''20:00'', all_busy),
      (''22:00'', all_busy), (''00:00'', all_busy),
      (''02:00'', \<lparr>free_count = 1, busy_count = 2, total_count = 3,
                    min_price = Some (Finite 900)\<rparr>),
      (''04:00'', all_busy)]"

definition pool_payload :: "comfort_cell payload" where
  "pool_payload =
     \<lparr>kind = ''comfort'', payload_club_id = ''club'', date = ''2025-01-20'',
      slot_offset_minutes = Whole 0, upstream_range = (''2025-01-19'', ''2025-01-21''),
      grid = pool_grid\<rparr>"

definition pool_response :: response where
  "pool_response = \<lparr>code = 200, body = Comfort_body pool_payload\<rparr>"

text \<open>A pool of two rooms whose identifiers and services contain the separator of the
  joined key.\<close>

definition clash_rooms :: "room list" where
  "clash_rooms = [\<lparr>id' = ''c'', title = ''A'', type' = ''comfort'', group' = ''g1''\<rparr>,
                  \<lparr>id' = ''b|c'', title = ''B'', type' = ''comfort'', group' = ''g2''\<rparr>]"

definition clash_config :: config where
  "clash_config =
     \<lparr>rooms = clash_rooms,
      elite_services = (\<lambda>t b. None),
      comfort_services = (\<lambda>g t b. if g = ''g1'' then Some ''a|b'' else Some ''a'')\<rparr>"

text \<open>An upstream for that pool: free hours at 06:00 and 07:00 of 2025-01-20 for the room
  \<^verbatim>\<open>b|c\<close> under the service \<^verbatim>\<open>a\<close>, and no record for any other query.\<close>

definition clash_index :: index where
  "clash_index = [''2025-01-20|06:00'' \<mapsto> free_900, ''2025-01-20|07:00'' \<mapsto> free_900]"

definition clash_env :: env where
  "clash_env =
     \<lparr>SLOT_OFFSET_MINUTES = Whole 0, loadConfig = Inr clash_config,
      upstream = (\<lambda>q. Response \<lparr>ok = True, http_status = 200, body_text = ''{}'',
                                  body_json = JObj [],
                                  records = (if service_id q = ''a'' \<and> room_id q = ''b|c''
                                             then clash_index else Map.empty)\<rparr>),
      arrival = (\<lambda>q. 0)\<rparr>"

text \<open>The pool above with an upstream that answers 503 for the second room and
  \<^verbatim>\<open>result: false\<close> for the exclusive room.\<close>

definition outage_env :: env where
  "outage_env =
     \<lparr>SLOT_OFFSET_MINUTES = Whole 0, loadConfig = Inr pool_config,
      upstream = (\<lambda>q.
         if room_id q = ''r2'' then
           Response \<lparr>ok = False, http_status = 503, body_text = ''busy'', body_json = JNull,
                     records = Map.empty\<rparr>
         else if room_id q = ''e1'' then
           Response \<lparr>ok = True, http_status = 200, body_text = '''',
                     body_json = JObj [(''result'', JBool False),
                                       (''error_message'', JStr ''no such service'')],
                     records = Map.empty\<rparr>
         else
           Response \<lparr>ok = True, http_status = 200, body_text = ''{}'', body_json = JObj [],
                     records = Map.empty\<rparr>),
      arrival = (\<lambda>q. 0)\<rparr>"

definition outage_query :: "string \<Rightarrow> string \<Rightarrow> query" where
  "outage_query sid rid =
     \<lparr>service_id = sid, room_id = rid, club_id = ''club'',
      start_date = ''2025-01-19'', end_date = ''2025-01-21''\<rparr>"

text \<open>The entries the exclusive handler pushes for the display date 2025-01-20 under
  \<open>band_config\<close>: the slots from 08:00 to 14:00 with the day service, the others with the
  night service, the last three on the day before.\<close>

definition band_meta :: "meta list" where
  "band_meta =
     map (\<lambda>(st, rd, sid). \<lparr>service_id = sid, room_id = ''e1'', start = st, realDate = rd\<rparr>)
       [(''06:00'', ''2025-01-20'', ''elite-night''), (''08:00'', ''2025-01-20'', ''elite-day''),
        (''10:00'', ''2025-01-20'', ''elite-day''), (''12:00'', ''2025-01-20'', ''elite-day''),
        (''14:00'', ''2025-01-20'', ''elite-day''), (''16:00'', ''2025-01-20'', ''elite-night''),
        (''18:00'', ''2025-01-20'', ''elite-night''), (''20:00'', ''2025-01-20'', ''elite-night''),
        (''22:00'', ''2025-01-20'', ''elite-night''), (''00:00'', ''2025-01-19'', ''elite-night''),
        (''02:00'', ''2025-01-19'', ''elite-night''), (''04:00'', ''2025-01-19'', ''elite-night'')]"

text \<open>The cell of a slot in the response of the pooled handler.\<close>

definition cell_at :: "response option \<Rightarrow> string \<Rightarrow> comfort_cell option" where
  "cell_at r st =
     (case r of
        None \<Rightarrow> None
      | Some x \<Rightarrow> (case body x of Comfort_body p \<Rightarrow> map_of (grid p) st | _ \<Rightarrow> None))"

section \<open>Properties of the slot evaluator\<close>

lemma present_None: "\<not> present None"
  by simp

lemma slotInfo_status:
  "status (slotInfo it d t) =
     (if \<not> present it then Missing else if isFreeItem it then Free else Busy)"
  by (simp add: slotInfo_def)

text \<open>
  Claim C2. The verdict tests "missing" before "busy". For any two probes: when either
  probe is absent from the index (or is not a record at all) the verdict is missing with
  reason \<open>slot_missing\<close>, whatever the other probe holds, a non-free record included; when
  both are present and either is non-free the verdict is busy with reason \<open>occupied\<close>;
  when both are present and free the verdict is free with no reason.
\<close>

theorem verdict_missing_precedes_busy:
  "(\<not> present it1 \<or> \<not> present it2 \<longrightarrow>
      evaluateRoomStatus (slotInfo it1 d t1) (slotInfo it2 d t2)
        = \<lparr>room_status = Missing, reason = Some ''slot_missing''\<rparr>)
   \<and> (present it1 \<and> present it2 \<and> (\<not> isFreeItem it1 \<or> \<not> isFreeItem it2) \<longrightarrow>
      evaluateRoomStatus (slotInfo it1 d t1) (slotInfo it2 d t2)
        = \<lparr>room_status = Busy, reason = Some ''occupied''\<rparr>)
   \<and> (present it1 \<and> present it2 \<and> isFreeItem it1 \<and> isFreeItem it2 \<longrightarrow>
      evaluateRoomStatus (slotInfo it1 d t1) (slotInfo it2 d t2)
        = \<lparr>room_status = Free, reason = None\<rparr>)"
  by (simp add: evaluateRoomStatus_def slotInfo_status)

theorem verdict_missing_precedes_busy_witness:
  "evaluateRoomStatus (slotInfo None ''2025-01-19'' ''02:00'')
       (slotInfo (Some (JObj [(''rental_id'', JStr ''abc123'')])) ''2025-01-19'' ''03:00'')
     = \<lparr>room_status = Missing, reason = Some ''slot_missing''\<rparr>
   \<and> evaluateRoomStatus (slotInfo (Some (JObj [(''rental_id'', JNull)])) ''2025-01-20'' ''14:00'')
       (slotInfo (Some (JObj [(''rental_id'', JStr ''abc123'')])) ''2025-01-20'' ''15:00'')
     = \<lparr>room_status = Busy, reason = Some ''occupied''\<rparr>
   \<and> evaluateRoomStatus (slotInfo (Some (JObj [(''rental_id'', JNull)])) ''2025-01-20'' ''14:00'')
       (slotInfo (Some (JObj [(''rental_id'', JNum (Finite 0))])) ''2025-01-20'' ''15:00'')
     = \<lparr>room_status = Free, reason = None\<rparr>"
  using
    verdict_missing_precedes_busy [of None "Some (JObj [(''rental_id'', JStr ''abc123'')])"
      "''2025-01-19''" "''02:00''" "''03:00''"]
    verdict_missing_precedes_busy [of "Some (JObj [(''rental_id'', JNull)])"
      "Some (JObj [(''rental_id'', JStr ''abc123'')])" "''2025-01-20''" "''14:00''" "''15:00''"]
    verdict_missing_precedes_busy [of "Some (JObj [(''rental_id'', JNull)])"
      "Some (JObj [(''rental_id'', JNum (Finite 0))])" "''2025-01-20''" "''14:00''" "''15:00''"]
  by (simp add: isFreeItem_def)

text \<open>
  Claim C5. The extracted price is the price of probe 1 when probe 1 is present with a
  numeric price, else the price of probe 2 when probe 2 is present with a numeric price,
  else none: (500, 700) gives 500, (no price, 700) gives 700, (no price, no price) gives
  none.
\<close>

theorem pickPrice_first_numeric:
  "pickPrice it1 it2 =
     (case numeric_price it1 of Some p \<Rightarrow> Some p
      | None \<Rightarrow> (case numeric_price it2 of Some p \<Rightarrow> Some p | None \<Rightarrow> None))
   \<and> pickPrice (Some (JObj [(''price'', JNum (Finite 500))]))
               (Some (JObj [(''price'', JNum (Finite 700))])) = Some (Finite 500)
   \<and> pickPrice (Some (JObj [(''rental_id'', JNull)]))
               (Some (JObj [(''price'', JNum (Finite 700))])) = Some (Finite 700)
   \<and> pickPrice (Some (JObj [(''price'', JNull)]))
               (Some (JObj [(''price'', JNum (Finite 700))])) = Some (Finite 700)
   \<and> pickPrice None (Some (JObj [(''price'', JNum (Finite 700))])) = Some (Finite 700)
   \<and> pickPrice (Some (JObj [(''rental_id'', JNull)])) (Some (JObj [(''price'', JStr ''700'')])) = None
   \<and> pickPrice (Some (JObj [])) None = None"
  by (simp add: pickPrice_def numeric_price_def split: option.splits)

text \<open>
  Claim C8. A present occupancy record is classified free exactly when its
  \<^verbatim>\<open>rental_id\<close> is null, absent, the empty string or zero; with any other
  \<^verbatim>\<open>rental_id\<close> it is classified busy.
\<close>

theorem present_record_free_iff:
  "(status (slotInfo (Some (JObj kvs)) d t) = Free
      \<longleftrightarrow> getprop (JObj kvs) ''rental_id'' \<in> {Some JNull, None, Some (JStr ''''), Some (JNum (Finite 0))})
   \<and> (status (slotInfo (Some (JObj kvs)) d t) = Busy
      \<longleftrightarrow> getprop (JObj kvs) ''rental_id'' \<notin> {Some JNull, None, Some (JStr ''''), Some (JNum (Finite 0))})"
  by (auto simp add: slotInfo_status isFreeItem_def Let_def)


section \<open>Properties of strings and times\<close>


lemma digit_cases: "n < 10 \<Longrightarrow> n \<in> {0, 1, 2, 3, 4, 5, 6, 7, 8, 9::nat}"
  by simp arith

lemma digit_val_char [simp]: "n < 10 \<Longrightarrow> digit_val (digit_char n) = n"
  by (drule digit_cases) (auto simp add: digit_val_def digit_char_def)

lemma is_digit_char [simp]: "n < 10 \<Longrightarrow> is_digit (digit_char n)"
  by (drule digit_cases) (auto simp add: is_digit_def digit_char_def)

lemma digit_char_not_colon [simp]: "n < 10 \<Longrightarrow> digit_char n \<noteq> CHR '':''"
  by (drule digit_cases) (auto simp add: digit_char_def)

lemma digit_char_not_dash [simp]: "n < 10 \<Longrightarrow> digit_char n \<noteq> CHR ''-''"
  by (drule digit_cases) (auto simp add: digit_char_def)

lemma js_Number_2: "a < 10 \<Longrightarrow> b < 10 \<Longrightarrow> js_Number [digit_char a, digit_char b] = Some (int (10 * a + b))"
  by (simp add: js_Number_def)

lemma pad2_small:
  assumes "n < 100"
  shows "padStart 2 CHR ''0'' (js_String (int n)) = [digit_char (n div 10), digit_char (n mod 10)]"
proof (cases "n < 10")
  case True
  then show ?thesis
    by (simp add: padStart_def js_String_def digits_of.simps [of n] digit_char_def)
next
  case False
  with assms have "n div 10 < 10" by simp
  with False show ?thesis
    by (simp add: padStart_def js_String_def digits_of.simps [of n] digits_of.simps [of "n div 10"])
qed








lemma js_str_lt_lexord:
  "js_str_lt x y \<longleftrightarrow> (x, y) \<in> lexord {(a, b). (of_char a :: nat) < of_char b}"
  by (induction x y rule: js_str_lt.induct) auto

lemma js_str_ge_iff: "\<not> js_str_lt x y \<longleftrightarrow> x = y \<or> js_str_lt y x"
  by (induction x y rule: js_str_lt.induct) auto



lemma div_step:
  fixes a n :: int
  assumes "0 < n"
  shows "(a + 1) div n = a div n + (if (a + 1) mod n = 0 then 1 else 0)"
proof (cases "a mod n = n - 1")
  case True
  have "a = n * (a div n) + a mod n" by simp
  with True have "a = n * (a div n) + (n - 1)" by simp
  then have "a + 1 = n * (a div n + 1) + 0"
    by (simp add: algebra_simps)
  then have d: "(a + 1) div n = a div n + 1" and m: "(a + 1) mod n = 0"
    using assms by (metis int_div_pos_eq order_refl, metis int_mod_pos_eq order_refl)
  show ?thesis using d m by simp
next
  case False
  have b: "a mod n < n" "0 \<le> a mod n"
    using assms by simp_all
  have r: "0 \<le> a mod n + 1" "a mod n + 1 < n"
    using b False by linarith+
  have "a + 1 = n * (a div n) + (a mod n + 1)"
    using mult_div_mod_eq [of n a] by simp
  then have d: "(a + 1) div n = a div n" and m: "(a + 1) mod n = a mod n + 1"
    using r by (metis int_div_pos_eq, metis int_mod_pos_eq)
  have "(a + 1) mod n \<noteq> 0" using m b by linarith
  then show ?thesis using d by simp
qed


lemma div_step_shift:
  fixes y k n :: int
  assumes "0 < n" "k mod n = 0"
  shows "(y - k) div n = (y - (k + 1)) div n + (if y mod n = 0 then 1 else 0)"
proof -
  have "(y - k) mod n = (y - k mod n) mod n"
    by (simp add: mod_diff_right_eq)
  then have m: "(y - k) mod n = y mod n"
    using assms by simp
  have e: "y - (k + 1) + 1 = y - k" by simp
  show ?thesis
    using div_step [OF assms(1), of "y - (k + 1)"] unfolding e m .
qed

lemma DFY_step: "DayFromYear (y + 1) = DayFromYear y + DaysInYear y"
proof -
  define p4 p100 p400 where "p4 \<longleftrightarrow> y mod 4 = 0" and "p100 \<longleftrightarrow> y mod 100 = 0"
    and "p400 \<longleftrightarrow> y mod 400 = 0"
  define a b c where "a = (y - 1969) div 4" and "b = (y - 1901) div 100"
    and "c = (y - 1601) div 400"
  have d4: "(4::int) dvd 100" and d100: "(100::int) dvd 400" by simp_all
  have m4: "p4" if "p100"
    using that dvd_trans [OF d4, of y] by (simp add: mod_eq_0_iff_dvd p4_def p100_def)
  have m100: "p100" if "p400"
    using that dvd_trans [OF d100, of y] by (simp add: mod_eq_0_iff_dvd p100_def p400_def)
  have e4: "(y - 1968) div 4 = a + (if p4 then 1 else 0)"
    using div_step_shift [of 4 1968 y] by (simp add: a_def p4_def)
  have e100: "(y - 1900) div 100 = b + (if p100 then 1 else 0)"
    using div_step_shift [of 100 1900 y] by (simp add: b_def p100_def)
  have e400: "(y - 1600) div 400 = c + (if p400 then 1 else 0)"
    using div_step_shift [of 400 1600 y] by (simp add: c_def p400_def)
  have l: "DayFromYear (y + 1) =
      365 * (y - 1970) + 365 + (y - 1968) div 4 - (y - 1900) div 100 + (y - 1600) div 400"
    by (simp add: DayFromYear_def algebra_simps)
  have r: "DayFromYear y = 365 * (y - 1970) + a - b + c"
    by (simp add: DayFromYear_def a_def b_def c_def)
  have n: "DaysInYear y = (if \<not> p4 then 365 else if \<not> p100 then 366 else if \<not> p400 then 365 else 366)"
    by (simp add: DaysInYear_def p4_def p100_def p400_def)
  show ?thesis
    unfolding l r n e4 e100 e400 using m4 m100 by (cases p4; cases p100; cases p400) simp_all
qed


lemma DaysInYear_bounds: "365 \<le> DaysInYear y" "DaysInYear y \<le> 366"
  by (simp_all add: DaysInYear_def)

lemma DFY_1970: "DayFromYear 1970 = 0"
  by (simp add: DayFromYear_def)

lemma DFY_pred: "DayFromYear (y - 1) = DayFromYear y - DaysInYear (y - 1)"
  using DFY_step [of "y - 1"] by simp

lemma DFY_bounds_ge:
  "1970 \<le> y \<Longrightarrow> 365 * (y - 1970) \<le> DayFromYear y \<and> DayFromYear y \<le> 366 * (y - 1970)"
proof (induction y rule: int_ge_induct)
  case base
  show ?case by (simp add: DFY_1970)
next
  case (step i)
  show ?case
    using step.IH DaysInYear_bounds [of i] unfolding DFY_step by auto
qed

lemma DFY_bounds_le:
  "y \<le> 1970 \<Longrightarrow> 366 * (y - 1970) \<le> DayFromYear y \<and> DayFromYear y \<le> 365 * (y - 1970)"
proof (induction y rule: int_le_induct)
  case base
  show ?case by (simp add: DFY_1970)
next
  case (step i)
  show ?case
    using step.IH DaysInYear_bounds [of "i - 1"] unfolding DFY_pred by auto
qed

lemma DFY_mono: "y \<le> y' \<Longrightarrow> DayFromYear y \<le> DayFromYear y'"
proof (induction y' rule: int_ge_induct)
  case base
  show ?case by simp
next
  case (step i)
  show ?case
    using step.IH DaysInYear_bounds [of i] unfolding DFY_step by auto
qed

lemma year_search_correct:
  "DayFromYear y \<le> dn \<Longrightarrow> dn < DayFromYear (y + 1) \<Longrightarrow> y \<le> hi \<Longrightarrow> hi - y \<le> int k
     \<Longrightarrow> year_search k hi dn = y"
proof (induction k arbitrary: hi)
  case 0
  then show ?case by simp
next
  case (Suc k)
  show ?case
  proof (cases "hi = y")
    case True
    with Suc.prems show ?thesis by simp
  next
    case False
    with Suc.prems have "y + 1 \<le> hi" by simp
    then have "DayFromYear (y + 1) \<le> DayFromYear hi" by (rule DFY_mono)
    with Suc.prems have "\<not> DayFromYear hi \<le> dn" by simp
    moreover have "year_search k (hi - 1) dn = y"
      using Suc.prems False by (intro Suc.IH) simp_all
    ultimately show ?thesis by simp
  qed
qed

lemma le_div_int: "c * a \<le> n \<Longrightarrow> 0 < c \<Longrightarrow> a \<le> n div c" for a c n :: int
  using zdiv_mono1 [of "c * a" n c] by simp

lemma div_lt_int:
  fixes a c n :: int
  assumes "n < c * a" "0 < c"
  shows "n div c < a"
proof (rule ccontr)
  assume "\<not> n div c < a"
  then have "a \<le> n div c" by simp
  then have "c * a \<le> c * (n div c)"
    using assms(2) by (simp add: mult_left_mono)
  moreover have "c * (n div c) \<le> n"
    using pos_mod_sign [OF assms(2), of n] mult_div_mod_eq [of c n] by linarith
  ultimately show False using assms(1) by linarith
qed

lemma YearFromDay_correct:
  assumes "DayFromYear y \<le> dn" "dn < DayFromYear (y + 1)"
  shows "YearFromDay dn = y"
proof (cases "0 \<le> dn")
  case True
  have y: "1970 \<le> y"
  proof (rule ccontr)
    assume "\<not> 1970 \<le> y"
    then have "y + 1 \<le> 1970" by simp
    then have "DayFromYear (y + 1) \<le> DayFromYear 1970" by (rule DFY_mono)
    with assms True show False by (simp add: DFY_1970)
  qed
  have "365 * (y - 1970) \<le> dn"
    using DFY_bounds_ge [OF y] assms by linarith
  then have hi: "y - 1970 \<le> dn div 365" by (rule le_div_int) simp
  have "dn < 366 * (y + 1 - 1970)"
    using DFY_bounds_ge [of "y + 1"] y assms by linarith
  then have "dn div 366 < y + 1 - 1970" by (rule div_lt_int) simp
  then have lo: "dn div 366 \<le> y - 1970" by simp
  show ?thesis
    unfolding YearFromDay_def Let_def using True hi lo
    by (intro year_search_correct assms) simp_all
next
  case False
  have y: "y + 1 \<le> 1970"
  proof (rule ccontr)
    assume "\<not> y + 1 \<le> 1970"
    then have "1970 \<le> y" by simp
    then have "DayFromYear 1970 \<le> DayFromYear y" by (rule DFY_mono)
    with assms False show False by (simp add: DFY_1970)
  qed
  have "366 * (y - 1970) \<le> dn"
    using DFY_bounds_le [of y] y assms by linarith
  then have hi: "y - 1970 \<le> dn div 366" by (rule le_div_int) simp
  have "dn < 365 * (y + 1 - 1970)"
    using DFY_bounds_le [OF y] assms by linarith
  then have "dn div 365 < y + 1 - 1970" by (rule div_lt_int) simp
  then have lo: "dn div 365 \<le> y - 1970" by simp
  show ?thesis
    unfolding YearFromDay_def Let_def using False hi lo
    by (intro year_search_correct assms) simp_all
qed


lemma DaysInYear_leap: "DaysInYear (int y) = (if leap_year y then 366 else 365)"
proof -
  have "int y mod 4 = int (y mod 4)" "int y mod 100 = int (y mod 100)"
    "int y mod 400 = int (y mod 400)"
    by (simp_all add: zmod_int)
  then show ?thesis
    by (simp add: DaysInYear_def leap_year_def)
qed

lemma month_disj:
  "1 \<le> m \<Longrightarrow> m \<le> 12 \<Longrightarrow> m \<in> {1, 2, 3, 4, 5, 6, 7, 8, 9, 10, 11, 12::nat}"
  by simp arith



lemma ms_vals:
  "month_start l 0 = 0" "month_start l 1 = 31" "month_start l 2 = 59 + l"
  "month_start l 3 = 90 + l" "month_start l 4 = 120 + l" "month_start l 5 = 151 + l"
  "month_start l 6 = 181 + l" "month_start l 7 = 212 + l" "month_start l 8 = 243 + l"
  "month_start l 9 = 273 + l" "month_start l 10 = 304 + l" "month_start l 11 = 334 + l"
  by (simp_all add: month_start_def)

lemma month_chain:
  fixes dw l :: int
  assumes "0 \<le> l" "l \<le> 1" "0 \<le> mn" "mn \<le> 11"
    "month_start l mn \<le> dw" "dw < (if mn = 11 then 365 + l else month_start l (mn + 1))"
  shows "(if dw < 31 then 0
         else if dw < 59 + l then 1
         else if dw < 90 + l then 2
         else if dw < 120 + l then 3
         else if dw < 151 + l then 4
         else if dw < 181 + l then 5
         else if dw < 212 + l then 6
         else if dw < 243 + l then 7
         else if dw < 273 + l then 8
         else if dw < 304 + l then 9
         else if dw < 334 + l then 10
         else 11) = mn"
proof -
  from assms(3,4) have "mn \<in> {0, 1, 2, 3, 4, 5, 6, 7, 8, 9, 10, 11}"
    by simp arith
  then consider "mn = 0" | "mn = 1" | "mn = 2" | "mn = 3" | "mn = 4" | "mn = 5"
    | "mn = 6" | "mn = 7" | "mn = 8" | "mn = 9" | "mn = 10" | "mn = 11" by auto
  then show ?thesis
  proof cases
    case 1 with assms show ?thesis by (simp add: ms_vals)
  next
    case 2 with assms show ?thesis by (simp add: ms_vals)
  next
    case 3 with assms show ?thesis by (simp add: ms_vals)
  next
    case 4 with assms show ?thesis by (simp add: ms_vals)
  next
    case 5 with assms show ?thesis by (simp add: ms_vals)
  next
    case 6 with assms show ?thesis by (simp add: ms_vals)
  next
    case 7 with assms show ?thesis by (simp add: ms_vals)
  next
    case 8 with assms show ?thesis by (simp add: ms_vals)
  next
    case 9 with assms show ?thesis by (simp add: ms_vals)
  next
    case 10 with assms show ?thesis by (simp add: ms_vals)
  next
    case 11 with assms show ?thesis by (simp add: ms_vals)
  next
    case 12 with assms show ?thesis by (simp add: ms_vals)
  qed
qed


lemma month_len:
  assumes "1 \<le> m" "m \<le> 12" "l = (if leap_year y then 1 else 0)"
  shows "month_start l (int m - 1) + int (days_in_month y m)
           = (if m = 12 then 365 + l else month_start l (int m))"
proof -
  from assms(1,2) have "m \<in> {1, 2, 3, 4, 5, 6, 7, 8, 9, 10, 11, 12}"
    by (rule month_disj)
  then show ?thesis
    using assms(3) by (auto simp add: ms_vals days_in_month_def)
qed

lemma decode_valid:
  assumes v: "valid_date y m d"
    and l: "l = (if leap_year y then 1 else 0)"
    and t: "DayNumber t = DayFromYear (int y) + month_start l (int m - 1) + int d - 1"
  shows "YearFromTime t = int y \<and> MonthFromTime t = int m - 1 \<and> DateFromTime t = int d"
proof -
  from v have m: "1 \<le> m" "m \<le> 12" and d: "1 \<le> d" "d \<le> days_in_month y m"
    by (simp_all add: valid_date_def)
  have l01: "0 \<le> l" "l \<le> 1" by (simp_all add: l)
  note len = month_len [OF m l]
  have nxt: "(if m = 12 then 365 + l else month_start l (int m)) \<le> 365 + l"
    using month_disj [OF m] l01 by (auto simp add: ms_vals)
  have fst: "0 \<le> month_start l (int m - 1)"
    using month_disj [OF m] l01 by (auto simp add: ms_vals)
  define dw where "dw = month_start l (int m - 1) + int d - 1"
  have lo: "month_start l (int m - 1) \<le> dw" using d by (simp add: dw_def)
  have hi: "dw < (if m = 12 then 365 + l else month_start l (int m))"
    using d len by (simp add: dw_def del: of_nat_le_iff)
  have diy: "DaysInYear (int y) = 365 + l" by (simp add: DaysInYear_leap l)
  have yr: "YearFromTime t = int y"
    unfolding YearFromTime_def
  proof (rule YearFromDay_correct)
    show "DayFromYear (int y) \<le> DayNumber t" using fst lo by (simp add: t dw_def)
    show "DayNumber t < DayFromYear (int y + 1)"
      using hi nxt unfolding DFY_step diy t dw_def by linarith
  qed
  have il: "InLeapYear t = l"
    by (simp add: InLeapYear_def yr DaysInYear_leap l)
  have dwy: "DayWithinYear t = dw"
    by (simp add: DayWithinYear_def yr t dw_def)
  have hi': "dw < (if int m - 1 = 11 then 365 + l else month_start l (int m - 1 + 1))"
    using hi by (simp split: if_splits)
  have mo: "MonthFromTime t = int m - 1"
    unfolding MonthFromTime_def il dwy Let_def
    using m by (intro month_chain l01 lo hi') simp_all
  show ?thesis
    by (simp add: yr mo DateFromTime_def il dwy dw_def)
qed


lemma digits4_value:
  assumes "y < 10000"
  shows "digits_value 0 [digit_char (y div 1000), digit_char (y div 100 mod 10),
           digit_char (y div 10 mod 10), digit_char (y mod 10)] = y"
proof -
  have a: "y div 1000 < 10" using assms by simp
  have e1: "y = 10 * (y div 10) + y mod 10" by simp
  have e2: "y div 10 = 10 * (y div 100) + y div 10 mod 10"
    using mult_div_mod_eq [of 10 "y div 10"] by (simp add: div_mult2_eq [symmetric])
  have e3: "y div 100 = 10 * (y div 1000) + y div 100 mod 10"
    using mult_div_mod_eq [of 10 "y div 100"] by (simp add: div_mult2_eq [symmetric])
  have "digits_value 0 [digit_char (y div 1000), digit_char (y div 100 mod 10),
           digit_char (y div 10 mod 10), digit_char (y mod 10)]
        = 10 * (10 * (10 * (y div 1000) + y div 100 mod 10) + y div 10 mod 10) + y mod 10"
    using a by simp
  also have "\<dots> = y"
    using e1 e2 e3 by presburger
  finally show ?thesis .
qed

lemma parse_iso_date:
  assumes "y < 10000" "m < 100" "d < 100"
  shows "parse_ymd (iso_date (y, m, d)) = Some (int y, int m, int d)"
proof -
  have a: "y div 1000 < 10" using assms by simp
  have sp: "split_on CHR ''-'' (iso_date (y, m, d)) =
      [[digit_char (y div 1000), digit_char (y div 100 mod 10),
        digit_char (y div 10 mod 10), digit_char (y mod 10)],
       [digit_char (m div 10), digit_char (m mod 10)],
       [digit_char (d div 10), digit_char (d mod 10)]]"
    using assms a by (simp add: iso_date_def)
  have ny: "js_Number [digit_char (y div 1000), digit_char (y div 100 mod 10),
        digit_char (y div 10 mod 10), digit_char (y mod 10)] = Some (int y)"
    unfolding js_Number_def digits4_value [OF assms(1)] using a by simp
  show ?thesis
    unfolding parse_ymd_def sp using assms by (simp add: ny js_Number_2)
qed


lemma digits_of_4:
  assumes "1000 \<le> n" "n < 10000"
  shows "digits_of n = [digit_char (n div 1000), digit_char (n div 100 mod 10),
           digit_char (n div 10 mod 10), digit_char (n mod 10)]"
proof -
  have a: "\<not> n < 10" "\<not> n div 10 < 10" "\<not> n div 100 < 10" "n div 1000 < 10"
    using assms by simp_all
  have d: "n div 10 div 10 = n div 100" "n div 100 div 10 = n div 1000"
    by (simp_all add: div_mult2_eq [symmetric])
  show ?thesis
    using a
    by (simp add: digits_of.simps [of n] digits_of.simps [of "n div 10"]
        digits_of.simps [of "n div 100"] digits_of.simps [of "n div 1000"] d)
qed

lemma format_iso_date:
  assumes "1000 \<le> y" "y < 10000" "m < 100" "d < 100"
  shows "js_String (int y) @ ''-'' @ padStart 2 CHR ''0'' (js_String (int m)) @ ''-''
           @ padStart 2 CHR ''0'' (js_String (int d)) = iso_date (y, m, d)"
proof -
  have "js_String (int y) = [digit_char (y div 1000), digit_char (y div 100 mod 10),
           digit_char (y div 10 mod 10), digit_char (y mod 10)]"
    using assms by (simp add: js_String_def digits_of_4)
  then show ?thesis
    using assms by (simp add: pad2_small iso_date_def)
qed

lemma DayNumber_noon: "DayNumber (MakeDate n (MakeTime 12 0 0 0)) = n"
  and TimeWithinDay_noon: "TimeWithinDay (MakeDate n (MakeTime 12 0 0 0)) = MakeTime 12 0 0 0"
  by (simp_all add: DayNumber_def TimeWithinDay_def MakeDate_def MakeTime_def msPerDay_def)

lemma MakeDay_valid:
  assumes "1 \<le> m" "m \<le> 12"
  shows "MakeDay (int y) (int m - 1) dt =
           DayFromYear (int y) + month_start (if leap_year y then 1 else 0) (int m - 1) + dt - 1"
proof -
  have "(int m - 1) div 12 = 0" "(int m - 1) mod 12 = int m - 1"
    using assms by simp_all
  then show ?thesis
    by (simp add: MakeDay_def DaysInYear_leap)
qed

lemma prev_day_valid:
  assumes "valid_date y m d" "1 \<le> y" "prev_day (y, m, d) = (y', m', d')"
  shows "valid_date y' m' d'"
    and "DayFromYear (int y') + month_start (if leap_year y' then 1 else 0) (int m' - 1) + int d' - 1
          = DayFromYear (int y) + month_start (if leap_year y then 1 else 0) (int m - 1) + int d - 1 - 1"
proof -
  from assms(1) have m: "1 \<le> m" "m \<le> 12" and d: "1 \<le> d" "d \<le> days_in_month y m"
    by (simp_all add: valid_date_def)
  consider "1 < d" | "d = 1" "1 < m" | "d = 1" "m = 1" using m d by linarith
  then have "valid_date y' m' d' \<and>
     DayFromYear (int y') + month_start (if leap_year y' then 1 else 0) (int m' - 1) + int d' - 1
          = DayFromYear (int y) + month_start (if leap_year y then 1 else 0) (int m - 1) + int d - 1 - 1"
  proof cases
    case 1
    with assms(3) have e: "y' = y" "m' = m" "d' = d - 1" by (simp_all add: prev_day_def)
    show ?thesis unfolding e using 1 m d by (auto simp add: valid_date_def)
  next
    case 2
    with assms(3) have e: "y' = y" "m' = m - 1" "d' = days_in_month y (m - 1)"
      by (auto simp add: prev_day_def)
    have m1: "1 \<le> m - 1" "m - 1 \<le> 12" "m - 1 \<noteq> 12" using 2 m by simp_all
    have len: "month_start (if leap_year y then 1 else 0) (int (m - 1) - 1) + int (days_in_month y (m - 1))
       = month_start (if leap_year y then 1 else 0) (int (m - 1))"
      using month_len [OF m1(1,2) refl, of y] m1(3) by simp
    have i: "int (m - 1) = int m - 1" using m by simp
    have pos: "1 \<le> days_in_month y (m - 1)" by (simp add: days_in_month_def)
    show ?thesis unfolding e using 2 m1 len pos by (simp add: valid_date_def i)
  next
    case 3
    with assms(3) have e: "y' = y - 1" "m' = 12" "d' = 31" by (simp_all add: prev_day_def)
    have i: "int (y - 1) + 1 = int y" using assms(2) by simp
    have s: "DayFromYear (int y) = DayFromYear (int (y - 1)) + DaysInYear (int (y - 1))"
      using DFY_step [of "int (y - 1)"] unfolding i .
    show ?thesis unfolding e s using 3
      by (simp add: valid_date_def days_in_month_def ms_vals DaysInYear_leap)
  qed
  then show "valid_date y' m' d'"
    and "DayFromYear (int y') + month_start (if leap_year y' then 1 else 0) (int m' - 1) + int d' - 1
          = DayFromYear (int y) + month_start (if leap_year y then 1 else 0) (int m - 1) + int d - 1 - 1"
    by simp_all
qed


lemma doy_bounds:
  assumes "valid_date y m d" "l = (if leap_year y then 1 else 0)"
  shows "0 \<le> month_start l (int m - 1) + int d - 1"
    and "month_start l (int m - 1) + int d - 1 \<le> 365"
proof -
  from assms(1) have m: "1 \<le> m" "m \<le> 12" and d: "1 \<le> d" "d \<le> days_in_month y m"
    by (simp_all add: valid_date_def)
  have l01: "0 \<le> l" "l \<le> 1" by (simp_all add: assms(2))
  note len = month_len [OF m assms(2)]
  have nxt: "(if m = 12 then 365 + l else month_start l (int m)) \<le> 365 + l"
    using month_disj [OF m] l01 by (auto simp add: ms_vals)
  have fst: "0 \<le> month_start l (int m - 1)"
    using month_disj [OF m] l01 by (auto simp add: ms_vals)
  show "0 \<le> month_start l (int m - 1) + int d - 1" using fst d by simp
  have "month_start l (int m - 1) + int d \<le> 365 + l"
    using len nxt d by (simp del: of_nat_le_iff) 
  then show "month_start l (int m - 1) + int d - 1 \<le> 365" using l01 by simp
qed

lemma TimeClip_noon:
  assumes "999 \<le> y" "y \<le> 9999" "0 \<le> k" "k \<le> 365"
  shows "TimeClip (MakeDate (DayFromYear y + k) (MakeTime 12 0 0 0))
           = Some (MakeDate (DayFromYear y + k) (MakeTime 12 0 0 0))"
proof -
  have "- 366 * 971 \<le> DayFromYear y \<and> DayFromYear y \<le> 366 * 8029"
  proof (cases "1970 \<le> y")
    case True
    then show ?thesis using DFY_bounds_ge [OF True] assms by simp
  next
    case False
    then have "y \<le> 1970" by simp
    then show ?thesis using DFY_bounds_le [of y] assms by simp
  qed
  then show ?thesis
    using assms by (simp add: TimeClip_def MakeDate_def MakeTime_def msPerDay_def abs_le_iff)
qed


lemma addDaysIso_prev:
  assumes v: "valid_date y m d" and lo: "1000 \<le> y" and hi: "y \<le> 9999"
    and ne: "(y, m, d) \<noteq> (1000, 1, 1)"
  shows "addDaysIso (iso_date (y, m, d)) (- 1) = Some (iso_date (prev_day (y, m, d)))"
proof -
  obtain y' m' d' where p: "prev_day (y, m, d) = (y', m', d')"
    by (cases "prev_day (y, m, d)") auto
  from v have m: "1 \<le> m" "m \<le> 12" and d: "1 \<le> d" "d \<le> days_in_month y m"
    by (simp_all add: valid_date_def)
  have d31: "days_in_month y m \<le> 31" by (simp add: days_in_month_def)
  have y1: "1 \<le> y" using lo by simp
  note pv = prev_day_valid [OF v y1 p]
  from pv(1) have m': "1 \<le> m'" "m' \<le> 12" and d': "1 \<le> d'" "d' \<le> days_in_month y' m'"
    by (simp_all add: valid_date_def)
  have d31': "days_in_month y' m' \<le> 31" by (simp add: days_in_month_def)
  have y': "1000 \<le> y'" "y' \<le> 9999"
    using p lo hi ne m d by (auto simp add: prev_day_def split: if_splits)
  define l where "l = (if leap_year y then 1 else (0::int))"
  define l' where "l' = (if leap_year y' then 1 else (0::int))"
  define k where "k = month_start l (int m - 1) + int d - 1"
  define k' where "k' = month_start l' (int m' - 1) + int d' - 1"
  define N where "N = DayFromYear (int y) + k"
  define N' where "N' = DayFromYear (int y') + k'"
  have NN: "N' = N - 1"
    using pv(2) by (simp add: N_def N'_def k_def k'_def l_def l'_def)
  have kb: "0 \<le> k" "k \<le> 365" "0 \<le> k'" "k' \<le> 365"
    using doy_bounds [OF v l_def] doy_bounds [OF pv(1) l'_def] by (simp_all add: k_def k'_def)
  define t0 where "t0 = MakeDate N (MakeTime 12 0 0 0)"
  define t1 where "t1 = MakeDate N' (MakeTime 12 0 0 0)"
  have parse: "parse_ymd (iso_date (y, m, d)) = Some (int y, int m, int d)"
    using hi m d d31 by (intro parse_iso_date) simp_all
  have md: "MakeDay (int y) (int m - 1) dt = N - int d + dt" for dt
    by (simp add: MakeDay_valid [OF m] N_def k_def l_def)
  have clip0: "TimeClip t0 = Some t0"
    unfolding t0_def N_def using lo hi kb by (intro TimeClip_noon) simp_all
  have clip1: "TimeClip t1 = Some t1"
    unfolding t1_def N'_def using y' kb by (intro TimeClip_noon) simp_all
  have utc: "Date_UTC (int y) (int m - 1) (int d) 12 0 0 = Some t0"
    using lo by (simp add: Date_UTC_def md clip0 [unfolded t0_def] t0_def)
  have dec0: "YearFromTime t0 = int y \<and> MonthFromTime t0 = int m - 1 \<and> DateFromTime t0 = int d"
    by (rule decode_valid [OF v l_def]) (simp add: t0_def DayNumber_noon N_def k_def)
  have set: "setUTCDate t0 (DateFromTime t0 - 1) = Some t1"
    using dec0 clip1
    by (simp add: setUTCDate_def md t0_def TimeWithinDay_noon t1_def NN)
  have dec1: "YearFromTime t1 = int y' \<and> MonthFromTime t1 = int m' - 1 \<and> DateFromTime t1 = int d'"
    by (rule decode_valid [OF pv(1) l'_def]) (simp add: t1_def DayNumber_noon N'_def k'_def)
  have fmt: "js_String (int y') @ ''-'' @ padStart 2 CHR ''0'' (js_String (int m')) @ ''-''
           @ padStart 2 CHR ''0'' (js_String (int d')) = iso_date (y', m', d')"
    using y' m' d' d31' by (intro format_iso_date) simp_all
  show ?thesis
    unfolding addDaysIso_def parse p
    using fmt by (simp add: utc set dec1)
qed

lemma realDateForStart_hhmm:
  assumes "h < 100" "mi < 100"
  shows "realDateForStart uiDate (hhmm h mi) =
           (if h < 6 then addDaysIso uiDate (- 1) else Some uiDate)"
proof -
  have "take 2 (hhmm h mi) = [digit_char (h div 10), digit_char (h mod 10)]"
    by (simp add: hhmm_def)
  moreover have "js_Number [digit_char (h div 10), digit_char (h mod 10)] = Some (int h)"
    using assms js_Number_2 [of "h div 10" "h mod 10"] by simp
  ultimately show ?thesis
    by (simp add: realDateForStart_def)
qed





section \<open>Properties of the calendar and slot model\<close>

lemma STARTS_hhmm: "STARTS = map (\<lambda>h. hhmm h 0) [6, 8, 10, 12, 14, 16, 18, 20, 22, 0, 2, 4]"
  by (simp add: STARTS_def hhmm_def digit_char_def)

text \<open>
  Where the code keeps the rule of the real date. A slot start at or after 06:00 has the
  display text itself for its real date, whatever that text is. A slot start before 06:00
  has the day before the display date, for every display date of the Gregorian calendar
  from 1000-01-02 to 9999-12-31; of the twelve slots of the grid the starts below 6 are
  00:00, 02:00 and 04:00.
\<close>

lemma real_date_same_day:
  assumes "6 \<le> h" "h < 100" "mi < 100"
  shows "realDateForStart uiDate (hhmm h mi) = Some uiDate"
  using assms by (simp add: realDateForStart_hhmm)

lemma real_date_previous_day:
  assumes "valid_date y m d" "1000 \<le> y" "y \<le> 9999" "(y, m, d) \<noteq> (1000, 1, 1)"
  shows "(h < 100 \<and> mi < 100 \<longrightarrow>
           realDateForStart (iso_date (y, m, d)) (hhmm h mi) =
             Some (if h < 6 then iso_date (prev_day (y, m, d)) else iso_date (y, m, d)))
       \<and> (\<forall>st \<in> set STARTS.
           realDateForStart (iso_date (y, m, d)) st =
             Some (if st \<in> {''00:00'', ''02:00'', ''04:00''} then iso_date (prev_day (y, m, d))
                   else iso_date (y, m, d)))"
proof -
  note prev = addDaysIso_prev [OF assms]
  have one: "h < 100 \<and> mi < 100 \<longrightarrow>
           realDateForStart (iso_date (y, m, d)) (hhmm h mi) =
             Some (if h < 6 then iso_date (prev_day (y, m, d)) else iso_date (y, m, d))"
    by (simp add: realDateForStart_hhmm prev)
  have hh: "hhmm 0 0 = ''00:00''" "hhmm 2 0 = ''02:00''" "hhmm 4 0 = ''04:00''"
    "hhmm 6 0 = ''06:00''" "hhmm 8 0 = ''08:00''" "hhmm 10 0 = ''10:00''"
    "hhmm 12 0 = ''12:00''" "hhmm 14 0 = ''14:00''" "hhmm 16 0 = ''16:00''"
    "hhmm 18 0 = ''18:00''" "hhmm 20 0 = ''20:00''" "hhmm 22 0 = ''22:00''"
    by (simp_all add: hhmm_def digit_char_def)
  have r: "realDateForStart (iso_date (y, m, d)) (hhmm k 0) =
             Some (if k < 6 then iso_date (prev_day (y, m, d)) else iso_date (y, m, d))"
    if "k < 100" for k
    using that by (simp add: realDateForStart_hhmm prev)
  have all: "\<forall>st \<in> set STARTS.
           realDateForStart (iso_date (y, m, d)) st =
             Some (if st \<in> {''00:00'', ''02:00'', ''04:00''} then iso_date (prev_day (y, m, d))
                   else iso_date (y, m, d))"
    by (simp add: STARTS_def, unfold hh [symmetric], simp add: r)
  from one all show ?thesis ..
qed

lemma real_date_examples:
  "valid_date 2025 1 20
   \<and> iso_date (2025, 1, 20) = ''2025-01-20''
   \<and> realDateForStart ''2025-01-20'' ''02:00'' = Some ''2025-01-19''
   \<and> realDateForStart ''2025-01-20'' ''06:00'' = Some ''2025-01-20''
   \<and> realDateForStart ''2024-03-01'' ''04:00'' = Some ''2024-02-29''
   \<and> realDateForStart ''2025-01-01'' ''00:00'' = Some ''2024-12-31''"
proof -
  have v: "valid_date 2025 1 20" "valid_date 2024 3 1" "valid_date 2025 1 1"
    by (simp_all add: valid_date_def days_in_month_def)
  have i: "iso_date (2025, 1, 20) = ''2025-01-20''" "iso_date (2024, 3, 1) = ''2024-03-01''"
    "iso_date (2025, 1, 1) = ''2025-01-01''" "iso_date (2025, 1, 19) = ''2025-01-19''"
    "iso_date (2024, 2, 29) = ''2024-02-29''" "iso_date (2024, 12, 31) = ''2024-12-31''"
    by (simp_all add: iso_date_def digit_char_def)
  have p: "prev_day (2025, 1, 20) = (2025, 1, 19)" "prev_day (2024, 3, 1) = (2024, 2, 29)"
    "prev_day (2025, 1, 1) = (2024, 12, 31)"
    by (simp_all add: prev_day_def days_in_month_def leap_year_def)
  have s: "''02:00'' \<in> set STARTS" "''06:00'' \<in> set STARTS" "''04:00'' \<in> set STARTS"
    "''00:00'' \<in> set STARTS"
    by (simp_all add: STARTS_def)
  have n: "(1000::nat) \<le> 2025" "(2025::nat) \<le> 9999" "(2025::nat, 1::nat, 20::nat) \<noteq> (1000, 1, 1)"
    "(1000::nat) \<le> 2024" "(2024::nat) \<le> 9999" "(2024::nat, 3::nat, 1::nat) \<noteq> (1000, 1, 1)"
    "(2025::nat, 1::nat, 1::nat) \<noteq> (1000, 1, 1)"
    by simp_all
  show ?thesis
    using real_date_previous_day [OF v(1) n(1,2,3), THEN conjunct2, THEN bspec, OF s(1)]
      real_date_previous_day [OF v(1) n(1,2,3), THEN conjunct2, THEN bspec, OF s(2)]
      real_date_previous_day [OF v(2) n(4,5,6), THEN conjunct2, THEN bspec, OF s(3)]
      real_date_previous_day [OF v(3) n(1,2,7), THEN conjunct2, THEN bspec, OF s(4)]
    unfolding i p using v(1) by simp
qed

lemma two_digit_year_run:
  "isIsoDate ''0050-03-10''"
  "iso_date (50, 3, 10) = ''0050-03-10''"
  "valid_date 50 3 10"
  "iso_date (prev_day (50, 3, 10)) = ''0050-03-09''"
  by (simp_all add: isIsoDate_def is_digit_def iso_date_def digit_char_def valid_date_def
      days_in_month_def prev_day_def)

lemma two_digit_year_real_date:
  "realDateForStart ''0050-03-10'' ''02:00'' = Some ''1950-03-09''"
  by code_simp

lemma two_digit_year_same_day:
  "realDateForStart ''0050-03-10'' ''06:00'' = Some ''0050-03-10''"
  using real_date_same_day [of 6 0 "''0050-03-10''"] by (simp add: hhmm_def digit_char_def)

text \<open>
  Claim C3 says that the real date of a slot start below 6 is the display date minus one
  day, and so does the comment of \<^verbatim>\<open>realDateForStart\<close>. The code misses it on the display
  dates of the first century, which \<^verbatim>\<open>isIsoDate\<close> accepts: \<^verbatim>\<open>Date.UTC\<close> reads a year from 0 to
  99 as 1900 + year. For the display date 0050-03-10, a date of the calendar whose day
  before is 0050-03-09, the slot 02:00 gets the real date 1950-03-09, while the slot 06:00
  keeps 0050-03-10.
\<close>

theorem real_date_two_digit_year:
  "isIsoDate ''0050-03-10''
   \<and> iso_date (50, 3, 10) = ''0050-03-10''
   \<and> valid_date 50 3 10
   \<and> iso_date (prev_day (50, 3, 10)) = ''0050-03-09''
   \<and> realDateForStart ''0050-03-10'' ''02:00'' = Some ''1950-03-09''
   \<and> realDateForStart ''0050-03-10'' ''02:00'' \<noteq> Some (iso_date (prev_day (50, 3, 10)))
   \<and> realDateForStart ''0050-03-10'' ''06:00'' = Some ''0050-03-10''"
  by (simp add: two_digit_year_run two_digit_year_real_date two_digit_year_same_day)


lemma js_str_lt_iff_lexord:
  "js_str_lt x y \<longleftrightarrow> (x, y) \<in> lexord code_unit_less"
  unfolding code_unit_less_def by (rule js_str_lt_lexord)

lemma pickElite_band:
  "pickEliteServiceId config rd st = Some (Inr sid) \<Longrightarrow>
     \<exists>dt. getDayType rd = Some dt \<and> elite_services config dt (getDayBand st) = Some sid"
  by (auto simp add: pickEliteServiceId_def Let_def no_id_def split: option.splits if_splits)

lemma pickComfort_band:
  "pickComfortServiceId config g rd st = Some (Inr sid) \<Longrightarrow>
     \<exists>dt. getDayType rd = Some dt \<and> comfort_services config g dt (getDayBand st) = Some sid"
  by (auto simp add: pickComfortServiceId_def Let_def no_id_def split: option.splits if_splits)

lemma slotTime_0600_120: "slotTime1 (Whole 120) ''06:00'' = Some ''08:00''"
  by code_simp






lemma monday_weekday: "getDayType ''2025-01-20'' = Some Weekday"
  by code_simp









section \<open>Properties of the pooled grid\<close>


lemma comfort_count_counts:
  "comfort_count config idxByPair st rd t1 t2 rs (fc, bc, mp) = Some (Inr (fc', bc', mp')) \<Longrightarrow>
     fc' = fc + length (filter (\<lambda>r. verdict_in_slot config idxByPair st rd t1 t2 r = Some Free) rs)
     \<and> bc' = bc + length (filter (\<lambda>r. verdict_in_slot config idxByPair st rd t1 t2 r = Some Busy
                                    \<or> verdict_in_slot config idxByPair st rd t1 t2 r = Some Missing) rs)"
proof (induction rs arbitrary: fc bc mp)
  case Nil
  then show ?case by simp
next
  case (Cons r rs)
  from Cons.prems obtain sid where
    sid: "pickComfortServiceId config (group' r) rd st = Some (Inr sid)"
    by (auto split: option.splits sum.splits)
  define v where "v = room_status (room_verdict idxByPair sid r rd t1 t2)"
  have vr: "verdict_in_slot config idxByPair st rd t1 t2 r = Some v"
    by (simp add: verdict_in_slot_def sid v_def)
  show ?case
  proof (cases "v = Free")
    case True
    with Cons.prems sid obtain mp1 where
      "comfort_count config idxByPair st rd t1 t2 rs (fc + 1, bc, mp1) = Some (Inr (fc', bc', mp'))"
      by (auto simp add: v_def Let_def)
    from Cons.IH [OF this] True show ?thesis by (simp add: vr)
  next
    case False
    with Cons.prems sid have
      "comfort_count config idxByPair st rd t1 t2 rs (fc, bc + 1, mp) = Some (Inr (fc', bc', mp'))"
      by (auto simp add: v_def)
    from Cons.IH [OF this] False show ?thesis by (cases v) (simp_all add: vr)
  qed
qed

lemma filter_partition_length:
  "length (filter (\<lambda>r. f r = Some Free) rs)
     + length (filter (\<lambda>r. f r = Some Busy \<or> f r = Some Missing) rs) \<le> length rs"
  by (induction rs) auto

lemma comfort_count_total:
  "comfort_count config idxByPair st rd t1 t2 rs (fc, bc, mp) = Some (Inr (fc', bc', mp')) \<Longrightarrow>
     fc' + bc' = fc + bc + length rs"
proof (induction rs arbitrary: fc bc mp)
  case Nil
  then show ?case by simp
next
  case (Cons r rs)
  from Cons.prems obtain sid where
    sid: "pickComfortServiceId config (group' r) rd st = Some (Inr sid)"
    by (auto split: option.splits sum.splits)
  show ?case
  proof (cases "room_status (room_verdict idxByPair sid r rd t1 t2) = Free")
    case True
    with Cons.prems sid obtain mp1 where
      "comfort_count config idxByPair st rd t1 t2 rs (fc + 1, bc, mp1) = Some (Inr (fc', bc', mp'))"
      by (auto simp add: Let_def)
    from Cons.IH [OF this] show ?thesis by simp
  next
    case False
    with Cons.prems sid have
      "comfort_count config idxByPair st rd t1 t2 rs (fc, bc + 1, mp) = Some (Inr (fc', bc', mp'))"
      by auto
    from Cons.IH [OF this] show ?thesis by simp
  qed
qed

lemma comfort_slot_cell:
  assumes "comfort_slot off config comfort idxByPair uiDate st = Some (Inr c)"
  shows "\<exists>rd t1 t2.
      realDateForStart uiDate st = Some rd \<and> slotTime1 off st = Some t1 \<and> slotTime2 off st = Some t2
      \<and> free_count c =
          length (filter (\<lambda>r. verdict_in_slot config idxByPair st rd t1 t2 r = Some Free) comfort)
      \<and> busy_count c =
          length (filter (\<lambda>r. verdict_in_slot config idxByPair st rd t1 t2 r = Some Busy
                            \<or> verdict_in_slot config idxByPair st rd t1 t2 r = Some Missing) comfort)
      \<and> total_count c = length comfort
      \<and> free_count c + busy_count c = total_count c"
proof -
  from assms obtain rd t1 t2 fc bc mp where
    a: "realDateForStart uiDate st = Some rd" "slotTime1 off st = Some t1" "slotTime2 off st = Some t2"
    "comfort_count config idxByPair st rd t1 t2 comfort (0, 0, None) = Some (Inr (fc, bc, mp))"
    "c = \<lparr>free_count = fc, busy_count = bc, total_count = length comfort, min_price = mp\<rparr>"
    by (auto simp add: comfort_slot_def split: option.splits sum.splits)
  from comfort_count_counts [OF a(4)] comfort_count_total [OF a(4)] a(1,2,3,5)
  show ?thesis by simp
qed

lemma set_map_set: "set (map_set g k v) \<subseteq> insert (k, v) (set g)"
  by (induction g k v rule: map_set.induct) auto

lemma keys_map_set:
  "map fst (map_set g k v) = (if k \<in> set (map fst g) then map fst g else map fst g @ [k])"
  by (induction g k v rule: map_set.induct) auto

lemma comfort_grid_cells:
  "comfort_grid off config comfort idxByPair uiDate starts g = Some (Inr g') \<Longrightarrow>
     (k, c) \<in> set g' \<Longrightarrow>
     (k, c) \<in> set g \<or> comfort_slot off config comfort idxByPair uiDate k = Some (Inr c)"
proof (induction starts arbitrary: g)
  case Nil
  then show ?case by simp
next
  case (Cons st starts)
  from Cons.prems(1) obtain c1 where
    c1: "comfort_slot off config comfort idxByPair uiDate st = Some (Inr c1)"
    and rest: "comfort_grid off config comfort idxByPair uiDate starts (map_set g st c1) = Some (Inr g')"
    by (auto split: option.splits sum.splits)
  from Cons.IH [OF rest Cons.prems(2)] show ?case
    using set_map_set [of g st c1] c1 by auto
qed

lemma comfort_grid_keys:
  "comfort_grid off config comfort idxByPair uiDate starts g = Some (Inr g') \<Longrightarrow>
     distinct (map fst g @ starts) \<Longrightarrow> map fst g' = map fst g @ starts"
proof (induction starts arbitrary: g)
  case Nil
  then show ?case by simp
next
  case (Cons st starts)
  from Cons.prems(1) obtain c1 where
    rest: "comfort_grid off config comfort idxByPair uiDate starts (map_set g st c1) = Some (Inr g')"
    by (auto split: option.splits sum.splits)
  have k: "map fst (map_set g st c1) = map fst g @ [st]"
    using Cons.prems(2) by (simp add: keys_map_set)
  have "distinct (map fst (map_set g st c1) @ starts)"
    using Cons.prems(2) unfolding k by simp
  from Cons.IH [OF rest this] show ?case by (simp add: k)
qed

lemma distinct_STARTS: "distinct STARTS"
  by (simp add: STARTS_def)

lemma comfort_handler_grid:
  assumes "availability_grid_comfort e req = Some r" "body r = Comfort_body p"
  shows "\<exists>config sd ed meta pairs idxByPair.
      loadConfig e = Inr config
      \<and> fst (splitRooms (rooms config)) \<noteq> []
      \<and> addDaysIso (req_date req) (- 1) = Some sd \<and> addDaysIso (req_date req) 1 = Some ed
      \<and> comfort_resolve config (fst (splitRooms (rooms config))) (req_date req) STARTS ([], [])
            = Some (Inr (meta, pairs))
      \<and> fetch_all e (req_club_id req) sd ed pairs = Inr idxByPair
      \<and> comfort_grid (SLOT_OFFSET_MINUTES e) config (fst (splitRooms (rooms config))) idxByPair
            (req_date req) STARTS [] = Some (Inr (grid p))
      \<and> code r = 200"
  using assms
  by (auto simp add: availability_grid_comfort_def comfort_try_def error_response_def Let_def
      split: if_splits option.splits sum.splits prod.splits)

lemma pool_split: "splitRooms (rooms pool_config) = (pool_rooms, Some \<lparr>id' = ''e1'', title = ''E'', type' = ''elite'', group' = ''''\<rparr>)"
  by (simp add: splitRooms_def pool_config_def pool_rooms_def)

lemma jan20_range:
  "addDaysIso ''2025-01-20'' (- 1) = Some ''2025-01-19''"
  "addDaysIso ''2025-01-20'' 1 = Some ''2025-01-21''"
  by code_simp+

lemma jan20_iso: "isIsoDate ''2025-01-20''"
  by (simp add: isIsoDate_def is_digit_def)

lemma jan20_day_types:
  "getDayType ''2025-01-20'' = Some Weekday"
  "getDayType ''2025-01-19'' = Some Weekend"
  by code_simp+

lemma jan20_real_dates:
  "realDateForStart ''2025-01-20'' ''06:00'' = Some ''2025-01-20''"
  "realDateForStart ''2025-01-20'' ''08:00'' = Some ''2025-01-20''"
  "realDateForStart ''2025-01-20'' ''10:00'' = Some ''2025-01-20''"
  "realDateForStart ''2025-01-20'' ''12:00'' = Some ''2025-01-20''"
  "realDateForStart ''2025-01-20'' ''14:00'' = Some ''2025-01-20''"
  "realDateForStart ''2025-01-20'' ''16:00'' = Some ''2025-01-20''"
  "realDateForStart ''2025-01-20'' ''18:00'' = Some ''2025-01-20''"
  "realDateForStart ''2025-01-20'' ''20:00'' = Some ''2025-01-20''"
  "realDateForStart ''2025-01-20'' ''22:00'' = Some ''2025-01-20''"
  "realDateForStart ''2025-01-20'' ''00:00'' = Some ''2025-01-19''"
  "realDateForStart ''2025-01-20'' ''02:00'' = Some ''2025-01-19''"
  "realDateForStart ''2025-01-20'' ''04:00'' = Some ''2025-01-19''"
  by (simp_all add: realDateForStart_def js_Number_def is_digit_def digit_val_def jan20_range)

lemma offset0_times:
  "slotTime1 (Whole 0) ''06:00'' = Some ''06:00''" "slotTime2 (Whole 0) ''06:00'' = Some ''07:00''"
  "slotTime1 (Whole 0) ''08:00'' = Some ''08:00''" "slotTime2 (Whole 0) ''08:00'' = Some ''09:00''"
  "slotTime1 (Whole 0) ''10:00'' = Some ''10:00''" "slotTime2 (Whole 0) ''10:00'' = Some ''11:00''"
  "slotTime1 (Whole 0) ''12:00'' = Some ''12:00''" "slotTime2 (Whole 0) ''12:00'' = Some ''13:00''"
  "slotTime1 (Whole 0) ''14:00'' = Some ''14:00''" "slotTime2 (Whole 0) ''14:00'' = Some ''15:00''"
  "slotTime1 (Whole 0) ''16:00'' = Some ''16:00''" "slotTime2 (Whole 0) ''16:00'' = Some ''17:00''"
  "slotTime1 (Whole 0) ''18:00'' = Some ''18:00''" "slotTime2 (Whole 0) ''18:00'' = Some ''19:00''"
  "slotTime1 (Whole 0) ''20:00'' = Some ''20:00''" "slotTime2 (Whole 0) ''20:00'' = Some ''21:00''"
  "slotTime1 (Whole 0) ''22:00'' = Some ''22:00''" "slotTime2 (Whole 0) ''22:00'' = Some ''23:00''"
  "slotTime1 (Whole 0) ''00:00'' = Some ''00:00''" "slotTime2 (Whole 0) ''00:00'' = Some ''01:00''"
  "slotTime1 (Whole 0) ''02:00'' = Some ''02:00''" "slotTime2 (Whole 0) ''02:00'' = Some ''03:00''"
  "slotTime1 (Whole 0) ''04:00'' = Some ''04:00''" "slotTime2 (Whole 0) ''04:00'' = Some ''05:00''"
  by code_simp+

lemma pool_pick:
  "pickComfortServiceId pool_config g ''2025-01-20'' st = Some (Inr (if g = ''g1'' then ''s1'' else ''s2''))"
  "pickComfortServiceId pool_config g ''2025-01-19'' st = Some (Inr (if g = ''g1'' then ''s1'' else ''s2''))"
  by (simp_all add: pickComfortServiceId_def jan20_day_types pool_config_def no_id_def Let_def)

lemma pool_resolve:
  "map_option (map_sum id snd)
     (comfort_resolve pool_config pool_rooms ''2025-01-20'' STARTS ([], [])) = Some (Inr pool_pairs)"
  by (simp add: STARTS_def pool_rooms_def jan20_real_dates pool_pick pair_key_def pool_pairs_def)

lemma pool_fetch:
  "fetch_all pool_env ''club'' ''2025-01-19'' ''2025-01-21'' pool_pairs = Inr pool_index"
  by (simp add: fetch_all_def queries_issued_def pool_pairs_def pool_env_def
      fetchIndexedRentalTimes_def apiGet_def extractUpstreamError_def pair_key_def pool_index_def)

lemma pool_facts:
  "body pool_response = Comfort_body pool_payload"
  "loadConfig pool_env = Inr pool_config"
  "pool_rooms = fst (splitRooms (rooms pool_config))"
  "grid pool_payload = pool_grid"
  "req_date pool_request = ''2025-01-20''"
  "req_club_id pool_request = ''club''"
  "SLOT_OFFSET_MINUTES pool_env = Whole 0"
  "length pool_rooms = 3"
  by (simp_all add: pool_response_def pool_env_def pool_split pool_payload_def pool_request_def
      pool_rooms_def)

lemma pool_verdicts:
  "verdict_in_slot pool_config pool_index ''02:00'' ''2025-01-19'' ''02:00'' ''03:00''
     \<lparr>id' = ''r1'', title = ''A'', type' = ''comfort'', group' = ''g1''\<rparr> = Some Missing"
  "verdict_in_slot pool_config pool_index ''02:00'' ''2025-01-19'' ''02:00'' ''03:00''
     \<lparr>id' = ''r2'', title = ''B'', type' = ''comfort'', group' = ''g1''\<rparr> = Some Missing"
  "verdict_in_slot pool_config pool_index ''02:00'' ''2025-01-19'' ''02:00'' ''03:00''
     \<lparr>id' = ''r3'', title = ''C'', type' = ''comfort'', group' = ''g2''\<rparr> = Some Free"
  by (simp_all add: verdict_in_slot_def pool_pick room_verdict_def room_probes_def pool_index_def
      pair_key_def probe_at_def third_room_index_def free_900_def slotInfo_def isFreeItem_def
      evaluateRoomStatus_def)

lemma pool_slots:
  "comfort_slot (Whole 0) pool_config pool_rooms pool_index ''2025-01-20'' ''02:00''
     = Some (Inr \<lparr>free_count = 1, busy_count = 2, total_count = 3, min_price = Some (Finite 900)\<rparr>)"
  "st \<in> set STARTS \<Longrightarrow> st \<noteq> ''02:00'' \<Longrightarrow>
     comfort_slot (Whole 0) pool_config pool_rooms pool_index ''2025-01-20'' st = Some (Inr all_busy)"
  by (auto simp add: STARTS_def comfort_slot_def jan20_real_dates offset0_times pool_rooms_def
      pool_pick room_verdict_def room_probes_def pool_index_def
      pair_key_def probe_at_def third_room_index_def free_900_def slotInfo_def isFreeItem_def
      evaluateRoomStatus_def pickPrice_def numeric_price_def all_busy_def)

lemma pool_grid_run:
  "comfort_grid (Whole 0) pool_config pool_rooms pool_index ''2025-01-20'' STARTS [] = Some (Inr pool_grid)"
  unfolding STARTS_def
  by (simp add: pool_slots STARTS_def pool_grid_def)

lemma pool_run: "availability_grid_comfort pool_env pool_request = Some pool_response"
proof -
  from pool_resolve obtain meta where
    r: "comfort_resolve pool_config pool_rooms ''2025-01-20'' STARTS ([], []) = Some (Inr (meta, pool_pairs))"
    by (cases "comfort_resolve pool_config pool_rooms ''2025-01-20'' STARTS ([], [])")
       (auto simp add: map_sum_def split: sum.splits)
  have e: "loadConfig pool_env = Inr pool_config" "SLOT_OFFSET_MINUTES pool_env = Whole 0"
    by (simp_all add: pool_env_def)
  have n: "pool_rooms \<noteq> []" by (simp add: pool_rooms_def)
  show ?thesis
    unfolding availability_grid_comfort_def comfort_try_def
    by (simp add: pool_request_def jan20_iso jan20_range e pool_split r pool_fetch pool_grid_run
        pool_response_def pool_payload_def n Let_def)
qed

text \<open>
  Claim C9. Every cell of a grid that the pooled handler returns has
  \<open>free_count + busy_count = total_count\<close>, and \<open>total_count\<close> is the number of comfort
  rooms: every room is counted in exactly one of the two counters, on each of the twelve
  slots.
\<close>

theorem pooled_counts_total:
  assumes "availability_grid_comfort e req = Some r" "body r = Comfort_body p"
    and "loadConfig e = Inr config"
  shows "map fst (grid p) = STARTS
       \<and> (\<forall>(st, c) \<in> set (grid p).
            free_count c + busy_count c = total_count c
            \<and> total_count c = length (fst (splitRooms (rooms config))))"
proof -
  from comfort_handler_grid [OF assms(1,2)] assms(3) obtain idxByPair where
    g: "comfort_grid (SLOT_OFFSET_MINUTES e) config (fst (splitRooms (rooms config))) idxByPair
          (req_date req) STARTS [] = Some (Inr (grid p))"
    by auto
  have k: "map fst (grid p) = STARTS"
    using comfort_grid_keys [OF g] distinct_STARTS by simp
  have "free_count c + busy_count c = total_count c
        \<and> total_count c = length (fst (splitRooms (rooms config)))"
    if "(st, c) \<in> set (grid p)" for st c
    using comfort_grid_cells [OF g that] comfort_slot_cell [of _ config _ idxByPair _ st c]
    by auto
  with k show ?thesis by auto
qed

theorem pooled_counts_total_witness:
  "availability_grid_comfort pool_env pool_request = Some pool_response
   \<and> map fst pool_grid = STARTS
   \<and> list_all (\<lambda>(st, c). free_count c + busy_count c = total_count c \<and> total_count c = 3)
        pool_grid"
  using pooled_counts_total [OF pool_run pool_facts(1,2)]
  unfolding pool_facts(3) [symmetric] pool_facts(4,8)
  by (simp add: pool_run list_all_iff)

text \<open>
  Claim C1, amended. In every cell of a grid that the pooled handler returns,
  \<open>free_count\<close> is the number of rooms whose verdict in the slot is free, \<open>busy_count\<close> is
  the number of all other rooms, those whose verdict is busy and those whose verdict is
  missing, and \<open>total_count\<close> is the number of rooms of the pool. With two rooms missing
  and one free the cell is \<open>{free_count: 1, busy_count: 2, total_count: 3}\<close>.
\<close>

theorem pooled_missing_counts_as_busy:
  assumes "availability_grid_comfort e req = Some r" "body r = Comfort_body p"
    and "loadConfig e = Inr config" "comfort = fst (splitRooms (rooms config))"
  shows "\<exists>sd ed meta pairs idxByPair.
           comfort_resolve config comfort (req_date req) STARTS ([], []) = Some (Inr (meta, pairs))
         \<and> fetch_all e (req_club_id req) sd ed pairs = Inr idxByPair
         \<and> (\<forall>(st, c) \<in> set (grid p). \<exists>rd t1 t2.
               realDateForStart (req_date req) st = Some rd
             \<and> slotTime1 (SLOT_OFFSET_MINUTES e) st = Some t1
             \<and> slotTime2 (SLOT_OFFSET_MINUTES e) st = Some t2
             \<and> free_count c =
                 length (filter (\<lambda>room. verdict_in_slot config idxByPair st rd t1 t2 room = Some Free)
                           comfort)
             \<and> busy_count c =
                 length (filter (\<lambda>room. verdict_in_slot config idxByPair st rd t1 t2 room = Some Busy
                                     \<or> verdict_in_slot config idxByPair st rd t1 t2 room = Some Missing)
                           comfort)
             \<and> total_count c = length comfort)"
proof -
  from comfort_handler_grid [OF assms(1,2)] assms(3,4) obtain sd ed meta pairs idxByPair where
    a: "comfort_resolve config comfort (req_date req) STARTS ([], []) = Some (Inr (meta, pairs))"
      "fetch_all e (req_club_id req) sd ed pairs = Inr idxByPair"
      "comfort_grid (SLOT_OFFSET_MINUTES e) config comfort idxByPair
          (req_date req) STARTS [] = Some (Inr (grid p))"
    by auto
  have "\<exists>rd t1 t2.
               realDateForStart (req_date req) st = Some rd
             \<and> slotTime1 (SLOT_OFFSET_MINUTES e) st = Some t1
             \<and> slotTime2 (SLOT_OFFSET_MINUTES e) st = Some t2
             \<and> free_count c =
                 length (filter (\<lambda>room. verdict_in_slot config idxByPair st rd t1 t2 room = Some Free)
                           comfort)
             \<and> busy_count c =
                 length (filter (\<lambda>room. verdict_in_slot config idxByPair st rd t1 t2 room = Some Busy
                                     \<or> verdict_in_slot config idxByPair st rd t1 t2 room = Some Missing)
                           comfort)
             \<and> total_count c = length comfort"
    if "(st, c) \<in> set (grid p)" for st c
  proof -
    from comfort_grid_cells [OF a(3) that]
    have "comfort_slot (SLOT_OFFSET_MINUTES e) config comfort idxByPair (req_date req) st = Some (Inr c)"
      by simp
    from comfort_slot_cell [OF this] show ?thesis by blast
  qed
  with a(1,2) show ?thesis by blast
qed

theorem pooled_missing_counts_as_busy_witness:
  "availability_grid_comfort pool_env pool_request = Some pool_response
   \<and> (\<exists>sd ed meta pairs idxByPair.
        comfort_resolve pool_config pool_rooms ''2025-01-20'' STARTS ([], []) = Some (Inr (meta, pairs))
      \<and> fetch_all pool_env ''club'' sd ed pairs = Inr idxByPair
      \<and> (\<forall>(st, c) \<in> set pool_grid. \<exists>rd t1 t2.
               realDateForStart ''2025-01-20'' st = Some rd
             \<and> slotTime1 (Whole 0) st = Some t1
             \<and> slotTime2 (Whole 0) st = Some t2
             \<and> free_count c =
                 length (filter (\<lambda>room. verdict_in_slot pool_config idxByPair st rd t1 t2 room = Some Free)
                           pool_rooms)
             \<and> busy_count c =
                 length (filter (\<lambda>room. verdict_in_slot pool_config idxByPair st rd t1 t2 room = Some Busy
                                     \<or> verdict_in_slot pool_config idxByPair st rd t1 t2 room = Some Missing)
                           pool_rooms)
             \<and> total_count c = length pool_rooms))
   \<and> cell_at (availability_grid_comfort pool_env pool_request) ''02:00''
       = Some \<lparr>free_count = 1, busy_count = 2, total_count = 3, min_price = Some (Finite 900)\<rparr>"
proof -
  have c: "cell_at (Some pool_response) ''02:00''
       = Some \<lparr>free_count = 1, busy_count = 2, total_count = 3, min_price = Some (Finite 900)\<rparr>"
    by (simp add: cell_at_def pool_response_def pool_payload_def pool_grid_def)
  show ?thesis
    using pooled_missing_counts_as_busy [OF pool_run pool_facts(1,2,3)]
    unfolding pool_facts(4,5,6,7)
    by (simp add: pool_run c)
qed

text \<open>
  The claim as it stands says \<open>busy_count = 0\<close> for this slot; the handler answers 2.
\<close>

theorem pooled_missing_excluded_counterexample:
  "verdict_in_slot pool_config pool_index ''02:00'' ''2025-01-19'' ''02:00'' ''03:00''
     \<lparr>id' = ''r1'', title = ''A'', type' = ''comfort'', group' = ''g1''\<rparr> = Some Missing
   \<and> verdict_in_slot pool_config pool_index ''02:00'' ''2025-01-19'' ''02:00'' ''03:00''
     \<lparr>id' = ''r2'', title = ''B'', type' = ''comfort'', group' = ''g1''\<rparr> = Some Missing
   \<and> verdict_in_slot pool_config pool_index ''02:00'' ''2025-01-19'' ''02:00'' ''03:00''
     \<lparr>id' = ''r3'', title = ''C'', type' = ''comfort'', group' = ''g2''\<rparr> = Some Free
   \<and> cell_at (availability_grid_comfort pool_env pool_request) ''02:00''
       = Some \<lparr>free_count = 1, busy_count = 2, total_count = 3, min_price = Some (Finite 900)\<rparr>
   \<and> cell_at (availability_grid_comfort pool_env pool_request) ''02:00''
       \<noteq> Some \<lparr>free_count = 1, busy_count = 0, total_count = 3, min_price = Some (Finite 900)\<rparr>"
  by (simp add: pool_verdicts pool_run cell_at_def pool_response_def pool_payload_def pool_grid_def)



section \<open>Properties of the upstream queries\<close>

lemma pairs_built_snoc:
  "pairs_built (ms @ [m]) = map_set (pairs_built ms) (key_of (pair_of m)) (pair_of m)"
  by (simp add: pairs_built_def)

lemma map_of_map_set: "map_of (map_set g k v) = (map_of g)(k \<mapsto> v)"
  by (induction g k v rule: map_set.induct) auto

lemma distinct_map_set: "distinct (map fst g) \<Longrightarrow> distinct (map fst (map_set g k v))"
  by (simp add: keys_map_set)

lemma snd_map_set_subset: "set (map snd (map_set g k v)) \<subseteq> insert v (set (map snd g))"
  by (induction g k v rule: map_set.induct) auto

lemma v_in_map_set: "v \<in> set (map snd (map_set g k v))"
  by (induction g k v rule: map_set.induct) auto

lemma snd_map_set_keep:
  "\<forall>(k', p) \<in> set g. k' = f p \<Longrightarrow> inj_on f (insert v (set (map snd g))) \<Longrightarrow>
     set (map snd g) \<subseteq> set (map snd (map_set g (f v) v))"
proof (induction g)
  case Nil
  then show ?case by simp
next
  case (Cons a g)
  obtain k' p where a: "a = (k', p)" by (cases a)
  from Cons.prems(1) a have k': "k' = f p" by simp
  show ?case
  proof (cases "k' = f v")
    case True
    have m: "p \<in> insert v (set (map snd (a # g)))" "v \<in> insert v (set (map snd (a # g)))"
      using a by simp_all
    have "f p = f v" using True k' by simp
    with Cons.prems(2) have "p = v" using m by (rule inj_onD)
    with True a show ?thesis by simp
  next
    case False
    have s: "insert v (set (map snd g)) \<subseteq> insert v (set (map snd (a # g)))" by auto
    have "inj_on f (insert v (set (map snd g)))"
      using Cons.prems(2) s by (rule inj_on_subset)
    moreover have "\<forall>(k', p) \<in> set g. k' = f p" using Cons.prems(1) by simp
    ultimately have "set (map snd g) \<subseteq> set (map snd (map_set g (f v) v))"
      by (intro Cons.IH)
    with False a show ?thesis by auto
  qed
qed

lemma keyed_map_set:
  "\<forall>(k', p) \<in> set g. k' = f p \<Longrightarrow> \<forall>(k', p) \<in> set (map_set g (f v) v). k' = f p"
  using set_map_set [of g "f v" v] by auto

lemma pairs_built_keyed: "\<forall>(k, p) \<in> set (pairs_built ms). k = key_of p"
proof (induction ms rule: rev_induct)
  case Nil
  show ?case by (simp add: pairs_built_def)
next
  case (snoc m ms)
  show ?case unfolding pairs_built_snoc by (rule keyed_map_set) (rule snoc.IH)
qed

lemma pairs_built_distinct_keys: "distinct (map fst (pairs_built ms))"
proof (induction ms rule: rev_induct)
  case Nil
  show ?case by (simp add: pairs_built_def)
next
  case (snoc m ms)
  show ?case unfolding pairs_built_snoc by (rule distinct_map_set) (rule snoc.IH)
qed

lemma pairs_built_subset: "set (map snd (pairs_built ms)) \<subseteq> pair_of ` set ms"
proof (induction ms rule: rev_induct)
  case Nil
  show ?case by (simp add: pairs_built_def)
next
  case (snoc m ms)
  show ?case unfolding pairs_built_snoc
    using snd_map_set_subset [of "pairs_built ms" "key_of (pair_of m)" "pair_of m"] snoc.IH
    by auto
qed

lemma pairs_built_cover:
  "inj_on key_of (pair_of ` set ms) \<Longrightarrow> pair_of ` set ms \<subseteq> set (map snd (pairs_built ms))"
proof (induction ms rule: rev_induct)
  case Nil
  show ?case by simp
next
  case (snoc m ms)
  have i: "inj_on key_of (pair_of ` set ms)"
    using snoc.prems by (rule inj_on_subset) auto
  have j: "inj_on key_of (insert (pair_of m) (set (map snd (pairs_built ms))))"
    using snoc.prems by (rule inj_on_subset) (use pairs_built_subset [of ms] in auto)
  have "set (map snd (pairs_built ms))
          \<subseteq> set (map snd (map_set (pairs_built ms) (key_of (pair_of m)) (pair_of m)))"
    using pairs_built_keyed [of ms] j by (rule snd_map_set_keep)
  with snoc.IH [OF i] v_in_map_set [of "pair_of m" "pairs_built ms" "key_of (pair_of m)"]
  show ?case unfolding pairs_built_snoc by auto
qed

lemma pairs_built_distinct: "distinct (map snd (pairs_built ms))"
proof -
  have "inj_on snd (set (pairs_built ms))"
  proof (rule inj_onI)
    fix x y
    assume x: "x \<in> set (pairs_built ms)" and y: "y \<in> set (pairs_built ms)" and e: "snd x = snd y"
    from pairs_built_keyed [of ms] x y have "fst x = key_of (snd x)" "fst y = key_of (snd y)"
      by auto
    with e show "x = y" by (simp add: prod_eq_iff)
  qed
  moreover have "distinct (pairs_built ms)"
    using pairs_built_distinct_keys [of ms] by (simp add: distinct_map)
  ultimately show ?thesis by (simp add: distinct_map)
qed

lemma comfort_resolve_rooms_inv:
  "comfort_resolve_rooms config st rd rs (meta0, pairs_built meta0) = Some (Inr (meta, pairs)) \<Longrightarrow>
     pairs = pairs_built meta
     \<and> (\<exists>ms. meta = meta0 @ ms
          \<and> list_all2 (\<lambda>m r. start m = st \<and> realDate m = rd \<and> room_id m = id' r
                \<and> pickComfortServiceId config (group' r) rd st = Some (Inr (service_id m))) ms rs)"
proof (induction rs arbitrary: meta0)
  case Nil
  then show ?case by auto
next
  case (Cons r rs)
  from Cons.prems obtain sid where
    sid: "pickComfortServiceId config (group' r) rd st = Some (Inr sid)"
    by (auto split: option.splits sum.splits)
  define m where "m = \<lparr>service_id = sid, room_id = id' r, start = st, realDate = rd\<rparr>"
  have b: "map_set (pairs_built meta0) (pair_key sid (id' r)) \<lparr>service_id = sid, room_id = id' r\<rparr>
             = pairs_built (meta0 @ [m])"
    by (simp add: pairs_built_snoc m_def pair_of_def key_of_def)
  from Cons.prems sid have
    "comfort_resolve_rooms config st rd rs (meta0 @ [m], pairs_built (meta0 @ [m]))
       = Some (Inr (meta, pairs))"
    using b by (simp add: m_def)
  from Cons.IH [OF this] obtain ms where
    ms: "pairs = pairs_built meta" "meta = (meta0 @ [m]) @ ms"
    "list_all2 (\<lambda>m r. start m = st \<and> realDate m = rd \<and> room_id m = id' r
        \<and> pickComfortServiceId config (group' r) rd st = Some (Inr (service_id m))) ms rs"
    by auto
  have "list_all2 (\<lambda>m r. start m = st \<and> realDate m = rd \<and> room_id m = id' r
        \<and> pickComfortServiceId config (group' r) rd st = Some (Inr (service_id m))) (m # ms) (r # rs)"
    using ms(3) sid by (simp add: m_def)
  with ms(1,2) show ?case by (intro conjI exI [of _ "m # ms"]) simp_all
qed

lemma comfort_resolve_inv:
  "comfort_resolve config comfort uiDate starts (meta0, pairs_built meta0) = Some (Inr (meta, pairs)) \<Longrightarrow>
     pairs = pairs_built meta
     \<and> (\<exists>ms. meta = meta0 @ ms
          \<and> map (\<lambda>m. (start m, room_id m)) ms = List.product starts (map id' comfort)
          \<and> list_all (resolved_for config comfort uiDate) ms)"
proof (induction starts arbitrary: meta0)
  case Nil
  then show ?case by auto
next
  case (Cons st starts)
  from Cons.prems obtain rd acc where
    rd: "realDateForStart uiDate st = Some rd"
    and inner: "comfort_resolve_rooms config st rd comfort (meta0, pairs_built meta0) = Some (Inr acc)"
    and rest: "comfort_resolve config comfort uiDate starts acc = Some (Inr (meta, pairs))"
    by (auto split: option.splits sum.splits)
  obtain meta1 pairs1 where acc: "acc = (meta1, pairs1)" by (cases acc)
  from comfort_resolve_rooms_inv [OF inner [unfolded acc]] obtain ms1 where
    ms1: "pairs1 = pairs_built meta1" "meta1 = meta0 @ ms1"
    "list_all2 (\<lambda>m r. start m = st \<and> realDate m = rd \<and> room_id m = id' r
        \<and> pickComfortServiceId config (group' r) rd st = Some (Inr (service_id m))) ms1 comfort"
    by auto
  from Cons.IH [OF rest [unfolded acc ms1(1)]] obtain ms2 where
    ms2: "pairs = pairs_built meta" "meta = meta1 @ ms2"
    "map (\<lambda>m. (start m, room_id m)) ms2 = List.product starts (map id' comfort)"
    "list_all (resolved_for config comfort uiDate) ms2"
    by auto
  have a: "map (\<lambda>m. (start m, room_id m)) ms1 = map (Pair st) (map id' comfort)"
    using ms1(3) by (induction ms1 comfort rule: list_all2_induct) simp_all
  have b: "list_all (resolved_for config comfort uiDate) ms1"
    unfolding list_all_iff
  proof
    fix m assume "m \<in> set ms1"
    then obtain i where i: "i < length ms1" "ms1 ! i = m" by (auto simp add: in_set_conv_nth)
    with ms1(3) have "start m = st \<and> realDate m = rd \<and> room_id m = id' (comfort ! i)
        \<and> pickComfortServiceId config (group' (comfort ! i)) rd st = Some (Inr (service_id m))"
      and "i < length comfort"
      by (auto simp add: list_all2_conv_all_nth)
    then show "resolved_for config comfort uiDate m"
      using rd by (auto simp add: resolved_for_def list_ex_iff intro!: bexI [of _ "comfort ! i"])
  qed
  show ?case
    using ms1(2) ms2 a b by (intro conjI exI [of _ "ms1 @ ms2"]) simp_all
qed

lemma elite_resolve_inv:
  "elite_resolve config eid uiDate starts (meta0, pairs_built meta0) = Some (Inr (meta, pairs)) \<Longrightarrow>
     pairs = pairs_built meta
     \<and> (\<exists>ms. meta = meta0 @ ms
          \<and> map start ms = starts
          \<and> list_all (\<lambda>m. room_id m = eid
                \<and> realDateForStart uiDate (start m) = Some (realDate m)
                \<and> pickEliteServiceId config (realDate m) (start m) = Some (Inr (service_id m))) ms)"
proof (induction starts arbitrary: meta0)
  case Nil
  then show ?case by auto
next
  case (Cons st starts)
  from Cons.prems obtain rd sid where
    rd: "realDateForStart uiDate st = Some rd"
    and sid: "pickEliteServiceId config rd st = Some (Inr sid)"
    by (auto split: option.splits sum.splits)
  define m where "m = \<lparr>service_id = sid, room_id = eid, start = st, realDate = rd\<rparr>"
  have b: "map_set (pairs_built meta0) (pair_key sid eid) \<lparr>service_id = sid, room_id = eid\<rparr>
             = pairs_built (meta0 @ [m])"
    by (simp add: pairs_built_snoc m_def pair_of_def key_of_def)
  from Cons.prems rd sid have
    "elite_resolve config eid uiDate starts (meta0 @ [m], pairs_built (meta0 @ [m]))
       = Some (Inr (meta, pairs))"
    using b by (simp add: m_def)
  from Cons.IH [OF this] obtain ms where
    ms: "pairs = pairs_built meta" "meta = (meta0 @ [m]) @ ms" "map start ms = starts"
    "list_all (\<lambda>m. room_id m = eid
                \<and> realDateForStart uiDate (start m) = Some (realDate m)
                \<and> pickEliteServiceId config (realDate m) (start m) = Some (Inr (service_id m))) ms"
    by auto
  show ?case
    using ms rd sid by (intro conjI exI [of _ "m # ms"]) (simp_all add: m_def)
qed

lemma pairs_built_Nil: "pairs_built [] = []"
  by (simp add: pairs_built_def)

lemma queries_issued_map:
  "queries_issued club sd ed pairs = map (query_of club sd ed) (map snd pairs)"
  by (simp add: queries_issued_def query_of_def)

lemma inj_query_of: "inj (query_of club sd ed)"
  by (rule injI) (simp add: query_of_def pair.equality)

lemma first_rejection_None:
  "first_rejection arr rs = None \<longleftrightarrow> (\<forall>x \<in> set rs. \<exists>b. snd x = Inr b)"
  by (induction arr rs rule: first_rejection.induct)
     (auto split: sum.splits option.splits if_splits)

lemma first_rejection_Some:
  "first_rejection arr rs = Some (q, e) \<Longrightarrow> (q, Inl e) \<in> set rs"
  by (induction arr rs arbitrary: q e rule: first_rejection.induct)
     (auto split: sum.splits option.splits if_splits)

lemma fetch_all_fails:
  assumes "q \<in> set (queries_issued club sd ed pairs)"
    "fetchIndexedRentalTimes (upstream e q) = Inl er0"
  shows "\<exists>q' er. q' \<in> set (queries_issued club sd ed pairs)
           \<and> fetchIndexedRentalTimes (upstream e q') = Inl er
           \<and> fetch_all e club sd ed pairs = Inl er"
proof -
  define results where
    "results = map (\<lambda>q. (q, fetchIndexedRentalTimes (upstream e q))) (queries_issued club sd ed pairs)"
  have "(q, Inl er0) \<in> set results" using assms by (auto simp add: results_def)
  then have "first_rejection (arrival e) results \<noteq> None"
    by (auto simp add: first_rejection_None intro!: bexI [of _ "(q, Inl er0)"])
  then obtain q' er where f: "first_rejection (arrival e) results = Some (q', er)" by auto
  from first_rejection_Some [OF f] have
    "q' \<in> set (queries_issued club sd ed pairs)" "fetchIndexedRentalTimes (upstream e q') = Inl er"
    by (auto simp add: results_def)
  moreover have "fetch_all e club sd ed pairs = Inl er"
    using f by (simp add: fetch_all_def results_def [symmetric])
  ultimately show ?thesis by blast
qed

lemma fulfilled_other:
  "k \<notin> (\<lambda>x. pair_key (service_id (fst x)) (room_id (fst x))) ` set rs \<Longrightarrow>
     map_of (fulfilled rs acc) k = map_of acc k"
  by (induction rs acc rule: fulfilled.induct) (auto simp add: map_of_map_set split: sum.splits)

lemma fulfilled_map_of:
  "distinct (map (\<lambda>x. pair_key (service_id (fst x)) (room_id (fst x))) rs) \<Longrightarrow>
     (q, Inr b) \<in> set rs \<Longrightarrow>
     map_of (fulfilled rs acc) (pair_key (service_id q) (room_id q)) = Some b"
proof (induction rs acc rule: fulfilled.induct)
  case (1 idxByPair)
  then show ?case by simp
next
  case (2 q' r rest idxByPair)
  show ?case
  proof (cases "(q, Inr b) = (q', r)")
    case True
    then have e: "q' = q" "r = Inr b" by simp_all
    have "pair_key (service_id q) (room_id q)
        \<notin> (\<lambda>x. pair_key (service_id (fst x)) (room_id (fst x))) ` set rest"
      using "2.prems"(1) e by auto
    then show ?thesis by (simp add: e fulfilled_other map_of_map_set)
  next
    case False
    with "2.prems" have in_rest: "(q, Inr b) \<in> set rest"
      and d: "distinct (map (\<lambda>x. pair_key (service_id (fst x)) (room_id (fst x))) rest)"
      by auto
    show ?thesis
    proof (cases r)
      case (Inl er)
      with "2.IH"(1) [OF Inl d in_rest] show ?thesis by simp
    next
      case (Inr byKey)
      with "2.IH"(2) [OF Inr d in_rest] show ?thesis by simp
    qed
  qed
qed

lemma fetch_all_reads:
  assumes "fetch_all e club sd ed (pairs_built ms) = Inr idxByPair"
    and "p \<in> set (map snd (pairs_built ms))"
  shows "\<exists>byKey. map_of idxByPair (key_of p) = Some byKey
           \<and> fetchIndexedRentalTimes (upstream e (query_of club sd ed p)) = Inr byKey"
proof -
  define results where
    "results = map (\<lambda>q. (q, fetchIndexedRentalTimes (upstream e q)))
                   (queries_issued club sd ed (pairs_built ms))"
  from assms(1) have none: "first_rejection (arrival e) results = None"
    and idx: "idxByPair = fulfilled results []"
    by (auto simp add: fetch_all_def results_def [symmetric] split: option.splits)
  have q: "query_of club sd ed p \<in> set (queries_issued club sd ed (pairs_built ms))"
    using assms(2) by (auto simp add: queries_issued_map)
  then have "(query_of club sd ed p, fetchIndexedRentalTimes (upstream e (query_of club sd ed p)))
      \<in> set results"
    by (auto simp add: results_def)
  with none obtain byKey where
    b: "fetchIndexedRentalTimes (upstream e (query_of club sd ed p)) = Inr byKey"
    and m: "(query_of club sd ed p, Inr byKey) \<in> set results"
    by (fastforce simp add: first_rejection_None)
  have keys: "map (\<lambda>x. pair_key (service_id (fst x)) (room_id (fst x))) results
      = map fst (pairs_built ms)"
  proof -
    have "map (\<lambda>x. pair_key (service_id (fst x)) (room_id (fst x))) results
        = map (\<lambda>x. key_of (snd x)) (pairs_built ms)"
      by (simp add: results_def queries_issued_map query_of_def key_of_def comp_def)
    also have "\<dots> = map fst (pairs_built ms)"
      using pairs_built_keyed [of ms] by (intro map_cong) auto
    finally show ?thesis .
  qed
  have "distinct (map (\<lambda>x. pair_key (service_id (fst x)) (room_id (fst x))) results)"
    unfolding keys by (rule pairs_built_distinct_keys)
  from fulfilled_map_of [OF this m, of "[]"]
  have "map_of idxByPair (key_of p) = Some byKey"
    by (simp add: idx key_of_def query_of_def)
  with b show ?thesis by blast
qed

lemma dedup_set:
  assumes "inj_on key_of (pair_of ` set meta)"
  shows "set (queries_issued club sd ed (pairs_built meta)) = query_of club sd ed ` pair_of ` set meta"
proof -
  have "set (map snd (pairs_built meta)) = pair_of ` set meta"
    using pairs_built_subset [of meta] pairs_built_cover [OF assms] by auto
  then have "query_of club sd ed ` set (map snd (pairs_built meta))
      = query_of club sd ed ` pair_of ` set meta" by simp
  then show ?thesis unfolding queries_issued_map set_map .
qed

lemma dedup_distinct: "distinct (queries_issued club sd ed (pairs_built meta))"
  unfolding queries_issued_map
  using pairs_built_distinct [of meta] inj_query_of [of club sd ed]
  by (simp add: distinct_map inj_on_def inj_def)

lemma dedup_reads:
  assumes "inj_on key_of (pair_of ` set meta)"
    and "fetch_all e club sd ed (pairs_built meta) = Inr idxByPair" "m \<in> set meta"
  shows "\<exists>byKey. map_of idxByPair (pair_key (service_id m) (room_id m)) = Some byKey
           \<and> fetchIndexedRentalTimes (upstream e (query_of club sd ed (pair_of m))) = Inr byKey"
proof -
  have "pair_of m \<in> set (map snd (pairs_built meta))"
    using pairs_built_cover [OF assms(1)] assms(3) by auto
  from fetch_all_reads [OF assms(2) this] show ?thesis
    by (simp add: key_of_def pair_of_def)
qed

lemma pair_key_inj_left: "pair_key a r = pair_key b r \<Longrightarrow> a = b"
  by (simp add: pair_key_def)

lemma elite_keys_inj:
  assumes "list_all (\<lambda>m. room_id m = eid \<and> P m) meta"
  shows "inj_on key_of (pair_of ` set meta)"
proof (rule inj_onI)
  fix x y
  assume "x \<in> pair_of ` set meta" "y \<in> pair_of ` set meta" and k: "key_of x = key_of y"
  with assms have r: "room_id x = eid" "room_id y = eid"
    by (auto simp add: list_all_iff pair_of_def)
  from k have "service_id x = service_id y"
    unfolding key_of_def r by (rule pair_key_inj_left)
  with r show "x = y" by (simp add: pair.equality)
qed

lemma bar_free_split:
  "CHR ''|'' \<notin> set a \<Longrightarrow> CHR ''|'' \<notin> set b \<Longrightarrow> a @ CHR ''|'' # r = b @ CHR ''|'' # s \<Longrightarrow> a = b \<and> r = s"
proof (induction a arbitrary: b)
  case Nil
  then show ?case by (cases b) auto
next
  case (Cons x a)
  then show ?case by (cases b) auto
qed

lemma bar_free_inj:
  assumes "\<forall>m \<in> set meta. CHR ''|'' \<notin> set (service_id m)"
  shows "inj_on key_of (pair_of ` set meta)"
proof (rule inj_onI)
  fix x y
  assume x: "x \<in> pair_of ` set meta" and y: "y \<in> pair_of ` set meta" and k: "key_of x = key_of y"
  from x y assms have "CHR ''|'' \<notin> set (service_id x)" "CHR ''|'' \<notin> set (service_id y)"
    by (auto simp add: pair_of_def)
  from bar_free_split [OF this] k have "service_id x = service_id y \<and> room_id x = room_id y"
    by (simp add: key_of_def pair_key_def)
  then show "x = y" by (simp add: pair.equality)
qed

lemma fetch_per_distinct_key:
  "(elite_resolve config eid uiDate STARTS ([], []) = Some (Inr (meta, pairs)) \<longrightarrow>
      map start meta = STARTS
    \<and> list_all (\<lambda>m. room_id m = eid
          \<and> realDateForStart uiDate (start m) = Some (realDate m)
          \<and> pickEliteServiceId config (realDate m) (start m) = Some (Inr (service_id m))) meta
    \<and> set (queries_issued club sd ed pairs) = query_of club sd ed ` pair_of ` set meta
    \<and> distinct (queries_issued club sd ed pairs)
    \<and> (\<forall>idxByPair. fetch_all e club sd ed pairs = Inr idxByPair \<longrightarrow>
          (\<forall>m \<in> set meta. \<exists>byKey.
              map_of idxByPair (pair_key (service_id m) (room_id m)) = Some byKey
            \<and> fetchIndexedRentalTimes (upstream e (query_of club sd ed (pair_of m))) = Inr byKey)))
   \<and> (comfort_resolve config comfort uiDate STARTS ([], []) = Some (Inr (meta, pairs))
      \<and> inj_on key_of (pair_of ` set meta) \<longrightarrow>
      map (\<lambda>m. (start m, room_id m)) meta = List.product STARTS (map id' comfort)
    \<and> list_all (resolved_for config comfort uiDate) meta
    \<and> set (queries_issued club sd ed pairs) = query_of club sd ed ` pair_of ` set meta
    \<and> distinct (queries_issued club sd ed pairs)
    \<and> (\<forall>idxByPair. fetch_all e club sd ed pairs = Inr idxByPair \<longrightarrow>
          (\<forall>m \<in> set meta. \<exists>byKey.
              map_of idxByPair (pair_key (service_id m) (room_id m)) = Some byKey
            \<and> fetchIndexedRentalTimes (upstream e (query_of club sd ed (pair_of m))) = Inr byKey)))"
proof (intro conjI impI)
  assume a: "elite_resolve config eid uiDate STARTS ([], []) = Some (Inr (meta, pairs))"
  from elite_resolve_inv [of config eid uiDate STARTS "[]" meta pairs] a
  have p: "pairs = pairs_built meta" and s: "map start meta = STARTS"
    and l: "list_all (\<lambda>m. room_id m = eid
          \<and> realDateForStart uiDate (start m) = Some (realDate m)
          \<and> pickEliteServiceId config (realDate m) (start m) = Some (Inr (service_id m))) meta"
    by (auto simp add: pairs_built_Nil)
  note i = elite_keys_inj [OF l]
  show "map start meta = STARTS" by (rule s)
  show "list_all (\<lambda>m. room_id m = eid
          \<and> realDateForStart uiDate (start m) = Some (realDate m)
          \<and> pickEliteServiceId config (realDate m) (start m) = Some (Inr (service_id m))) meta"
    by (rule l)
  show "set (queries_issued club sd ed pairs) = query_of club sd ed ` pair_of ` set meta"
    unfolding p by (rule dedup_set [OF i])
  show "distinct (queries_issued club sd ed pairs)"
    unfolding p by (rule dedup_distinct)
  show "\<forall>idxByPair. fetch_all e club sd ed pairs = Inr idxByPair \<longrightarrow>
          (\<forall>m \<in> set meta. \<exists>byKey.
              map_of idxByPair (pair_key (service_id m) (room_id m)) = Some byKey
            \<and> fetchIndexedRentalTimes (upstream e (query_of club sd ed (pair_of m))) = Inr byKey)"
    unfolding p using dedup_reads [OF i] by blast
next
  assume "comfort_resolve config comfort uiDate STARTS ([], []) = Some (Inr (meta, pairs))
      \<and> inj_on key_of (pair_of ` set meta)"
  then have a: "comfort_resolve config comfort uiDate STARTS ([], []) = Some (Inr (meta, pairs))"
    and i: "inj_on key_of (pair_of ` set meta)" by simp_all
  from comfort_resolve_inv [of config comfort uiDate STARTS "[]" meta pairs] a
  have p: "pairs = pairs_built meta"
    and s: "map (\<lambda>m. (start m, room_id m)) meta = List.product STARTS (map id' comfort)"
    and l: "list_all (resolved_for config comfort uiDate) meta"
    by (auto simp add: pairs_built_Nil)
  show "map (\<lambda>m. (start m, room_id m)) meta = List.product STARTS (map id' comfort)" by (rule s)
  show "list_all (resolved_for config comfort uiDate) meta" by (rule l)
  show "set (queries_issued club sd ed pairs) = query_of club sd ed ` pair_of ` set meta"
    unfolding p by (rule dedup_set [OF i])
  show "distinct (queries_issued club sd ed pairs)"
    unfolding p by (rule dedup_distinct)
  show "\<forall>idxByPair. fetch_all e club sd ed pairs = Inr idxByPair \<longrightarrow>
          (\<forall>m \<in> set meta. \<exists>byKey.
              map_of idxByPair (pair_key (service_id m) (room_id m)) = Some byKey
            \<and> fetchIndexedRentalTimes (upstream e (query_of club sd ed (pair_of m))) = Inr byKey)"
    unfolding p using dedup_reads [OF i] by blast
qed

lemma comfort_resolve_no_rooms:
  "comfort_resolve config [] uiDate starts acc = Some (Inr acc') \<Longrightarrow> acc' = acc"
  by (induction starts) (auto split: option.splits)

lemma in_band_failure:
  "getprop json ''result'' = Some (JBool False) \<Longrightarrow>
     extractUpstreamError json =
       Some (JObj [(''result'', JBool False),
                   (''error'', nullish_or (getprop json ''error'') JNull),
                   (''error_message'',
                      nullish_or (getprop json ''error_message'')
                        (JStr ''Upstream returned result=false''))])"
  by (cases json) (simp_all add: extractUpstreamError_def)

lemma fetch_failure:
  assumes "\<not> ok rp \<or> getprop (body_json rp) ''result'' = Some (JBool False)"
  shows "fetchIndexedRentalTimes (Response rp) = Inl (failure_of rp)"
proof (cases "ok rp")
  case False
  then show ?thesis
    by (simp add: fetchIndexedRentalTimes_def apiGet_def failure_of_def)
next
  case True
  with assms have r: "getprop (body_json rp) ''result'' = Some (JBool False)" by simp
  have n: "nullish_or (Some (nullish_or v (JStr ''Upstream returned result=false''))) JNull
      = nullish_or v (JStr ''Upstream returned result=false'')" for v
    by (cases v) (auto simp add: nullish_or_def split: jv.splits)
  show ?thesis
    using True by (simp add: fetchIndexedRentalTimes_def apiGet_def failure_of_def
        in_band_failure [OF r] n)
qed

text \<open>
  Claim C7. When one of the upstream queries a grid request issues is answered by an HTTP
  error or by a body with \<^verbatim>\<open>result: false\<close>, the pooled handler and the exclusive handler
  answer with the error response of a failed query of the request (the one whose failure
  arrives first): its status, its message and its details, and no grid. The failure of
  the query is \<open>failure_of\<close> of its reply, answered with the reply's HTTP status (500 for
  a status of 0) or with 502 for \<^verbatim>\<open>result: false\<close>; an error response never holds a grid.
\<close>

theorem fetch_failure_aborts_grid:
  assumes "req_club_id req \<noteq> []" "isIsoDate (req_date req)"
    and "addDaysIso (req_date req) (- 1) = Some sd" "addDaysIso (req_date req) 1 = Some ed"
    and "loadConfig e = Inr config"
    and "upstream e q = Response rp"
    and "\<not> ok rp \<or> getprop (body_json rp) ''result'' = Some (JBool False)"
  shows "(comfort_resolve config (fst (splitRooms (rooms config))) (req_date req) STARTS ([], [])
            = Some (Inr (meta, pairs))
          \<and> q \<in> set (queries_issued (req_club_id req) sd ed pairs) \<longrightarrow>
          (\<exists>q' er. q' \<in> set (queries_issued (req_club_id req) sd ed pairs)
             \<and> fetchIndexedRentalTimes (upstream e q') = Inl er
             \<and> availability_grid_comfort e req = Some (error_response er)))
       \<and> (snd (splitRooms (rooms config)) = Some el \<and> id' el \<noteq> []
          \<and> elite_resolve config (id' el) (req_date req) STARTS ([], []) = Some (Inr (meta, pairs))
          \<and> q \<in> set (queries_issued (req_club_id req) sd ed pairs) \<longrightarrow>
          (\<exists>q' er. q' \<in> set (queries_issued (req_club_id req) sd ed pairs)
             \<and> fetchIndexedRentalTimes (upstream e q') = Inl er
             \<and> availability_grid_elite e req = Some (error_response er)))
       \<and> fetchIndexedRentalTimes (upstream e q) = Inl (failure_of rp)
       \<and> error_response (failure_of rp) =
            \<lparr>code = (if ok rp then 502 else if http_status rp = 0 then 500 else http_status rp),
             body = Error_body (message (failure_of rp)) (details (failure_of rp))\<rparr>
       \<and> (\<forall>er. \<exists>c m u. error_response er = \<lparr>code = c, body = Error_body m u\<rparr>)"
proof (intro conjI impI)
  have f: "fetchIndexedRentalTimes (upstream e q) = Inl (failure_of rp)"
    unfolding assms(6) by (rule fetch_failure [OF assms(7)])
  show "fetchIndexedRentalTimes (upstream e q) = Inl (failure_of rp)" by (rule f)
  show "\<forall>er. \<exists>c m u. error_response er = \<lparr>code = c, body = Error_body m u\<rparr>"
    by (simp add: error_response_def)
  show "error_response (failure_of rp) =
            \<lparr>code = (if ok rp then 502 else if http_status rp = 0 then 500 else http_status rp),
             body = Error_body (message (failure_of rp)) (details (failure_of rp))\<rparr>"
    by (simp add: error_response_def failure_of_def)
  {
    assume "comfort_resolve config (fst (splitRooms (rooms config))) (req_date req) STARTS ([], [])
            = Some (Inr (meta, pairs))
          \<and> q \<in> set (queries_issued (req_club_id req) sd ed pairs)"
    then have r: "comfort_resolve config (fst (splitRooms (rooms config))) (req_date req) STARTS ([], [])
            = Some (Inr (meta, pairs))"
      and q: "q \<in> set (queries_issued (req_club_id req) sd ed pairs)" by simp_all
    have ne: "fst (splitRooms (rooms config)) \<noteq> []"
    proof
      assume "fst (splitRooms (rooms config)) = []"
      with r comfort_resolve_no_rooms [of config "req_date req" STARTS "([], [])" "(meta, pairs)"]
      have "pairs = []" by simp
      with q show False by (simp add: queries_issued_def)
    qed
    from fetch_all_fails [OF q f] obtain q' er where
      q': "q' \<in> set (queries_issued (req_club_id req) sd ed pairs)"
      "fetchIndexedRentalTimes (upstream e q') = Inl er"
      "fetch_all e (req_club_id req) sd ed pairs = Inl er"
      by blast
    have "availability_grid_comfort e req = Some (error_response er)"
      using assms(1-5) ne r q'(3)
      by (simp add: availability_grid_comfort_def comfort_try_def Let_def)
    with q'(1,2)
    show "\<exists>q' er. q' \<in> set (queries_issued (req_club_id req) sd ed pairs)
             \<and> fetchIndexedRentalTimes (upstream e q') = Inl er
             \<and> availability_grid_comfort e req = Some (error_response er)"
      by blast
  }
  {
    assume "snd (splitRooms (rooms config)) = Some el \<and> id' el \<noteq> []
          \<and> elite_resolve config (id' el) (req_date req) STARTS ([], []) = Some (Inr (meta, pairs))
          \<and> q \<in> set (queries_issued (req_club_id req) sd ed pairs)"
    then have el: "snd (splitRooms (rooms config)) = Some el" "id' el \<noteq> []"
      and r: "elite_resolve config (id' el) (req_date req) STARTS ([], []) = Some (Inr (meta, pairs))"
      and q: "q \<in> set (queries_issued (req_club_id req) sd ed pairs)" by simp_all
    from fetch_all_fails [OF q f] obtain q' er where
      q': "q' \<in> set (queries_issued (req_club_id req) sd ed pairs)"
      "fetchIndexedRentalTimes (upstream e q') = Inl er"
      "fetch_all e (req_club_id req) sd ed pairs = Inl er"
      by blast
    have "availability_grid_elite e req = Some (error_response er)"
      using assms(1-5) el r q'(3)
      by (simp add: availability_grid_elite_def elite_try_def Let_def)
    with q'(1,2)
    show "\<exists>q' er. q' \<in> set (queries_issued (req_club_id req) sd ed pairs)
             \<and> fetchIndexedRentalTimes (upstream e q') = Inl er
             \<and> availability_grid_elite e req = Some (error_response er)"
      by blast
  }
qed

lemma clash_pick:
  "pickComfortServiceId clash_config g ''2025-01-20'' st = Some (Inr (if g = ''g1'' then ''a|b'' else ''a''))"
  "pickComfortServiceId clash_config g ''2025-01-19'' st = Some (Inr (if g = ''g1'' then ''a|b'' else ''a''))"
  by (simp_all add: pickComfortServiceId_def jan20_day_types clash_config_def no_id_def Let_def)

lemma clash_resolve:
  "map_option (map_sum id snd)
     (comfort_resolve clash_config clash_rooms ''2025-01-20'' STARTS ([], []))
   = Some (Inr [(''a|b|c'', \<lparr>service_id = ''a'', room_id = ''b|c''\<rparr>)])"
  by (simp add: STARTS_def clash_rooms_def jan20_real_dates clash_pick pair_key_def)

lemma clash_split: "fst (splitRooms (rooms clash_config)) = clash_rooms"
  by (simp add: splitRooms_def clash_config_def clash_rooms_def)

lemma clash_fetch:
  "fetch_all clash_env ''club'' ''2025-01-19'' ''2025-01-21''
     [(''a|b|c'', \<lparr>service_id = ''a'', room_id = ''b|c''\<rparr>)] = Inr [(''a|b|c'', clash_index)]"
  "fetchIndexedRentalTimes (upstream clash_env (outage_query ''a|b'' ''c'')) = Inr Map.empty"
  by (simp_all add: fetch_all_def queries_issued_def clash_env_def outage_query_def
      fetchIndexedRentalTimes_def apiGet_def extractUpstreamError_def pair_key_def)

lemma clash_queries:
  "queries_issued ''club'' ''2025-01-19'' ''2025-01-21''
        [(''a|b|c'', \<lparr>service_id = ''a'', room_id = ''b|c''\<rparr>)]
      = [outage_query ''a'' ''b|c'']"
  "outage_query ''a|b'' ''c'' \<noteq> outage_query ''a'' ''b|c''"
  by (simp_all add: queries_issued_def outage_query_def)

lemma clash_slot:
  "comfort_slot (Whole 0) clash_config clash_rooms [(''a|b|c'', clash_index)] ''2025-01-20'' ''06:00''
     = Some (Inr \<lparr>free_count = 2, busy_count = 0, total_count = 2, min_price = Some (Finite 900)\<rparr>)"
  by (simp add: comfort_slot_def jan20_real_dates offset0_times clash_rooms_def
      clash_pick room_verdict_def room_probes_def clash_index_def
      pair_key_def probe_at_def free_900_def slotInfo_def isFreeItem_def
      evaluateRoomStatus_def pickPrice_def numeric_price_def)

text \<open>
  Claim C6 asks for one upstream query per distinct pair of a service and a room, every
  room reading the index of its own pair. With the rooms \<^verbatim>\<open>c\<close> (service \<^verbatim>\<open>a|b\<close>) and \<^verbatim>\<open>b|c\<close>
  (service \<^verbatim>\<open>a\<close>) the two pairs have the same joined key \<^verbatim>\<open>a|b|c\<close>: the pooled handler keeps
  the second pair alone and issues its query only, so the pair of room \<^verbatim>\<open>c\<close>, resolved for
  the slot 06:00, is never queried, and room \<^verbatim>\<open>c\<close> reads the index of the other pair: where
  the upstream has records for the room \<^verbatim>\<open>b|c\<close> only, the slot 06:00 counts both rooms free.
\<close>

theorem one_fetch_per_pair_key_clash:
  "fst (splitRooms (rooms clash_config)) = clash_rooms
   \<and> map_option (map_sum id snd)
       (comfort_resolve clash_config clash_rooms ''2025-01-20'' STARTS ([], []))
     = Some (Inr [(''a|b|c'', \<lparr>service_id = ''a'', room_id = ''b|c''\<rparr>)])
   \<and> queries_issued ''club'' ''2025-01-19'' ''2025-01-21''
        [(''a|b|c'', \<lparr>service_id = ''a'', room_id = ''b|c''\<rparr>)]
      = [outage_query ''a'' ''b|c'']
   \<and> realDateForStart ''2025-01-20'' ''06:00'' = Some ''2025-01-20''
   \<and> pickComfortServiceId clash_config ''g1'' ''2025-01-20'' ''06:00'' = Some (Inr ''a|b'')
   \<and> outage_query ''a|b'' ''c'' \<noteq> outage_query ''a'' ''b|c''
   \<and> pair_key ''a|b'' ''c'' = pair_key ''a'' ''b|c''
   \<and> fetch_all clash_env ''club'' ''2025-01-19'' ''2025-01-21''
        [(''a|b|c'', \<lparr>service_id = ''a'', room_id = ''b|c''\<rparr>)] = Inr [(''a|b|c'', clash_index)]
   \<and> fetchIndexedRentalTimes (upstream clash_env (outage_query ''a|b'' ''c'')) = Inr Map.empty
   \<and> comfort_slot (Whole 0) clash_config clash_rooms [(''a|b|c'', clash_index)]
        ''2025-01-20'' ''06:00''
      = Some (Inr \<lparr>free_count = 2, busy_count = 0, total_count = 2,
                   min_price = Some (Finite 900)\<rparr>)"
  by (simp add: clash_split clash_resolve clash_pick jan20_real_dates clash_queries
      pair_key_def clash_fetch clash_slot)

lemma pool_pick_elite:
  "pickEliteServiceId pool_config ''2025-01-20'' st = Some (Inr ''se'')"
  "pickEliteServiceId pool_config ''2025-01-19'' st = Some (Inr ''se'')"
  by (simp_all add: pickEliteServiceId_def jan20_day_types pool_config_def no_id_def Let_def)

lemma pool_resolve_elite:
  "map_option (map_sum id snd) (elite_resolve pool_config ''e1'' ''2025-01-20'' STARTS ([], []))
   = Some (Inr [(''se|e1'', \<lparr>service_id = ''se'', room_id = ''e1''\<rparr>)])"
  by (simp add: STARTS_def jan20_real_dates pool_pick_elite pair_key_def)

lemma pool_service_ids:
  "pickComfortServiceId pool_config g rd st = Some (Inr sid) \<Longrightarrow> CHR ''|'' \<notin> set sid"
  by (auto dest!: pickComfort_band simp add: pool_config_def split: if_splits)

lemma resolved_sum:
  "map_option (map_sum id snd) x = Some (Inr ps) \<Longrightarrow> \<exists>ms. x = Some (Inr (ms, ps))"
  by (cases x) (auto simp add: map_sum_def split: sum.splits)

lemma pool_fetch_per_distinct_key:
  "(\<exists>meta. comfort_resolve pool_config pool_rooms ''2025-01-20'' STARTS ([], [])
               = Some (Inr (meta, pool_pairs))
      \<and> inj_on key_of (pair_of ` set meta)
      \<and> set (queries_issued ''club'' ''2025-01-19'' ''2025-01-21'' pool_pairs)
          = query_of ''club'' ''2025-01-19'' ''2025-01-21'' ` pair_of ` set meta
      \<and> distinct (queries_issued ''club'' ''2025-01-19'' ''2025-01-21'' pool_pairs)
      \<and> length meta = 36)
   \<and> (\<exists>meta. elite_resolve pool_config ''e1'' ''2025-01-20'' STARTS ([], [])
               = Some (Inr (meta, [(''se|e1'', \<lparr>service_id = ''se'', room_id = ''e1''\<rparr>)]))
      \<and> set (queries_issued ''club'' ''2025-01-19'' ''2025-01-21''
               [(''se|e1'', \<lparr>service_id = ''se'', room_id = ''e1''\<rparr>)])
          = query_of ''club'' ''2025-01-19'' ''2025-01-21'' ` pair_of ` set meta
      \<and> map start meta = STARTS)
   \<and> queries_issued ''club'' ''2025-01-19'' ''2025-01-21'' pool_pairs
        = [outage_query ''s1'' ''r1'', outage_query ''s1'' ''r2'', outage_query ''s2'' ''r3'']"
proof -
  from resolved_sum [OF pool_resolve] obtain meta where
    m: "comfort_resolve pool_config pool_rooms ''2025-01-20'' STARTS ([], []) = Some (Inr (meta, pool_pairs))"
    by blast
  from comfort_resolve_inv [of pool_config pool_rooms "''2025-01-20''" STARTS "[]" meta pool_pairs] m
  have l: "list_all (resolved_for pool_config pool_rooms ''2025-01-20'') meta"
    by (auto simp add: pairs_built_Nil)
  have "\<forall>x \<in> set meta. CHR ''|'' \<notin> set (service_id x)"
    using l pool_service_ids by (auto simp add: list_all_iff resolved_for_def list_ex_iff)
  then have i: "inj_on key_of (pair_of ` set meta)" by (rule bar_free_inj)
  from resolved_sum [OF pool_resolve_elite] obtain meta' where
    m': "elite_resolve pool_config ''e1'' ''2025-01-20'' STARTS ([], [])
           = Some (Inr (meta', [(''se|e1'', \<lparr>service_id = ''se'', room_id = ''e1''\<rparr>)]))"
    by blast
  note t = fetch_per_distinct_key [of pool_config _ "''2025-01-20''" _ _ "''club''" "''2025-01-19''"
      "''2025-01-21''" _ pool_rooms]
  from t [of _ meta pool_pairs, THEN conjunct2, rule_format, OF conjI, OF m i]
  have c: "map (\<lambda>m. (start m, room_id m)) meta = List.product STARTS (map id' pool_rooms)"
    "set (queries_issued ''club'' ''2025-01-19'' ''2025-01-21'' pool_pairs)
          = query_of ''club'' ''2025-01-19'' ''2025-01-21'' ` pair_of ` set meta"
    "distinct (queries_issued ''club'' ''2025-01-19'' ''2025-01-21'' pool_pairs)"
    by simp_all
  from c(1) have n: "length meta = 36"
    using length_map [of "\<lambda>m. (start m, room_id m)" meta]
    by (simp add: STARTS_def pool_rooms_def del: length_map)
  from t [of "''e1''" meta' "[(''se|e1'', \<lparr>service_id = ''se'', room_id = ''e1''\<rparr>)]",
      THEN conjunct1, rule_format, OF m']
  have d: "map start meta' = STARTS"
    "set (queries_issued ''club'' ''2025-01-19'' ''2025-01-21''
               [(''se|e1'', \<lparr>service_id = ''se'', room_id = ''e1''\<rparr>)])
          = query_of ''club'' ''2025-01-19'' ''2025-01-21'' ` pair_of ` set meta'"
    by simp_all
  have q: "queries_issued ''club'' ''2025-01-19'' ''2025-01-21'' pool_pairs
        = [outage_query ''s1'' ''r1'', outage_query ''s1'' ''r2'', outage_query ''s2'' ''r3'']"
    by (simp add: queries_issued_def pool_pairs_def outage_query_def)
  from m i c n m' d q show ?thesis by blast
qed

lemma outage_facts:
  "loadConfig outage_env = Inr pool_config"
  "SLOT_OFFSET_MINUTES outage_env = Whole 0"
  "upstream outage_env (outage_query ''s1'' ''r2'')
     = Response \<lparr>ok = False, http_status = 503, body_text = ''busy'', body_json = JNull,
                 records = Map.empty\<rparr>"
  "upstream outage_env (outage_query ''se'' ''e1'')
     = Response \<lparr>ok = True, http_status = 200, body_text = '''',
                 body_json = JObj [(''result'', JBool False),
                                   (''error_message'', JStr ''no such service'')],
                 records = Map.empty\<rparr>"
  by (simp_all add: outage_env_def outage_query_def)

lemma text_503: "js_String 503 = ''503''"
  by code_simp

theorem fetch_failure_aborts_grid_witness:
  "(\<exists>q' er. q' \<in> set (queries_issued ''club'' ''2025-01-19'' ''2025-01-21'' pool_pairs)
        \<and> fetchIndexedRentalTimes (upstream outage_env q') = Inl er
        \<and> availability_grid_comfort outage_env pool_request = Some (error_response er))
   \<and> (\<exists>q' er. q' \<in> set (queries_issued ''club'' ''2025-01-19'' ''2025-01-21''
                             [(''se|e1'', \<lparr>service_id = ''se'', room_id = ''e1''\<rparr>)])
        \<and> fetchIndexedRentalTimes (upstream outage_env q') = Inl er
        \<and> availability_grid_elite outage_env pool_request = Some (error_response er))
   \<and> availability_grid_comfort outage_env pool_request
       = Some \<lparr>code = 503,
               body = Error_body (Text ''Upstream error 503'')
                        (Some (JObj [(''raw'', JStr ''busy'')]))\<rparr>
   \<and> availability_grid_elite outage_env pool_request
       = Some \<lparr>code = 502,
               body = Error_body (Upstream_result_false (JStr ''no such service''))
                        (Some (JObj [(''result'', JBool False), (''error'', JNull),
                                     (''error_message'', JStr ''no such service'')]))\<rparr>"
proof -
  from resolved_sum [OF pool_resolve] obtain meta where
    m: "comfort_resolve pool_config pool_rooms ''2025-01-20'' STARTS ([], []) = Some (Inr (meta, pool_pairs))"
    by blast
  from resolved_sum [OF pool_resolve_elite] obtain meta' where
    m': "elite_resolve pool_config ''e1'' ''2025-01-20'' STARTS ([], [])
           = Some (Inr (meta', [(''se|e1'', \<lparr>service_id = ''se'', room_id = ''e1''\<rparr>)]))"
    by blast
  have r: "req_club_id pool_request \<noteq> []" "isIsoDate (req_date pool_request)"
    "addDaysIso (req_date pool_request) (- 1) = Some ''2025-01-19''"
    "addDaysIso (req_date pool_request) 1 = Some ''2025-01-21''"
    by (simp_all add: pool_request_def jan20_iso jan20_range)
  have f1: "\<not> ok \<lparr>ok = False, http_status = 503, body_text = ''busy'', body_json = JNull,
                 records = Map.empty\<rparr>
      \<or> getprop (body_json \<lparr>ok = False, http_status = 503, body_text = ''busy'', body_json = JNull,
                 records = Map.empty\<rparr>) ''result'' = Some (JBool False)"
    by simp
  have f2: "\<not> ok \<lparr>ok = True, http_status = 200, body_text = '''',
                 body_json = JObj [(''result'', JBool False),
                                   (''error_message'', JStr ''no such service'')],
                 records = Map.empty\<rparr>
      \<or> getprop (body_json \<lparr>ok = True, http_status = 200, body_text = '''',
                 body_json = JObj [(''result'', JBool False),
                                   (''error_message'', JStr ''no such service'')],
                 records = Map.empty\<rparr>) ''result'' = Some (JBool False)"
    by simp
  have q1: "outage_query ''s1'' ''r2''
      \<in> set (queries_issued (req_club_id pool_request) ''2025-01-19'' ''2025-01-21'' pool_pairs)"
    by (simp add: queries_issued_def pool_pairs_def outage_query_def pool_request_def)
  have q2: "outage_query ''se'' ''e1''
      \<in> set (queries_issued (req_club_id pool_request) ''2025-01-19'' ''2025-01-21''
               [(''se|e1'', \<lparr>service_id = ''se'', room_id = ''e1''\<rparr>)])"
    by (simp add: queries_issued_def outage_query_def pool_request_def)
  have sp: "fst (splitRooms (rooms pool_config)) = pool_rooms"
    "snd (splitRooms (rooms pool_config))
       = Some \<lparr>id' = ''e1'', title = ''E'', type' = ''elite'', group' = ''''\<rparr>"
    by (simp_all add: pool_split)
  note t1 = fetch_failure_aborts_grid [OF r outage_facts(1) outage_facts(3) f1,
      of meta pool_pairs, THEN conjunct1, rule_format, OF conjI, unfolded sp,
      OF m [unfolded pool_facts(5) [symmetric]] q1]
  note t2 = fetch_failure_aborts_grid [OF r outage_facts(1) outage_facts(4) f2,
      of meta' "[(''se|e1'', \<lparr>service_id = ''se'', room_id = ''e1''\<rparr>)]"
         "\<lparr>id' = ''e1'', title = ''E'', type' = ''elite'', group' = ''''\<rparr>",
      THEN conjunct2, THEN conjunct1, rule_format, unfolded sp]
  have e2: "\<exists>q' er. q' \<in> set (queries_issued (req_club_id pool_request) ''2025-01-19'' ''2025-01-21''
                             [(''se|e1'', \<lparr>service_id = ''se'', room_id = ''e1''\<rparr>)])
        \<and> fetchIndexedRentalTimes (upstream outage_env q') = Inl er
        \<and> availability_grid_elite outage_env pool_request = Some (error_response er)"
    using m' q2 by (intro t2) (simp_all add: pool_request_def)
  have n: "pool_rooms \<noteq> []" by (simp add: pool_rooms_def)
  have fa1: "fetch_all outage_env ''club'' ''2025-01-19'' ''2025-01-21'' pool_pairs
      = Inl \<lparr>message = Text ''Upstream error 503'', status' = Some 503,
              details = Some (JObj [(''raw'', JStr ''busy'')])\<rparr>"
    by (simp add: fetch_all_def queries_issued_def pool_pairs_def outage_env_def
        fetchIndexedRentalTimes_def apiGet_def extractUpstreamError_def text_503)
  have fa2: "fetch_all outage_env ''club'' ''2025-01-19'' ''2025-01-21''
        [(''se|e1'', \<lparr>service_id = ''se'', room_id = ''e1''\<rparr>)]
      = Inl \<lparr>message = Upstream_result_false (JStr ''no such service''), status' = Some 502,
              details = Some (JObj [(''result'', JBool False), (''error'', JNull),
                                     (''error_message'', JStr ''no such service'')])\<rparr>"
    by (simp add: fetch_all_def queries_issued_def outage_env_def
        fetchIndexedRentalTimes_def apiGet_def extractUpstreamError_def nullish_or_def)
  have c: "availability_grid_comfort outage_env pool_request
       = Some \<lparr>code = 503,
               body = Error_body (Text ''Upstream error 503'')
                        (Some (JObj [(''raw'', JStr ''busy'')]))\<rparr>"
    unfolding availability_grid_comfort_def comfort_try_def
    by (simp add: pool_request_def jan20_iso jan20_range outage_facts pool_split m fa1 n Let_def
        error_response_def)
  have d: "availability_grid_elite outage_env pool_request
       = Some \<lparr>code = 502,
               body = Error_body (Upstream_result_false (JStr ''no such service''))
                        (Some (JObj [(''result'', JBool False), (''error'', JNull),
                                     (''error_message'', JStr ''no such service'')]))\<rparr>"
    unfolding availability_grid_elite_def elite_try_def
    by (simp add: pool_request_def jan20_iso jan20_range outage_facts pool_split m' fa2 Let_def
        error_response_def)
  from t1 e2 c d show ?thesis
    by (simp add: pool_request_def)
qed


section \<open>Properties of service resolution in the handlers\<close>

lemma comfort_count_resolved:
  "comfort_count config idxByPair st rd t1 t2 rs acc = Some (Inr acc') \<Longrightarrow>
     list_all (\<lambda>r. \<exists>sid. pickComfortServiceId config (group' r) rd st = Some (Inr sid)) rs"
proof (induction rs arbitrary: acc)
  case Nil
  then show ?case by simp
next
  case (Cons r rs)
  from Cons.prems obtain sid where
    sid: "pickComfortServiceId config (group' r) rd st = Some (Inr sid)"
    by (auto split: option.splits sum.splits)
  obtain fc bc mp where acc: "acc = (fc, bc, mp)" by (cases acc)
  from Cons.prems sid acc obtain acc1 where
    "comfort_count config idxByPair st rd t1 t2 rs acc1 = Some (Inr acc')"
    by (auto simp add: Let_def split: if_splits)
  from Cons.IH [OF this] sid show ?case by simp
qed

lemma starts_bands:
  "getDayBand ''06:00'' = Night" "getDayBand ''08:00'' = Day" "getDayBand ''10:00'' = Day"
  "getDayBand ''12:00'' = Day" "getDayBand ''14:00'' = Day" "getDayBand ''16:00'' = Night"
  "getDayBand ''18:00'' = Night" "getDayBand ''20:00'' = Night" "getDayBand ''22:00'' = Night"
  "getDayBand ''00:00'' = Night" "getDayBand ''02:00'' = Night" "getDayBand ''04:00'' = Night"
  by (simp_all add: getDayBand_def js_str_ge_def)

text \<open>
  Claim C4. The day band of a slot start is "day" exactly when the start is, in the
  lexicographic order of its code units, at or above \<^verbatim>\<open>08:00\<close> and strictly below
  \<^verbatim>\<open>16:00\<close>, and "night" otherwise; the wrap-around starts 00:00, 02:00 and 04:00 are
  night. Service resolution takes the band of the slot's own label, whatever the offset:
  both pick functions look the service up under the band of the start they are given,
  and the handlers give them the labels of \<open>STARTS\<close>. Every entry the exclusive handler
  pushes, and every entry the pooled handler pushes for a room, carries the service of the
  table at the day type of its real date and the band of its label, and the pooled
  handler's count of a slot resolves every room under the band of the slot's label. With
  an offset of 120 minutes the first probe of the slot 06:00 is at 08:00, a day time, and
  the slot is still resolved with the night band.
\<close>

theorem day_band_lexicographic:
  "(getDayBand s = Day \<longleftrightarrow>
      (s = ''08:00'' \<or> (''08:00'', s) \<in> lexord code_unit_less) \<and> (s, ''16:00'') \<in> lexord code_unit_less)
   \<and> (getDayBand s = Night \<longleftrightarrow>
      \<not> ((s = ''08:00'' \<or> (''08:00'', s) \<in> lexord code_unit_less) \<and> (s, ''16:00'') \<in> lexord code_unit_less))
   \<and> getDayBand ''00:00'' = Night \<and> getDayBand ''02:00'' = Night \<and> getDayBand ''04:00'' = Night
   \<and> (pickEliteServiceId config rd s = Some (Inr sid) \<longrightarrow>
        (\<exists>dt. getDayType rd = Some dt \<and> elite_services config dt (getDayBand s) = Some sid))
   \<and> (pickComfortServiceId config g rd s = Some (Inr sid) \<longrightarrow>
        (\<exists>dt. getDayType rd = Some dt \<and> comfort_services config g dt (getDayBand s) = Some sid))
   \<and> getDayBand ''06:00'' = Night \<and> slotTime1 (Whole 120) ''06:00'' = Some ''08:00''
   \<and> getDayBand ''08:00'' = Day
   \<and> (elite_resolve config eid uiDate STARTS ([], []) = Some (Inr (meta, pairs)) \<longrightarrow>
        map start meta = STARTS
        \<and> list_all (\<lambda>m. \<exists>dt. getDayType (realDate m) = Some dt
              \<and> elite_services config dt (getDayBand (start m)) = Some (service_id m)) meta)
   \<and> (comfort_resolve config comfort uiDate STARTS ([], []) = Some (Inr (cmeta, cpairs)) \<longrightarrow>
        map (\<lambda>m. (start m, room_id m)) cmeta = List.product STARTS (map id' comfort)
        \<and> list_all (\<lambda>m. \<exists>dt. getDayType (realDate m) = Some dt
              \<and> list_ex (\<lambda>r. id' r = room_id m
                    \<and> comfort_services config (group' r) dt (getDayBand (start m))
                         = Some (service_id m)) comfort) cmeta)
   \<and> (comfort_slot off config comfort idxByPair uiDate st = Some (Inr c) \<longrightarrow>
        (\<exists>rd'. realDateForStart uiDate st = Some rd'
           \<and> list_all (\<lambda>r. \<exists>dt sid'. getDayType rd' = Some dt
                 \<and> comfort_services config (group' r) dt (getDayBand st) = Some sid'
                 \<and> pickComfortServiceId config (group' r) rd' st = Some (Inr sid')) comfort))"
proof -
  have ge: "js_str_ge s ''08:00'' \<longleftrightarrow> s = ''08:00'' \<or> (''08:00'', s) \<in> lexord code_unit_less"
    using js_str_ge_iff [of s "''08:00''"]
    by (simp add: js_str_ge_def js_str_lt_iff_lexord [symmetric])
  have lt: "js_str_lt s ''16:00'' \<longleftrightarrow> (s, ''16:00'') \<in> lexord code_unit_less"
    by (rule js_str_lt_iff_lexord)
  have d: "getDayBand s = Day \<longleftrightarrow>
      (s = ''08:00'' \<or> (''08:00'', s) \<in> lexord code_unit_less) \<and> (s, ''16:00'') \<in> lexord code_unit_less"
    unfolding ge [symmetric] lt [symmetric] by (simp add: getDayBand_def)
  have "getDayBand s = Night \<longleftrightarrow> getDayBand s \<noteq> Day"
    by (cases "getDayBand s") simp_all
  then have n: "getDayBand s = Night \<longleftrightarrow>
      \<not> ((s = ''08:00'' \<or> (''08:00'', s) \<in> lexord code_unit_less) \<and> (s, ''16:00'') \<in> lexord code_unit_less)"
    unfolding d .
  have pe: "pickEliteServiceId config rd s = Some (Inr sid) \<longrightarrow>
        (\<exists>dt. getDayType rd = Some dt \<and> elite_services config dt (getDayBand s) = Some sid)"
    using pickElite_band [of config rd s sid] by blast
  have pc: "pickComfortServiceId config g rd s = Some (Inr sid) \<longrightarrow>
        (\<exists>dt. getDayType rd = Some dt \<and> comfort_services config g dt (getDayBand s) = Some sid)"
    using pickComfort_band [of config g rd s sid] by blast
  have el: "elite_resolve config eid uiDate STARTS ([], []) = Some (Inr (meta, pairs)) \<longrightarrow>
        map start meta = STARTS
        \<and> list_all (\<lambda>m. \<exists>dt. getDayType (realDate m) = Some dt
              \<and> elite_services config dt (getDayBand (start m)) = Some (service_id m)) meta"
  proof
    assume a: "elite_resolve config eid uiDate STARTS ([], []) = Some (Inr (meta, pairs))"
    from elite_resolve_inv [of config eid uiDate STARTS "[]" meta pairs] a
    have s: "map start meta = STARTS"
      and l: "list_all (\<lambda>m. room_id m = eid
          \<and> realDateForStart uiDate (start m) = Some (realDate m)
          \<and> pickEliteServiceId config (realDate m) (start m) = Some (Inr (service_id m))) meta"
      by (auto simp add: pairs_built_Nil)
    have "list_all (\<lambda>m. \<exists>dt. getDayType (realDate m) = Some dt
              \<and> elite_services config dt (getDayBand (start m)) = Some (service_id m)) meta"
      unfolding list_all_iff
    proof
      fix m assume "m \<in> set meta"
      with l have "pickEliteServiceId config (realDate m) (start m) = Some (Inr (service_id m))"
        by (simp add: list_all_iff)
      then show "\<exists>dt. getDayType (realDate m) = Some dt
              \<and> elite_services config dt (getDayBand (start m)) = Some (service_id m)"
        by (rule pickElite_band)
    qed
    with s show "map start meta = STARTS
        \<and> list_all (\<lambda>m. \<exists>dt. getDayType (realDate m) = Some dt
              \<and> elite_services config dt (getDayBand (start m)) = Some (service_id m)) meta"
      by simp
  qed
  have co: "comfort_resolve config comfort uiDate STARTS ([], []) = Some (Inr (cmeta, cpairs)) \<longrightarrow>
        map (\<lambda>m. (start m, room_id m)) cmeta = List.product STARTS (map id' comfort)
        \<and> list_all (\<lambda>m. \<exists>dt. getDayType (realDate m) = Some dt
              \<and> list_ex (\<lambda>r. id' r = room_id m
                    \<and> comfort_services config (group' r) dt (getDayBand (start m))
                         = Some (service_id m)) comfort) cmeta"
  proof
    assume a: "comfort_resolve config comfort uiDate STARTS ([], []) = Some (Inr (cmeta, cpairs))"
    from comfort_resolve_inv [of config comfort uiDate STARTS "[]" cmeta cpairs] a
    have s: "map (\<lambda>m. (start m, room_id m)) cmeta = List.product STARTS (map id' comfort)"
      and l: "list_all (resolved_for config comfort uiDate) cmeta"
      by (auto simp add: pairs_built_Nil)
    have "list_all (\<lambda>m. \<exists>dt. getDayType (realDate m) = Some dt
              \<and> list_ex (\<lambda>r. id' r = room_id m
                    \<and> comfort_services config (group' r) dt (getDayBand (start m))
                         = Some (service_id m)) comfort) cmeta"
      unfolding list_all_iff
    proof
      fix m assume "m \<in> set cmeta"
      with l have "resolved_for config comfort uiDate m" by (simp add: list_all_iff)
      then obtain r where r: "r \<in> set comfort" "id' r = room_id m"
        "pickComfortServiceId config (group' r) (realDate m) (start m) = Some (Inr (service_id m))"
        by (auto simp add: resolved_for_def list_ex_iff)
      from pickComfort_band [OF r(3)] obtain dt where
        "getDayType (realDate m) = Some dt"
        "comfort_services config (group' r) dt (getDayBand (start m)) = Some (service_id m)"
        by blast
      with r(1,2) show "\<exists>dt. getDayType (realDate m) = Some dt
              \<and> list_ex (\<lambda>r. id' r = room_id m
                    \<and> comfort_services config (group' r) dt (getDayBand (start m))
                         = Some (service_id m)) comfort"
        by (auto simp add: list_ex_iff)
    qed
    with s show "map (\<lambda>m. (start m, room_id m)) cmeta = List.product STARTS (map id' comfort)
        \<and> list_all (\<lambda>m. \<exists>dt. getDayType (realDate m) = Some dt
              \<and> list_ex (\<lambda>r. id' r = room_id m
                    \<and> comfort_services config (group' r) dt (getDayBand (start m))
                         = Some (service_id m)) comfort) cmeta"
      by simp
  qed
  have sl: "comfort_slot off config comfort idxByPair uiDate st = Some (Inr c) \<longrightarrow>
        (\<exists>rd'. realDateForStart uiDate st = Some rd'
           \<and> list_all (\<lambda>r. \<exists>dt sid'. getDayType rd' = Some dt
                 \<and> comfort_services config (group' r) dt (getDayBand st) = Some sid'
                 \<and> pickComfortServiceId config (group' r) rd' st = Some (Inr sid')) comfort)"
  proof
    assume "comfort_slot off config comfort idxByPair uiDate st = Some (Inr c)"
    then obtain rd' t1 t2 acc where
      a: "realDateForStart uiDate st = Some rd'"
      "comfort_count config idxByPair st rd' t1 t2 comfort (0, 0, None) = Some (Inr acc)"
      by (auto simp add: comfort_slot_def split: option.splits sum.splits)
    have "list_all (\<lambda>r. \<exists>dt sid'. getDayType rd' = Some dt
                 \<and> comfort_services config (group' r) dt (getDayBand st) = Some sid'
                 \<and> pickComfortServiceId config (group' r) rd' st = Some (Inr sid')) comfort"
      unfolding list_all_iff
    proof
      fix r assume "r \<in> set comfort"
      with comfort_count_resolved [OF a(2)] obtain sid' where
        p: "pickComfortServiceId config (group' r) rd' st = Some (Inr sid')"
        by (auto simp add: list_all_iff)
      from pickComfort_band [OF p] p
      show "\<exists>dt sid'. getDayType rd' = Some dt
                 \<and> comfort_services config (group' r) dt (getDayBand st) = Some sid'
                 \<and> pickComfortServiceId config (group' r) rd' st = Some (Inr sid')"
        by blast
    qed
    with a(1) show "\<exists>rd'. realDateForStart uiDate st = Some rd'
           \<and> list_all (\<lambda>r. \<exists>dt sid'. getDayType rd' = Some dt
                 \<and> comfort_services config (group' r) dt (getDayBand st) = Some sid'
                 \<and> pickComfortServiceId config (group' r) rd' st = Some (Inr sid')) comfort"
      by blast
  qed
  note b = starts_bands
  show ?thesis
    by (intro conjI) (rule d, rule n, rule b(10), rule b(11), rule b(12), rule pe, rule pc,
        rule b(1), rule slotTime_0600_120, rule b(2), rule el, rule co, rule sl)
qed

lemma band_pick:
  "pickEliteServiceId band_config ''2025-01-20'' st
     = Some (Inr (if getDayBand st = Day then ''elite-day'' else ''elite-night''))"
  "pickEliteServiceId band_config ''2025-01-19'' st
     = Some (Inr (if getDayBand st = Day then ''elite-day'' else ''elite-night''))"
  by (simp_all add: pickEliteServiceId_def jan20_day_types band_config_def no_id_def Let_def)

lemma band_resolve_elite:
  "elite_resolve band_config ''e1'' ''2025-01-20'' STARTS ([], [])
   = Some (Inr (band_meta,
        [(''elite-night|e1'', \<lparr>service_id = ''elite-night'', room_id = ''e1''\<rparr>),
         (''elite-day|e1'', \<lparr>service_id = ''elite-day'', room_id = ''e1''\<rparr>)]))"
  by (simp add: STARTS_def jan20_real_dates band_pick starts_bands pair_key_def band_meta_def)

theorem day_band_lexicographic_witness:
  "pickEliteServiceId band_config ''2025-01-20'' ''06:00'' = Some (Inr ''elite-night'')
   \<and> elite_services band_config Weekday (getDayBand ''06:00'') = Some ''elite-night''
   \<and> pickComfortServiceId band_config ''g1'' ''2025-01-20'' ''14:00'' = Some (Inr ''comfort-day'')
   \<and> comfort_services band_config ''g1'' Weekday (getDayBand ''14:00'') = Some ''comfort-day''
   \<and> getDayBand ''14:00'' = Day
   \<and> (''08:00'', ''14:00'') \<in> lexord code_unit_less
   \<and> (''14:00'', ''16:00'') \<in> lexord code_unit_less
   \<and> elite_resolve band_config ''e1'' ''2025-01-20'' STARTS ([], [])
       = Some (Inr (band_meta,
            [(''elite-night|e1'', \<lparr>service_id = ''elite-night'', room_id = ''e1''\<rparr>),
             (''elite-day|e1'', \<lparr>service_id = ''elite-day'', room_id = ''e1''\<rparr>)]))
   \<and> map start band_meta = STARTS
   \<and> list_all (\<lambda>m. \<exists>dt. getDayType (realDate m) = Some dt
         \<and> elite_services band_config dt (getDayBand (start m)) = Some (service_id m)) band_meta
   \<and> (\<exists>cmeta. comfort_resolve pool_config pool_rooms ''2025-01-20'' STARTS ([], [])
                 = Some (Inr (cmeta, pool_pairs))
         \<and> list_all (\<lambda>m. \<exists>dt. getDayType (realDate m) = Some dt
               \<and> list_ex (\<lambda>r. id' r = room_id m
                     \<and> comfort_services pool_config (group' r) dt (getDayBand (start m))
                          = Some (service_id m)) pool_rooms) cmeta)
   \<and> comfort_slot (Whole 0) pool_config pool_rooms pool_index ''2025-01-20'' ''02:00''
       = Some (Inr \<lparr>free_count = 1, busy_count = 2, total_count = 3,
                    min_price = Some (Finite 900)\<rparr>)
   \<and> list_all (\<lambda>r. \<exists>dt sid'. getDayType ''2025-01-19'' = Some dt
         \<and> comfort_services pool_config (group' r) dt (getDayBand ''02:00'') = Some sid'
         \<and> pickComfortServiceId pool_config (group' r) ''2025-01-19'' ''02:00'' = Some (Inr sid'))
       pool_rooms"
proof -
  have b: "getDayBand ''06:00'' = Night" "getDayBand ''14:00'' = Day"
    by (simp_all add: getDayBand_def js_str_ge_def)
  have e: "pickEliteServiceId band_config ''2025-01-20'' ''06:00'' = Some (Inr ''elite-night'')"
    by (simp add: pickEliteServiceId_def monday_weekday b band_config_def no_id_def)
  have c: "pickComfortServiceId band_config ''g1'' ''2025-01-20'' ''14:00'' = Some (Inr ''comfort-day'')"
    by (simp add: pickComfortServiceId_def monday_weekday b band_config_def no_id_def)
  from resolved_sum [OF pool_resolve] obtain cmeta where
    m: "comfort_resolve pool_config pool_rooms ''2025-01-20'' STARTS ([], []) = Some (Inr (cmeta, pool_pairs))"
    by blast
  note sl = pool_slots(1)
  note t = day_band_lexicographic [of _ _ _ _ _ "''e1''" "''2025-01-20''" _ _ pool_rooms
      cmeta pool_pairs "Whole 0" pool_index "''02:00''"]
  note t1 = t [of "''14:00''" band_config "''2025-01-20''" "''comfort-day''" "''g1''" band_meta
      "[(''elite-night|e1'', \<lparr>service_id = ''elite-night'', room_id = ''e1''\<rparr>),
        (''elite-day|e1'', \<lparr>service_id = ''elite-day'', room_id = ''e1''\<rparr>)]" all_busy]
  note t2 = t [of "''06:00''" pool_config "''2025-01-20''" "''elite-night''" "''g1''" band_meta "[]"
      "\<lparr>free_count = 1, busy_count = 2, total_count = 3, min_price = Some (Finite 900)\<rparr>"]
  note t3 = t [of "''06:00''" band_config "''2025-01-20''" "''elite-night''" "''g1''" band_meta "[]"
      all_busy]
  from t1 c monday_weekday have a1:
    "comfort_services band_config ''g1'' Weekday (getDayBand ''14:00'') = Some ''comfort-day''"
    "(''08:00'', ''14:00'') \<in> lexord code_unit_less" "(''14:00'', ''16:00'') \<in> lexord code_unit_less"
    using b(2) by auto
  from t3 e monday_weekday have a2:
    "elite_services band_config Weekday (getDayBand ''06:00'') = Some ''elite-night''"
    by auto
  from t1 band_resolve_elite have a3: "map start band_meta = STARTS"
    "list_all (\<lambda>m. \<exists>dt. getDayType (realDate m) = Some dt
         \<and> elite_services band_config dt (getDayBand (start m)) = Some (service_id m)) band_meta"
    by blast+
  from t2 m have a4: "list_all (\<lambda>m. \<exists>dt. getDayType (realDate m) = Some dt
               \<and> list_ex (\<lambda>r. id' r = room_id m
                     \<and> comfort_services pool_config (group' r) dt (getDayBand (start m))
                          = Some (service_id m)) pool_rooms) cmeta"
    by blast
  from t2 sl jan20_real_dates(11) have a5:
    "list_all (\<lambda>r. \<exists>dt sid'. getDayType ''2025-01-19'' = Some dt
         \<and> comfort_services pool_config (group' r) dt (getDayBand ''02:00'') = Some sid'
         \<and> pickComfortServiceId pool_config (group' r) ''2025-01-19'' ''02:00'' = Some (Inr sid'))
       pool_rooms"
    by auto
  from m a4 have a6: "\<exists>cmeta. comfort_resolve pool_config pool_rooms ''2025-01-20'' STARTS ([], [])
                 = Some (Inr (cmeta, pool_pairs))
         \<and> list_all (\<lambda>m. \<exists>dt. getDayType (realDate m) = Some dt
               \<and> list_ex (\<lambda>r. id' r = room_id m
                     \<and> comfort_services pool_config (group' r) dt (getDayBand (start m))
                          = Some (service_id m)) pool_rooms) cmeta"
    by blast
  show ?thesis
    by (intro conjI) (rule e, rule a2, rule c, rule a1(1), rule b(2), rule a1(2), rule a1(3),
        rule band_resolve_elite, rule a3(1), rule a3(2), rule a6, rule sl, rule a5)
qed


end
